theory Spec2Isabelle
  imports Complex_Main
begin

section \<open>Python primitives used by the extractors\<close>

text \<open>
  Python \<open>str\<close> values are modelled as \<^typ>\<open>string\<close>, one \<^typ>\<open>char\<close> per code point, so
  the model covers texts over the code points 0..255. The OCR whitelist of the source
  (letters, digits, space and \<open>.,:-/\<close>) lies inside ASCII.
  An exception is a value carrying the text that \<open>str(e)\<close> would give.
\<close>

datatype py_exception = PyException string

fun exc_str :: "py_exception \<Rightarrow> string" where
  "exc_str (PyException s) = s"

definition ascii_uppercase :: string where
  "ascii_uppercase = ''ABCDEFGHIJKLMNOPQRSTUVWXYZ''"

definition ascii_lowercase :: string where
  "ascii_lowercase = ''abcdefghijklmnopqrstuvwxyz''"

definition digits :: string where
  "digits = ''0123456789''"

text \<open>Whitespace of \<open>str.strip()\<close> and of the regex class \<open>\s\<close> below code point 256.\<close>

definition whitespace :: string where
  "whitespace =
     [CHR 0x09, CHR 0x0A, CHR 0x0B, CHR 0x0C, CHR 0x0D,
      CHR 0x1C, CHR 0x1D, CHR 0x1E, CHR 0x1F, CHR 0x20, CHR 0x85, CHR 0xA0]"

definition is_digit :: "char \<Rightarrow> bool" where
  "is_digit c = (c \<in> set digits)"

definition is_space :: "char \<Rightarrow> bool" where
  "is_space c = (c \<in> set whitespace)"

definition chr_upper :: "char \<Rightarrow> char" where
  "chr_upper c =
     (case map_of (zip ascii_lowercase ascii_uppercase) c of Some u \<Rightarrow> u | None \<Rightarrow> c)"

definition chr_lower :: "char \<Rightarrow> char" where
  "chr_lower c =
     (case map_of (zip ascii_uppercase ascii_lowercase) c of Some l \<Rightarrow> l | None \<Rightarrow> c)"

text \<open>\<open>s.upper()\<close>, on the letters the month patterns can capture.\<close>

definition str_upper :: "string \<Rightarrow> string" where
  "str_upper s = map chr_upper s"

text \<open>\<open>s.zfill(w)\<close>: pad with zeros on the left, after a leading sign.\<close>

definition zfill :: "nat \<Rightarrow> string \<Rightarrow> string" where
  "zfill w s =
     (if w \<le> length s then s
      else case s of
             c # r \<Rightarrow> if c = CHR ''+'' \<or> c = CHR ''-''
                      then c # replicate (w - length s) CHR ''0'' @ r
                      else replicate (w - length s) CHR ''0'' @ s
           | [] \<Rightarrow> replicate w CHR ''0'')"

text \<open>
  \<open>int(s)\<close> on a string of decimal digits; any other string raises \<open>ValueError\<close>.
  (Python also accepts surrounding whitespace, a sign and underscores; the extractors
  only pass tokens captured by \<open>\d{2}\<close>.)
\<close>

definition digit_val :: "char \<Rightarrow> int" where
  "digit_val c = int ((of_char c :: nat) - 48)"

definition py_int :: "string \<Rightarrow> py_exception + int" where
  "py_int s =
     (if s \<noteq> [] \<and> list_all is_digit s
      then Inr (foldl (\<lambda>a c. 10 * a + digit_val c) 0 s)
      else Inl (PyException (''invalid literal for int() with base 10: '' @ s)))"

text \<open>\<open>s.strip()\<close>, \<open>s.split('\n')\<close>, \<open>'\n'.join(xs)\<close> and \<open>s.replace(old, new)\<close>.\<close>

definition py_strip :: "string \<Rightarrow> string" where
  "py_strip s = rev (dropWhile is_space (rev (dropWhile is_space s)))"

fun py_split :: "char \<Rightarrow> string \<Rightarrow> string list" where
  "py_split d [] = [[]]"
| "py_split d (c # s) =
     (if c = d then [] # py_split d s
      else case py_split d s of
             w # ws \<Rightarrow> (c # w) # ws
           | [] \<Rightarrow> [[c]])"

fun py_join :: "string \<Rightarrow> string list \<Rightarrow> string" where
  "py_join d [] = []"
| "py_join d [x] = x"
| "py_join d (x # y # ys) = x @ d @ py_join d (y # ys)"

fun starts_with :: "string \<Rightarrow> string \<Rightarrow> bool" where
  "starts_with [] s = True"
| "starts_with (a # as) [] = False"
| "starts_with (a # as) (c # s) = (a = c \<and> starts_with as s)"

text \<open>
  \<open>s.replace(old, new)\<close> for a non-empty \<open>old\<close>: every non-overlapping occurrence,
  scanning from the left. The recursion carries the number of characters still to
  skip after an occurrence has been replaced.
\<close>

fun replace_from :: "nat \<Rightarrow> string \<Rightarrow> string \<Rightarrow> string \<Rightarrow> string" where
  "replace_from k old new [] = []"
| "replace_from (Suc k) old new (c # s) = replace_from k old new s"
| "replace_from 0 old new (c # s) =
     (if starts_with old (c # s) then new @ replace_from (length old - 1) old new s
      else c # replace_from 0 old new s)"

definition py_replace :: "string \<Rightarrow> string \<Rightarrow> string \<Rightarrow> string" where
  "py_replace old new s = replace_from 0 old new s"

text \<open>\<open>repr(s)\<close> of a string without quotes or characters to escape, as in file names.\<close>

definition py_repr :: "string \<Rightarrow> string" where
  "py_repr s = [CHR 0x27] @ s @ [CHR 0x27]"

definition ends_with :: "string \<Rightarrow> string \<Rightarrow> bool" where
  "ends_with suf s = starts_with (rev suf) (rev s)"

fun contains :: "string \<Rightarrow> string \<Rightarrow> bool" where
  "contains sub [] = (sub = [])"
| "contains sub (c # s) = (starts_with sub (c # s) \<or> contains sub s)"

section \<open>The regular expressions of the pattern catalog\<close>

text \<open>
  The patterns of the source use character classes (with \<open>\d\<close> for \<open>digits\<close> and
  \<open>\s\<close> for \<open>whitespace\<close>), greedy counted repetition of a class, concatenation,
  alternation and capture groups. A pattern is matched the way Python's backtracking
  matcher does it: \<open>matches\<close> lists, in the order the matcher would try them, every
  way the pattern matches a prefix of the input, as the rest of the input and the
  captured groups. The head of that list is the match Python reports. No pattern of
  the source nests groups or puts a group under a repetition or inside an alternation.
\<close>

text \<open>
  A character class is the list of its members. Under \<open>re.IGNORECASE\<close> a character
  also belongs to a class when its lower-case or its upper-case form does.
\<close>

type_synonym cset = string

definition cset_has :: "bool \<Rightarrow> cset \<Rightarrow> char \<Rightarrow> bool" where
  "cset_has ic cs c =
     (if c \<in> set cs then True
      else if ic then (chr_lower c \<in> set cs \<or> chr_upper c \<in> set cs)
      else False)"

datatype regex =
    Eps
  | Rep cset nat "nat option"
  | Cat regex regex
  | Alt regex regex
  | Group regex

text \<open>\<open>Rep cs lo hi\<close> is \<open>[cs]{lo,hi}\<close>, greedy; \<open>hi = None\<close> is no upper bound.\<close>

fun rep_matches :: "bool \<Rightarrow> cset \<Rightarrow> nat \<Rightarrow> nat option \<Rightarrow> string \<Rightarrow> string list" where
  "rep_matches ic cs lo hi [] = (if lo = 0 then [[]] else [])"
| "rep_matches ic cs lo hi (c # s) =
     (if hi \<noteq> Some 0 \<and> cset_has ic cs c
      then rep_matches ic cs (lo - 1) (map_option (\<lambda>h. h - 1) hi) s else [])
     @ (if lo = 0 then [c # s] else [])"

fun matches :: "bool \<Rightarrow> regex \<Rightarrow> string \<Rightarrow> (string \<times> string list) list" where
  "matches ic Eps s = [(s, [])]"
| "matches ic (Rep cs lo hi) s = map (\<lambda>r. (r, [])) (rep_matches ic cs lo hi s)"
| "matches ic (Cat a b) s =
     concat (map (\<lambda>(r, g). map (\<lambda>(r', g'). (r', g @ g')) (matches ic b r)) (matches ic a s))"
| "matches ic (Alt a b) s = matches ic a s @ matches ic b s"
| "matches ic (Group a) s =
     map (\<lambda>(r, g). (r, take (length s - length r) s # g)) (matches ic a s)"

fun ngroups :: "regex \<Rightarrow> nat" where
  "ngroups Eps = 0"
| "ngroups (Rep cs lo hi) = 0"
| "ngroups (Cat a b) = ngroups a + ngroups b"
| "ngroups (Alt a b) = ngroups a + ngroups b"
| "ngroups (Group a) = Suc (ngroups a)"

text \<open>
  What \<open>re.findall\<close> yields for one match: the whole match when the pattern has no
  group, the group's text when it has one, the tuple of the groups otherwise.
\<close>

datatype match = MStr string | MTuple "string list"

definition to_match :: "nat \<Rightarrow> string \<Rightarrow> string list \<Rightarrow> match" where
  "to_match n whole gs =
     (if n = 0 then MStr whole
      else if n = 1 then MStr (case gs of g # _ \<Rightarrow> g | [] \<Rightarrow> [])
      else MTuple gs)"

text \<open>
  The scan of \<open>re.findall\<close>: leftmost match first, the next search starting where the
  match ended (one character later after an empty match).
\<close>

fun scan :: "bool \<Rightarrow> regex \<Rightarrow> string \<Rightarrow> (string \<times> string list) list" where
  "scan ic p [] = (case matches ic p [] of [] \<Rightarrow> [] | (r, g) # _ \<Rightarrow> [([], g)])"
| "scan ic p (c # t) =
     (case matches ic p (c # t) of
        [] \<Rightarrow> scan ic p t
      | (r, g) # _ \<Rightarrow>
          (take (Suc (length t) - length r) (c # t), g)
            # (if length r \<le> length t then scan ic p r else scan ic p t))"

definition re_findall :: "regex \<Rightarrow> string \<Rightarrow> bool \<Rightarrow> match list" where
  "re_findall p text ic = map (\<lambda>(w, g). to_match (ngroups p) w g) (scan ic p text)"

section \<open>Pattern catalogs\<close>

definition chr :: "char \<Rightarrow> regex" where
  "chr c = Rep [c] 1 (Some 1)"

definition cls :: "cset \<Rightarrow> regex" where
  "cls cs = Rep cs 1 (Some 1)"

definition star :: "cset \<Rightarrow> regex" where
  "star cs = Rep cs 0 None"

definition plus :: "cset \<Rightarrow> regex" where
  "plus cs = Rep cs 1 None"

fun seq :: "regex list \<Rightarrow> regex" where
  "seq [] = Eps"
| "seq [r] = r"
| "seq (r # rs) = Cat r (seq rs)"

fun alts :: "regex list \<Rightarrow> regex" where
  "alts [] = Rep [] 1 (Some 1)"
| "alts [r] = r"
| "alts (r # rs) = Alt r (alts rs)"

definition lit :: "string \<Rightarrow> regex" where
  "lit s = seq (map chr s)"

definition month_alternation :: regex where
  \<comment> \<open>\<open>(SEP|JAN|FEB|MAR|APR|MAY|JUN|JUL|AUG|OCT|NOV|DEC)\<close>\<close>
  "month_alternation = Group (alts (map lit
     [''SEP'', ''JAN'', ''FEB'', ''MAR'', ''APR'', ''MAY'',
      ''JUN'', ''JUL'', ''AUG'', ''OCT'', ''NOV'', ''DEC'']))"

definition upper_3_4 :: regex where
  \<comment> \<open>\<open>[A-Z]{3,4}\<close>\<close>
  "upper_3_4 = Rep ascii_uppercase 3 (Some 4)"

definition pat_bilingual_tight :: regex where
  \<comment> \<open>\<open>(\d{1,2})\s+(SEP|...|DEC)\s*/\s*[A-Z]{3,4}\s+(\d{2})\<close>\<close>
  "pat_bilingual_tight = seq
     [Group (Rep digits 1 (Some 2)), plus whitespace, month_alternation,
      star whitespace, chr CHR ''/'', star whitespace, upper_3_4, plus whitespace,
      Group (Rep digits 2 (Some 2))]"

definition pat_bilingual_spaced :: regex where
  \<comment> \<open>\<open>(\d{1,2})\s+(SEP|...|DEC)\s+/\s*[A-Z]{3,4}\s+(\d{2})\<close>\<close>
  "pat_bilingual_spaced = seq
     [Group (Rep digits 1 (Some 2)), plus whitespace, month_alternation,
      plus whitespace, chr CHR ''/'', star whitespace, upper_3_4, plus whitespace,
      Group (Rep digits 2 (Some 2))]"

definition pat_date_of_issue :: regex where
  \<comment> \<open>\<open>(?i)date\s+of\s+issue[:\s]*(\d{1,2})\s+([A-Z]{3,4})\s+(\d{2,4})\<close>; the inline
      flag repeats the \<open>re.IGNORECASE\<close> that every call passes\<close>
  "pat_date_of_issue = seq
     [lit ''date'', plus whitespace, lit ''of'', plus whitespace, lit ''issue'',
      star ('':'' @ whitespace),
      Group (Rep digits 1 (Some 2)), plus whitespace, Group upper_3_4, plus whitespace,
      Group (Rep digits 2 (Some 4))]"

definition pat_plain_date :: regex where
  \<comment> \<open>\<open>(\d{1,2})\s+([A-Z]{3,4})\s+(\d{2,4})\<close>\<close>
  "pat_plain_date = seq
     [Group (Rep digits 1 (Some 2)), plus whitespace, Group upper_3_4, plus whitespace,
      Group (Rep digits 2 (Some 4))]"

definition pat_year_only :: regex where
  \<comment> \<open>\<open>[Gg][Ss3]*[Ss3]*er[ys]*[a-z]*er[ys]*[a-z]*(\d{2})\<close>\<close>
  "pat_year_only = seq
     [cls ''Gg'',
      star ''Ss3'',
      star ''Ss3'',
      lit ''er'', star ''ys'', star ascii_lowercase,
      lit ''er'', star ''ys'', star ascii_lowercase,
      Group (Rep digits 2 (Some 2))]"

definition pat_frag_seet :: regex where
  \<comment> \<open>\<open>[O0](\d)\s*[Ss]er[ys]*[a-z]*[Ss]ee[tT]*\s*(\d{2})\<close>\<close>
  "pat_frag_seet = seq
     [cls ''O0'', Group (cls digits), star whitespace,
      cls ''Ss'', lit ''er'',
      star ''ys'', star ascii_lowercase,
      cls ''Ss'', lit ''ee'',
      star ''tT'', star whitespace,
      Group (Rep digits 2 (Some 2))]"

definition sep_letters :: "regex list" where
  \<comment> \<open>\<open>[Ss][Ee][PpRr]\<close>\<close>
  "sep_letters =
     [cls ''Ss'', cls ''Ee'',
      cls ''PpRr'']"

definition pat_frag_sep :: regex where
  \<comment> \<open>\<open>[O0](\d)\s*[Ss][Ee][PpRr]\s*[\/\\]*\s*[Ss][Ee][PpRr][Tt]*\s*(\d{2})\<close>\<close>
  "pat_frag_sep = seq
     ([cls ''O0'', Group (cls digits), star whitespace]
      @ sep_letters
      @ [star whitespace, star [CHR ''/'', CHR 0x5C], star whitespace]
      @ sep_letters
      @ [star ''Tt'', star whitespace,
         Group (Rep digits 2 (Some 2))])"

definition pat_frag_seer :: regex where
  \<comment> \<open>\<open>[O0](\d)\s*[Ss]er[a-z]*[Ss]eer\s*(\d{2})\<close>\<close>
  "pat_frag_seer = seq
     [cls ''O0'', Group (cls digits), star whitespace,
      cls ''Ss'', lit ''er'', star ascii_lowercase,
      cls ''Ss'', lit ''eer'', star whitespace,
      Group (Rep digits 2 (Some 2))]"

text \<open>The \<open>patterns\<close> lists, in the order each source file declares them.\<close>

definition patterns_pure :: "regex list" where
  "patterns_pure =
     [pat_bilingual_tight, pat_bilingual_spaced, pat_date_of_issue, pat_plain_date,
      pat_year_only, pat_frag_seet, pat_frag_sep]"

definition patterns_simplified :: "regex list" where
  "patterns_simplified = patterns_pure"

definition patterns_full :: "regex list" where
  "patterns_full =
     [pat_bilingual_tight, pat_bilingual_spaced,
      pat_year_only, pat_frag_seet, pat_frag_sep, pat_frag_seer,
      pat_date_of_issue, pat_plain_date]"

definition month_map :: "(string \<times> string) list" where
  "month_map =
     [(''JAN'', ''01''), (''FEB'', ''02''), (''MAR'', ''03''), (''APR'', ''04''),
      (''MAY'', ''05''), (''JUN'', ''06''), (''JUL'', ''07''), (''AUG'', ''08''),
      (''SEP'', ''09''), (''OCT'', ''10''), (''NOV'', ''11''), (''DEC'', ''12'')]"

section \<open>The cascade: \<open>extract_issue_date_from_text\<close>\<close>

text \<open>\<open>len(match)\<close> and \<open>match[i]\<close>, on a tuple of groups or on a string.\<close>

fun match_len :: "match \<Rightarrow> nat" where
  "match_len (MStr s) = length s"
| "match_len (MTuple gs) = length gs"

fun match_at :: "match \<Rightarrow> nat \<Rightarrow> string" where
  \<comment> \<open>every use in the source is guarded by \<open>len(match)\<close>\<close>
  "match_at (MStr s) i = [s ! i]"
| "match_at (MTuple gs) i = gs ! i"

text \<open>
  The block \<open>if len(year) == 2: year_num = int(year); ...\<close> that the source repeats
  in every branch, with the threshold that branch compares against.
\<close>

definition two_digit_year :: "int \<Rightarrow> string \<Rightarrow> py_exception + string" where
  "two_digit_year threshold year =
     (if length year = 2
      then case py_int year of
             Inl e \<Rightarrow> Inl e
           | Inr year_num \<Rightarrow> Inr ((if year_num \<le> threshold then ''20'' else ''19'') @ year)
      else Inr year)"

definition iso_date :: "string \<Rightarrow> string \<Rightarrow> string \<Rightarrow> string" where
  \<comment> \<open>\<open>f"{year}-{month}-{day}"\<close>\<close>
  "iso_date year month day = year @ ''-'' @ month @ ''-'' @ day"

text \<open>
  The body of the inner loop for the pattern at index \<open>i\<close>: \<open>Inr (Some d)\<close> is
  \<open>return d\<close>, \<open>Inr None\<close> falls through to the next match, \<open>Inl e\<close> raises.
\<close>

definition month_name_branch :: "int \<Rightarrow> match \<Rightarrow> py_exception + string option" where
  "month_name_branch threshold m =
     (if 3 \<le> match_len m then
        let day = zfill 2 (match_at m 0);
            month_str = str_upper (match_at m 1);
            year = match_at m 2
        in case map_of month_map month_str of
             Some month \<Rightarrow>
               (case two_digit_year threshold year of
                  Inl e \<Rightarrow> Inl e
                | Inr y \<Rightarrow> Inr (Some (iso_date y month day)))
           | None \<Rightarrow> Inr None
      else Inr None)"

definition year_only_branch :: "match \<Rightarrow> py_exception + string option" where
  "year_only_branch m =
     (if 1 \<le> match_len m then
        let day = ''03'';
            year = (case m of MTuple gs \<Rightarrow> gs ! 0 | MStr s \<Rightarrow> s);
            month = ''09''
        in case two_digit_year 50 year of
             Inl e \<Rightarrow> Inl e
           | Inr y \<Rightarrow> Inr (Some (iso_date y month day))
      else Inr None)"

definition handle_match_pure :: "nat \<Rightarrow> match \<Rightarrow> py_exception + string option" where
  "handle_match_pure i m =
     (if i < 2 then month_name_branch 50 m
      else if i = 4 then year_only_branch m
      else if 2 \<le> match_len m then
        let day = (if 4 < i then zfill 2 (''0'' @ match_at m 0) else ''03'');
            year = (if 1 < match_len m then match_at m 1 else match_at m 0);
            month = ''09''
        in case two_digit_year 50 year of
             Inl e \<Rightarrow> Inl e
           | Inr y \<Rightarrow> Inr (Some (iso_date y month day))
      else Inr None)"

definition handle_match_full :: "nat \<Rightarrow> match \<Rightarrow> py_exception + string option" where
  "handle_match_full i m =
     (if i < 2 then month_name_branch 30 m
      else if i < 6 then
        (if i = 2 then year_only_branch m
         else if 2 \<le> match_len m then
           let day = zfill 2 (''0'' @ match_at m 0);
               year = match_at m 1;
               month = ''09''
           in case two_digit_year 50 year of
                Inl e \<Rightarrow> Inl e
              | Inr y \<Rightarrow> Inr (Some (iso_date y month day))
         else Inr None)
      else month_name_branch 30 m)"

fun for_matches ::
  "(match \<Rightarrow> py_exception + string option) \<Rightarrow> match list \<Rightarrow> py_exception + string option" where
  "for_matches h [] = Inr None"
| "for_matches h (m # ms) =
     (case h m of
        Inl e \<Rightarrow> Inl e
      | Inr (Some d) \<Rightarrow> Inr (Some d)
      | Inr None \<Rightarrow> for_matches h ms)"

fun for_patterns ::
  "(nat \<Rightarrow> match \<Rightarrow> py_exception + string option) \<Rightarrow> nat \<Rightarrow> regex list \<Rightarrow> string
     \<Rightarrow> py_exception + string option" where
  "for_patterns h i [] text = Inr None"
| "for_patterns h i (p # ps) text =
     (case for_matches (h i) (re_findall p text True) of
        Inl e \<Rightarrow> Inl e
      | Inr (Some d) \<Rightarrow> Inr (Some d)
      | Inr None \<Rightarrow> for_patterns h (Suc i) ps text)"

definition pattern_outcome ::
  "(nat \<Rightarrow> match \<Rightarrow> py_exception + string option) \<Rightarrow> regex list \<Rightarrow> nat \<Rightarrow> string
     \<Rightarrow> py_exception + string option" where
  \<comment> \<open>what the inner loop yields for the pattern at index \<open>i\<close> alone\<close>
  "pattern_outcome h ps i text = for_matches (h i) (re_findall (ps ! i) text True)"

definition extract_issue_date_from_text_pure :: "string \<Rightarrow> py_exception + string option" where
  "extract_issue_date_from_text_pure text = for_patterns handle_match_pure 0 patterns_pure text"

definition extract_issue_date_from_text_simplified :: "string \<Rightarrow> py_exception + string option" where
  \<comment> \<open>the function of the simplified extractor has the same text as the pure one's\<close>
  "extract_issue_date_from_text_simplified text =
     for_patterns handle_match_pure 0 patterns_simplified text"

definition extract_issue_date_from_text_full :: "string \<Rightarrow> py_exception + string option" where
  "extract_issue_date_from_text_full text = for_patterns handle_match_full 0 patterns_full text"

section \<open>Images, files and the external capabilities\<close>

text \<open>
  An image is either what a stored file holds or a crop of an image by a box
  \<open>(x0, y0, x1, y1)\<close> (left, upper, right, lower); only its size is read by the extractors.
\<close>

datatype image = Picture nat nat nat | Crop image "nat \<times> nat \<times> nat \<times> nat"

fun image_size :: "image \<Rightarrow> nat \<times> nat" where
  "image_size (Picture ident w h) = (w, h)"
| "image_size (Crop img (x0, y0, x1, y1)) = (x1 - x0, y1 - y0)"

datatype stored = ImageFile image | OtherFile

text \<open>
  The record PassportEye returns: \<open>valid\<close>, \<open>mrz_code\<close> (\<open>None\<close> when the attribute
  is missing) and the dictionary of \<open>to_dict()\<close>.
\<close>

record mrz =
  valid :: bool
  mrz_code :: "string option"
  to_dict :: "(string \<times> string) list"

text \<open>
  \<open>Image.save\<close> can fail before it opens the target (an unknown extension) or after
  it has opened it for writing (an encoder error).
\<close>

datatype save_failure = SaveRefused py_exception | SaveAborted py_exception

text \<open>
  The capabilities are parameters of the model: \<open>read_mrz\<close> (PassportEye),
  \<open>image_to_string\<close> (Tesseract), the failures of \<open>Image.save\<close> and \<open>os.remove\<close>,
  and \<open>int_tenths n d\<close> for the floating-point expression \<open>int(n * 0.d)\<close> of the
  region boxes, which is not computed here.
\<close>

record env =
  read_mrz :: "(string \<rightharpoonup> stored) \<Rightarrow> string \<Rightarrow> py_exception + mrz option"
  image_to_string :: "image \<Rightarrow> string \<Rightarrow> py_exception + string"
  save_error :: "image \<Rightarrow> string \<Rightarrow> save_failure option"
  remove_error :: "string \<Rightarrow> py_exception option"
  int_tenths :: "nat \<Rightarrow> nat \<Rightarrow> nat"

datatype json =
    JNull | JBool bool | JNum rat | JStr string | JList "json list"
  | JObj "(string \<times> json) list"

text \<open>
  The world a run acts on: the files, the documents printed on standard output, and a
  trace of the capability calls and file operations in the order they happened.
\<close>

datatype event =
    MrzRead string
  | OcrCall image string
  | Opened string
  | Saved string image
  | Removed string

record world =
  files :: "string \<rightharpoonup> stored"
  stdout :: "json list"
  trace :: "event list"

definition log :: "event \<Rightarrow> world \<Rightarrow> world" where
  "log ev w = w\<lparr>trace := trace w @ [ev]\<rparr>"

definition call_read_mrz :: "env \<Rightarrow> world \<Rightarrow> string \<Rightarrow> (py_exception + mrz option) \<times> world" where
  "call_read_mrz E w path = (read_mrz E (files w) path, log (MrzRead path) w)"

definition call_image_to_string ::
  "env \<Rightarrow> world \<Rightarrow> image \<Rightarrow> string \<Rightarrow> (py_exception + string) \<times> world" where
  "call_image_to_string E w img config = (image_to_string E img config, log (OcrCall img config) w)"

definition image_open :: "world \<Rightarrow> string \<Rightarrow> (py_exception + image) \<times> world" where
  \<comment> \<open>\<open>Image.open(path)\<close>: raises on a missing file and on a file that is no image\<close>
  "image_open w path =
     (case files w path of
        Some (ImageFile img) \<Rightarrow> (Inr img, log (Opened path) w)
      | Some OtherFile \<Rightarrow>
          (Inl (PyException (''cannot identify image file '' @ py_repr path)), w)
      | None \<Rightarrow>
          (Inl (PyException (''[Errno 2] No such file or directory: '' @ py_repr path)), w))"

definition image_save :: "env \<Rightarrow> world \<Rightarrow> image \<Rightarrow> string \<Rightarrow> (py_exception + unit) \<times> world" where
  \<comment> \<open>\<open>img.save(path)\<close>: creates or overwrites the file. A save that fails after opening
      the target leaves an existing target truncated, no image any more, and removes a
      target it had created.\<close>
  "image_save E w img path =
     (case save_error E img path of
        Some (SaveRefused e) \<Rightarrow> (Inl e, w)
      | Some (SaveAborted e) \<Rightarrow>
          (Inl e, if files w path = None then w
                  else w\<lparr>files := (files w)(path \<mapsto> OtherFile)\<rparr>)
      | None \<Rightarrow> (Inr (), log (Saved path img) (w\<lparr>files := (files w)(path \<mapsto> ImageFile img)\<rparr>)))"

definition os_path_exists :: "world \<Rightarrow> string \<Rightarrow> bool" where
  "os_path_exists w path = (files w path \<noteq> None)"

definition os_remove :: "env \<Rightarrow> world \<Rightarrow> string \<Rightarrow> (py_exception + unit) \<times> world" where
  "os_remove E w path =
     (case remove_error E path of
        Some e \<Rightarrow> (Inl e, w)
      | None \<Rightarrow>
          if files w path = None
          then (Inl (PyException (''[Errno 2] No such file or directory: '' @ py_repr path)), w)
          else (Inr (), log (Removed path) (w\<lparr>files := (files w)(path := None)\<rparr>)))"

section \<open>Result dictionaries\<close>

fun dict_set :: "(string \<times> json) list \<Rightarrow> string \<Rightarrow> json \<Rightarrow> (string \<times> json) list" where
  "dict_set [] k v = [(k, v)]"
| "dict_set ((k', v') # d) k v = (if k' = k then (k, v) # d else (k', v') # dict_set d k v)"

definition dict_update :: "(string \<times> json) list \<Rightarrow> (string \<times> json) list \<Rightarrow> (string \<times> json) list" where
  "dict_update d kvs = foldl (\<lambda>d (k, v). dict_set d k v) d kvs"

definition dict_get :: "(string \<times> json) list \<Rightarrow> string \<Rightarrow> json option" where
  "dict_get d k = map_of d k"

definition get_or_empty :: "(string \<times> string) list \<Rightarrow> string \<Rightarrow> json" where
  \<comment> \<open>\<open>mrz_data.get(key, "")\<close>\<close>
  "get_or_empty d k = JStr (case map_of d k of Some v \<Rightarrow> v | None \<Rightarrow> [])"

definition json_opt_str :: "string option \<Rightarrow> json" where
  "json_opt_str x = (case x of Some s \<Rightarrow> JStr s | None \<Rightarrow> JNull)"

definition set_issue_date :: "(string \<times> json) list \<Rightarrow> string option \<Rightarrow> (string \<times> json) list" where
  \<comment> \<open>\<open>result["issue_date"] = d; result["extracted_data"]["issueDate"] = d\<close>; the key
      \<open>extracted_data\<close> holds a dictionary in every result these assignments reach\<close>
  "set_issue_date result d =
     (let r1 = dict_set result ''issue_date'' (json_opt_str d)
      in case dict_get r1 ''extracted_data'' of
           Some (JObj ed) \<Rightarrow> dict_set r1 ''extracted_data'' (JObj (dict_set ed ''issueDate'' (json_opt_str d)))
         | _ \<Rightarrow> r1)"

definition mrz_update :: "mrz \<Rightarrow> (string \<times> json) list \<Rightarrow> (string \<times> json) list" where
  \<comment> \<open>the block under \<open>if mrz is not None:\<close>, the same in the three extractors\<close>
  "mrz_update m result =
     (let mrz_data = to_dict m;
          confidence = (if valid m then 95 / 100 else 75 / 100);
          r1 = dict_update result
            [(''success'', JBool True),
             (''confidence'', JNum confidence),
             (''valid'', JBool (valid m)),
             (''raw_text'', JStr (case mrz_code m of Some c \<Rightarrow> c | None \<Rightarrow> [])),
             (''extracted_data'', JObj
               [(''documentType'', get_or_empty mrz_data ''type''),
                (''issuingCountry'', get_or_empty mrz_data ''country''),
                (''surname'', get_or_empty mrz_data ''surname''),
                (''givenNames'', get_or_empty mrz_data ''names''),
                (''passportNumber'', get_or_empty mrz_data ''number''),
                (''nationality'', get_or_empty mrz_data ''nationality''),
                (''dateOfBirth'', get_or_empty mrz_data ''date_of_birth''),
                (''gender'', get_or_empty mrz_data ''sex''),
                (''expiryDate'', get_or_empty mrz_data ''expiration_date''),
                (''personalNumber'', get_or_empty mrz_data ''personal_number'')])]
      in case mrz_code m of
           Some c \<Rightarrow> dict_set r1 ''mrz_lines'' (JList (map JStr (py_split (CHR 0x0A) (py_strip c))))
         | None \<Rightarrow> r1)"

section \<open>The MRZ stage\<close>

text \<open>
  The fallback of the pure and the simplified extractor, the block under
  \<open>if mrz is None:\<close>. Its \<open>try\<close> body stops at the first statement that raises and the
  \<open>except\<close> clause passes, so the value is \<open>mrz\<close> as it stands then, with the world.
  \<open>int(height * 0.75)\<close> is \<open>3 * height div 4\<close>: three quarters of an integer below
  \<open>2^51\<close> is computed exactly in double precision.
\<close>

definition temp_mrz_path :: "string \<Rightarrow> string" where
  "temp_mrz_path image_path = py_replace ''.png'' ''_temp_mrz.png'' image_path"

definition mrz_band :: "image \<Rightarrow> image" where
  "mrz_band img = (case image_size img of (width, height) \<Rightarrow>
     Crop img (0, (3 * height) div 4, width, height))"

definition mrz_cropped_fallback :: "env \<Rightarrow> world \<Rightarrow> string \<Rightarrow> mrz option \<times> world" where
  "mrz_cropped_fallback E w image_path =
     (case image_open w image_path of
        (Inl e, w1) \<Rightarrow> (None, w1)
      | (Inr img, w1) \<Rightarrow>
          (case image_save E w1 (mrz_band img) (temp_mrz_path image_path) of
             (Inl e, w2) \<Rightarrow> (None, w2)
           | (Inr u, w2) \<Rightarrow>
               (case call_read_mrz E w2 (temp_mrz_path image_path) of
                  (Inl e, w3) \<Rightarrow> (None, w3)
                | (Inr m, w3) \<Rightarrow>
                    if os_path_exists w3 (temp_mrz_path image_path)
                    then (m, snd (os_remove E w3 (temp_mrz_path image_path)))
                    else (m, w3))))"

section \<open>Region sampling and the arbiter (pure extractor)\<close>

definition psm6_config :: string where
  "psm6_config = ''--oem 3 --psm 6 -c tessedit_char_whitelist=ABCDEFGHIJKLMNOPQRSTUVWXYZabcdefghijklmnopqrstuvwxyz0123456789 .,:-/''"

definition psm8_config :: string where
  "psm8_config = ''--oem 3 --psm 8 -c tessedit_char_whitelist=ABCDEFGHIJKLMNOPQRSTUVWXYZabcdefghijklmnopqrstuvwxyz0123456789 .,:-/''"

definition psm7_config :: string where
  "psm7_config = ''--oem 3 --psm 7 -c tessedit_char_whitelist=ABCDEFGHIJKLMNOPQRSTUVWXYZabcdefghijklmnopqrstuvwxyz0123456789 .,:-/''"

record region_info =
  ri_region :: string
  ri_text :: string
  ri_date :: "string option"

definition json_of_region_info :: "region_info \<Rightarrow> json" where
  "json_of_region_info c =
     JObj [(''region'', JStr (ri_region c)), (''text'', JStr (ri_text c)),
           (''date'', json_opt_str (ri_date c))]"

definition regions :: "env \<Rightarrow> nat \<Rightarrow> nat \<Rightarrow> (string \<times> nat \<times> nat \<times> nat \<times> nat) list" where
  "regions E width height =
     [(''upper_middle'', (0, int_tenths E height 3, width, int_tenths E height 7)),
      (''left_side'', (0, int_tenths E height 4, int_tenths E width 6, int_tenths E height 8)),
      (''right_side'', (int_tenths E width 4, int_tenths E height 4, width, int_tenths E height 8))]"

text \<open>
  The loop over the regions. An exception of the OCR call or of the text extraction
  goes to \<open>except Exception: continue\<close>; otherwise the region's record is appended,
  in both branches of \<open>if issue_date:\<close>.
\<close>

fun regions_loop ::
  "env \<Rightarrow> image \<Rightarrow> (string \<times> nat \<times> nat \<times> nat \<times> nat) list \<Rightarrow> world
     \<Rightarrow> region_info list \<times> world" where
  "regions_loop E img [] w = ([], w)"
| "regions_loop E img ((region_name, box) # rest) w =
     (case call_image_to_string E w (Crop img box) psm6_config of
        (Inl e, w1) \<Rightarrow> regions_loop E img rest w1
      | (Inr txt, w1) \<Rightarrow>
          (case extract_issue_date_from_text_pure txt of
             Inl e \<Rightarrow> regions_loop E img rest w1
           | Inr issue_date \<Rightarrow>
               (case regions_loop E img rest w1 of
                  (infos, w2) \<Rightarrow>
                    (\<lparr>ri_region = region_name, ri_text = take 200 (py_strip txt),
                      ri_date = issue_date\<rparr> # infos, w2))))"

definition extract_issue_date_from_image_regions ::
  "env \<Rightarrow> world \<Rightarrow> string \<Rightarrow> region_info list \<times> world" where
  "extract_issue_date_from_image_regions E w image_path =
     (case image_open w image_path of
        (Inl e, w1) \<Rightarrow> ([], w1)
      | (Inr img, w1) \<Rightarrow>
          (case image_size img of (width, height) \<Rightarrow>
             regions_loop E img (regions E width height) w1))"

text \<open>
  The arbiter: the \<open>for\<close> loop that stops at the first candidate of region
  \<open>upper_middle\<close>, then \<open>issue_date_candidates[0]\<close> when the loop found none.
\<close>

fun first_upper_middle :: "region_info list \<Rightarrow> region_info option" where
  "first_upper_middle [] = None"
| "first_upper_middle (candidate # rest) =
     (if ri_region candidate = ''upper_middle'' then Some candidate
      else first_upper_middle rest)"

definition best_candidate :: "region_info list \<Rightarrow> region_info option" where
  \<comment> \<open>\<open>None\<close> when \<open>if issue_date_candidates:\<close> fails\<close>
  "best_candidate cands =
     (case cands of
        [] \<Rightarrow> None
      | c0 # rest \<Rightarrow>
          (case first_upper_middle cands of Some c \<Rightarrow> Some c | None \<Rightarrow> Some c0))"

definition arbitrated_issue_date :: "region_info list \<Rightarrow> string option" where
  \<comment> \<open>what \<open>result["issue_date"]\<close> holds after the selection; it starts as \<open>None\<close>\<close>
  "arbitrated_issue_date cands =
     (case best_candidate cands of Some c \<Rightarrow> ri_date c | None \<Rightarrow> None)"

section \<open>The three extractors\<close>

definition base_result :: "(string \<times> json) list" where
  "base_result =
     [(''success'', JBool False), (''confidence'', JNum 0), (''valid'', JBool False),
      (''raw_text'', JStr []), (''extracted_data'', JObj []), (''issue_date'', JNull)]"

definition with_mrz :: "mrz option \<Rightarrow> (string \<times> json) list \<Rightarrow> (string \<times> json) list" where
  "with_mrz m result = (case m of Some r \<Rightarrow> mrz_update r result | None \<Rightarrow> result)"

definition mrz_stage_with_fallback :: "env \<Rightarrow> world \<Rightarrow> string \<Rightarrow> (py_exception + mrz option) \<times> world" where
  \<comment> \<open>\<open>mrz = read_mrz(image_path)\<close> followed by the fallback; \<open>Inl\<close> when the first
      read raises, which nothing around it catches\<close>
  "mrz_stage_with_fallback E w image_path =
     (case call_read_mrz E w image_path of
        (Inl e, w1) \<Rightarrow> (Inl e, w1)
      | (Inr None, w1) \<Rightarrow> (case mrz_cropped_fallback E w1 image_path of (m, w2) \<Rightarrow> (Inr m, w2))
      | (Inr (Some r), w1) \<Rightarrow> (Inr (Some r), w1))"

definition extract_pure_passport_data :: "env \<Rightarrow> world \<Rightarrow> string \<Rightarrow> (string \<times> json) list \<times> world" where
  "extract_pure_passport_data E w image_path =
     (case mrz_stage_with_fallback E w image_path of
        (Inl e, w1) \<Rightarrow>
          ([(''success'', JBool False),
            (''error'', JStr (''Pure PassportEye extraction failed: '' @ exc_str e)),
            (''confidence'', JNum 0),
            (''extraction_method'', JStr ''pure_passporteye'')], w1)
      | (Inr m, w1) \<Rightarrow>
          (case extract_issue_date_from_image_regions E w1 image_path of
             (cands, w2) \<Rightarrow>
               (let r0 = base_result @
                      [(''issue_date_candidates'', JList []),
                       (''extraction_method'', JStr ''pure_passporteye''),
                       (''mrz_lines'', JList [])];
                    r1 = with_mrz m r0;
                    r2 = dict_set r1 ''issue_date_candidates'' (JList (map json_of_region_info cands))
                in (case best_candidate cands of
                      Some c \<Rightarrow> set_issue_date r2 (ri_date c)
                    | None \<Rightarrow> r2), w2)))"

text \<open>
  Whole-image sampling of the full and the simplified extractor: the loop over the
  three configurations, where a call that raises is skipped.
\<close>

fun configs_loop :: "env \<Rightarrow> image \<Rightarrow> string list \<Rightarrow> world \<Rightarrow> string list \<times> world" where
  "configs_loop E img [] w = ([], w)"
| "configs_loop E img (config # rest) w =
     (case call_image_to_string E w img config of
        (Inl e, w1) \<Rightarrow> configs_loop E img rest w1
      | (Inr txt, w1) \<Rightarrow>
          (case configs_loop E img rest w1 of (full_texts, w2) \<Rightarrow> (txt # full_texts, w2)))"

definition configs :: "string list" where
  "configs = [psm6_config, psm8_config, psm7_config]"

definition store_issue_date :: "string option \<Rightarrow> (string \<times> json) list \<Rightarrow> (string \<times> json) list" where
  \<comment> \<open>\<open>if issue_date: ...\<close>: \<open>None\<close> and the empty string are false\<close>
  "store_issue_date issue_date result =
     (case issue_date of
        Some d \<Rightarrow> if d \<noteq> [] then set_issue_date result (Some d) else result
      | None \<Rightarrow> result)"

definition ocr_stage_full :: "env \<Rightarrow> world \<Rightarrow> string \<Rightarrow> (string \<times> json) list \<Rightarrow> (string \<times> json) list \<times> world" where
  "ocr_stage_full E w image_path result =
     (case image_open w image_path of
        (Inl e, w1) \<Rightarrow> (dict_set result ''ocr_error'' (JStr (exc_str e)), w1)
      | (Inr img, w1) \<Rightarrow>
          (case configs_loop E img configs w1 of
             (full_texts, w2) \<Rightarrow>
               (let full_text = py_join [CHR 0x0A] full_texts;
                    r1 = dict_set result ''full_text_ocr'' (JStr full_text)
                in case extract_issue_date_from_text_full full_text of
                     Inl e \<Rightarrow> (dict_set r1 ''ocr_error'' (JStr (exc_str e)), w2)
                   | Inr issue_date \<Rightarrow> (store_issue_date issue_date r1, w2))))"

definition extract_full_passport_data :: "env \<Rightarrow> world \<Rightarrow> string \<Rightarrow> (string \<times> json) list \<times> world" where
  "extract_full_passport_data E w image_path =
     (case call_read_mrz E w image_path of
        (Inl e, w1) \<Rightarrow>
          ([(''success'', JBool False),
            (''error'', JStr (''Full passport extraction failed: '' @ exc_str e)),
            (''confidence'', JNum 0)], w1)
      | (Inr m, w1) \<Rightarrow>
          ocr_stage_full E w1 image_path
            (with_mrz m (base_result @ [(''full_text_ocr'', JStr []), (''mrz_lines'', JList [])])))"

definition ocr_stage_simplified :: "env \<Rightarrow> world \<Rightarrow> string \<Rightarrow> (string \<times> json) list \<Rightarrow> (string \<times> json) list \<times> world" where
  "ocr_stage_simplified E w image_path result =
     (case image_open w image_path of
        (Inl e, w1) \<Rightarrow> (dict_set result ''ocr_error'' (JStr (exc_str e)), w1)
      | (Inr img, w1) \<Rightarrow>
          (case configs_loop E img configs w1 of
             (full_texts, w2) \<Rightarrow>
               (let combined_text = py_join [CHR 0x0A] full_texts
                in case extract_issue_date_from_text_simplified combined_text of
                     Inl e \<Rightarrow> (dict_set result ''ocr_error'' (JStr (exc_str e)), w2)
                   | Inr issue_date \<Rightarrow> (store_issue_date issue_date result, w2))))"

definition extract_simplified_passport_data :: "env \<Rightarrow> world \<Rightarrow> string \<Rightarrow> (string \<times> json) list \<times> world" where
  "extract_simplified_passport_data E w image_path =
     (case mrz_stage_with_fallback E w image_path of
        (Inl e, w1) \<Rightarrow>
          ([(''success'', JBool False),
            (''error'', JStr (''Simplified extraction failed: '' @ exc_str e)),
            (''confidence'', JNum 0),
            (''extraction_method'', JStr ''simplified_hybrid'')], w1)
      | (Inr m, w1) \<Rightarrow>
          ocr_stage_simplified E w1 image_path
            (with_mrz m (base_result @
               [(''extraction_method'', JStr ''simplified_hybrid''), (''mrz_lines'', JList [])])))"

section \<open>The command line\<close>

text \<open>
  \<open>main\<close> of each script on \<open>sys.argv\<close>: the exit code and the world after the run.
  \<open>sys.exit(1)\<close> ends the run with code 1; a run that reaches the end of \<open>main\<close>
  ends with code 0.
\<close>

definition print_json :: "json \<Rightarrow> world \<Rightarrow> world" where
  "print_json j w = w\<lparr>stdout := stdout w @ [j]\<rparr>"

definition main_with ::
  "string \<Rightarrow> (env \<Rightarrow> world \<Rightarrow> string \<Rightarrow> (string \<times> json) list \<times> world)
     \<Rightarrow> env \<Rightarrow> world \<Rightarrow> string list \<Rightarrow> nat \<times> world" where
  "main_with script extract E w argv =
     (if length argv \<noteq> 2
      then (1, print_json (JObj [(''success'', JBool False),
              (''error'', JStr (''Usage: python3 '' @ script @ '' <image_path>''))]) w)
      else let image_path = argv ! 1 in
        if \<not> os_path_exists w image_path
        then (1, print_json (JObj [(''success'', JBool False),
                (''error'', JStr (''Image file not found: '' @ image_path))]) w)
        else (case extract E w image_path of
                (result, w1) \<Rightarrow> (0, print_json (JObj result) w1)))"

definition main_pure :: "env \<Rightarrow> world \<Rightarrow> string list \<Rightarrow> nat \<times> world" where
  "main_pure = main_with ''passporteye_pure_extractor.py'' extract_pure_passport_data"

definition main_full :: "env \<Rightarrow> world \<Rightarrow> string list \<Rightarrow> nat \<times> world" where
  "main_full = main_with ''passporteye_full_extractor.py'' extract_full_passport_data"

definition main_simplified :: "env \<Rightarrow> world \<Rightarrow> string list \<Rightarrow> nat \<times> world" where
  "main_simplified = main_with ''passporteye_simplified_extractor.py'' extract_simplified_passport_data"

section \<open>Concrete runs\<close>

text \<open>
  A 100 by 100 page stored as \<open>scan.png\<close>, and capabilities to run the extractors on:
  \<open>tenths\<close> agrees with \<open>int(n * 0.d)\<close> at \<open>n = 100\<close>, where the products are the
  exact tens.
\<close>

definition page :: image where
  "page = Picture 0 100 100"

definition tenths :: "nat \<Rightarrow> nat \<Rightarrow> nat" where
  "tenths n d = n * d div 10"

definition world_with :: "string \<Rightarrow> stored \<Rightarrow> world" where
  "world_with path content = \<lparr>files = [path \<mapsto> content], stdout = [], trace = []\<rparr>"

definition env_of ::
  "((string \<rightharpoonup> stored) \<Rightarrow> string \<Rightarrow> py_exception + mrz option)
     \<Rightarrow> (image \<Rightarrow> string \<Rightarrow> py_exception + string) \<Rightarrow> env" where
  "env_of mrz_reader ocr =
     \<lparr>read_mrz = mrz_reader, image_to_string = ocr,
      save_error = (\<lambda>img path. None), remove_error = (\<lambda>path. None), int_tenths = tenths\<rparr>"

definition no_mrz :: "(string \<rightharpoonup> stored) \<Rightarrow> string \<Rightarrow> py_exception + mrz option" where
  "no_mrz fs path = Inr None"

definition retry_raises :: "(string \<rightharpoonup> stored) \<Rightarrow> string \<Rightarrow> py_exception + mrz option" where
  \<comment> \<open>no MRZ on the page, an exception on the cropped band\<close>
  "retry_raises fs path =
     (if path = ''scan.png'' then Inr None else Inl (PyException ''mrz detection failed''))"

definition mrz_on_band :: "(string \<rightharpoonup> stored) \<Rightarrow> string \<Rightarrow> py_exception + mrz option" where
  \<comment> \<open>no MRZ found on the whole page, a valid one on the cropped band\<close>
  "mrz_on_band fs path =
     (if path = ''scan_temp_mrz.png''
      then Inr (Some \<lparr>valid = True, mrz_code = None, to_dict = []\<rparr>) else Inr None)"

definition ocr_blank :: "image \<Rightarrow> string \<Rightarrow> py_exception + string" where
  "ocr_blank img config = Inr []"

definition ocr_unavailable :: "image \<Rightarrow> string \<Rightarrow> py_exception + string" where
  "ocr_unavailable img config = Inl (PyException ''tesseract is not installed'')"

definition ocr_year_only :: "image \<Rightarrow> string \<Rightarrow> py_exception + string" where
  "ocr_year_only img config = Inr ''Gsseryserr22''"


definition ocr_year_only_psm6 :: "image \<Rightarrow> string \<Rightarrow> py_exception + string" where
  \<comment> \<open>the first configuration reads the corrupted date, the other two raise\<close>
  "ocr_year_only_psm6 img config =
     (if config = psm6_config then Inr ''Gsseryserr22'' else Inl (PyException ''ocr failed''))"

definition ocr_middle_raises :: "image \<Rightarrow> string \<Rightarrow> py_exception + string" where
  "ocr_middle_raises img config =
     (if img = Crop page (0, 30, 100, 70) \<or> config = psm8_config
      then Inl (PyException ''ocr failed'') else Inr ''03 SEP / SEPT 22'')"

section \<open>Facts about the result dictionaries\<close>

lemma dict_get_dict_set:
  "dict_get (dict_set d k v) k' = (if k' = k then Some v else dict_get d k')"
  by (induction d) (auto simp: dict_get_def)

lemma dict_get_Nil: "dict_get [] k = None"
  by (simp add: dict_get_def)

lemma dict_get_Cons: "dict_get ((k, v) # d) k' = (if k = k' then Some v else dict_get d k')"
  by (simp add: dict_get_def)

lemma dict_get_base:
  "dict_get (base_result @ d) ''success'' = Some (JBool False)"
  "dict_get (base_result @ d) ''confidence'' = Some (JNum 0)"
  "dict_get (base_result @ d) ''issue_date'' = Some JNull"
  by (simp_all add: base_result_def dict_get_Cons)

lemma dict_get_set_issue_date:
  "dict_get (set_issue_date r d) ''issue_date'' = Some (json_opt_str d)"
  by (simp add: set_issue_date_def Let_def dict_get_dict_set split: option.split json.split)

lemma dict_get_set_issue_date_other:
  "k \<noteq> ''issue_date'' \<Longrightarrow> k \<noteq> ''extracted_data'' \<Longrightarrow>
   dict_get (set_issue_date r d) k = dict_get r k"
  by (simp add: set_issue_date_def Let_def dict_get_dict_set split: option.split json.split)

lemma dict_get_store_issue_date_other:
  "k \<noteq> ''issue_date'' \<Longrightarrow> k \<noteq> ''extracted_data'' \<Longrightarrow>
   dict_get (store_issue_date x r) k = dict_get r k"
  by (simp add: store_issue_date_def dict_get_set_issue_date_other split: option.split)

lemma dict_get_mrz_update_issue_date:
  "dict_get (mrz_update m r) ''issue_date'' = dict_get r ''issue_date''"
  by (simp add: mrz_update_def Let_def dict_update_def dict_get_dict_set split: option.split)

lemma dict_get_mrz_update_success:
  "dict_get (mrz_update m r) ''success'' = Some (JBool True)"
  by (simp add: mrz_update_def Let_def dict_update_def dict_get_dict_set split: option.split)

lemma dict_get_mrz_update_confidence:
  "dict_get (mrz_update m r) ''confidence'' = Some (JNum (if valid m then 95 / 100 else 75 / 100))"
  by (simp add: mrz_update_def Let_def dict_update_def dict_get_dict_set split: option.split)

lemma dict_get_mrz_update_ocr_error:
  "dict_get (mrz_update m r) ''ocr_error'' = dict_get r ''ocr_error''"
  by (simp add: mrz_update_def Let_def dict_update_def dict_get_dict_set split: option.split)

lemma with_mrz_success:
  "dict_get r ''success'' = Some (JBool False) \<Longrightarrow>
   dict_get (with_mrz m r) ''success'' = Some (JBool (m \<noteq> None))"
  by (cases m) (simp_all add: with_mrz_def dict_get_mrz_update_success)

lemma with_mrz_confidence:
  "dict_get r ''confidence'' = Some (JNum 0) \<Longrightarrow>
   dict_get (with_mrz m r) ''confidence'' =
     Some (JNum (case m of Some r \<Rightarrow> if valid r then 95 / 100 else 75 / 100 | None \<Rightarrow> 0))"
  by (cases m) (simp_all add: with_mrz_def dict_get_mrz_update_confidence)

lemma ocr_stage_full_keeps:
  "k \<noteq> ''issue_date'' \<Longrightarrow> k \<noteq> ''extracted_data'' \<Longrightarrow> k \<noteq> ''ocr_error'' \<Longrightarrow>
   k \<noteq> ''full_text_ocr'' \<Longrightarrow>
   dict_get (fst (ocr_stage_full E w p r)) k = dict_get r k"
  by (simp add: ocr_stage_full_def Let_def dict_get_dict_set dict_get_store_issue_date_other
      split: prod.split sum.split)

lemma ocr_stage_simplified_keeps:
  "k \<noteq> ''issue_date'' \<Longrightarrow> k \<noteq> ''extracted_data'' \<Longrightarrow> k \<noteq> ''ocr_error'' \<Longrightarrow>
   dict_get (fst (ocr_stage_simplified E w p r)) k = dict_get r k"
  by (simp add: ocr_stage_simplified_def Let_def dict_get_dict_set dict_get_store_issue_date_other
      split: prod.split sum.split)

lemma full_success:
  "dict_get (fst (extract_full_passport_data E w p)) ''success'' =
     Some (JBool (\<exists>m. read_mrz E (files w) p = Inr (Some m)))"
  by (auto simp: extract_full_passport_data_def call_read_mrz_def ocr_stage_full_keeps
      with_mrz_success dict_get_base dict_get_Cons dict_get_Nil split: sum.split)

lemma full_confidence:
  "dict_get (fst (extract_full_passport_data E w p)) ''confidence'' =
     Some (JNum (case read_mrz E (files w) p of
                   Inr (Some m) \<Rightarrow> if valid m then 95 / 100 else 75 / 100
                 | _ \<Rightarrow> 0))"
  by (auto simp: extract_full_passport_data_def call_read_mrz_def ocr_stage_full_keeps
      with_mrz_confidence dict_get_base dict_get_Cons dict_get_Nil split: sum.split option.split)

lemma pure_success:
  "dict_get (fst (extract_pure_passport_data E w p)) ''success'' =
     Some (JBool (\<exists>m. fst (mrz_stage_with_fallback E w p) = Inr (Some m)))"
  by (auto simp: extract_pure_passport_data_def Let_def dict_get_dict_set
      dict_get_set_issue_date_other with_mrz_success dict_get_base dict_get_Cons dict_get_Nil
      split: sum.split prod.split option.split)

lemma pure_confidence:
  "dict_get (fst (extract_pure_passport_data E w p)) ''confidence'' =
     Some (JNum (case fst (mrz_stage_with_fallback E w p) of
                   Inr (Some m) \<Rightarrow> if valid m then 95 / 100 else 75 / 100
                 | _ \<Rightarrow> 0))"
  by (auto simp: extract_pure_passport_data_def Let_def dict_get_dict_set
      dict_get_set_issue_date_other with_mrz_confidence dict_get_base dict_get_Cons dict_get_Nil
      split: sum.split prod.split option.split)

lemma simplified_success:
  "dict_get (fst (extract_simplified_passport_data E w p)) ''success'' =
     Some (JBool (\<exists>m. fst (mrz_stage_with_fallback E w p) = Inr (Some m)))"
  by (auto simp: extract_simplified_passport_data_def ocr_stage_simplified_keeps
      with_mrz_success dict_get_base dict_get_Cons dict_get_Nil split: sum.split prod.split)

lemma simplified_confidence:
  "dict_get (fst (extract_simplified_passport_data E w p)) ''confidence'' =
     Some (JNum (case fst (mrz_stage_with_fallback E w p) of
                   Inr (Some m) \<Rightarrow> if valid m then 95 / 100 else 75 / 100
                 | _ \<Rightarrow> 0))"
  by (auto simp: extract_simplified_passport_data_def ocr_stage_simplified_keeps
      with_mrz_confidence dict_get_base dict_get_Cons dict_get_Nil split: sum.split prod.split option.split)

lemma pure_issue_date:
  "dict_get (fst (extract_pure_passport_data E w p)) ''issue_date'' =
     (case mrz_stage_with_fallback E w p of
        (Inl e, w1) \<Rightarrow> None
      | (Inr m, w1) \<Rightarrow>
          Some (json_opt_str (arbitrated_issue_date
                  (fst (extract_issue_date_from_image_regions E w1 p)))))"
  by (auto simp: extract_pure_passport_data_def Let_def dict_get_dict_set
      dict_get_set_issue_date arbitrated_issue_date_def with_mrz_def
      dict_get_mrz_update_issue_date dict_get_base dict_get_Cons dict_get_Nil json_opt_str_def
      split: sum.split prod.split option.split)

lemma first_upper_middle_find:
  "first_upper_middle cands = find (\<lambda>c. ri_region c = ''upper_middle'') cands"
  by (induction cands) simp_all

lemmas run_defs =
  extract_pure_passport_data_def extract_full_passport_data_def
  extract_simplified_passport_data_def mrz_stage_with_fallback_def mrz_cropped_fallback_def
  call_read_mrz_def call_image_to_string_def image_open_def image_save_def os_remove_def
  os_path_exists_def log_def env_of_def world_with_def no_mrz_def retry_raises_def
  extract_issue_date_from_image_regions_def regions_def tenths_def page_def mrz_band_def
  temp_mrz_path_def py_replace_def ocr_stage_full_def ocr_stage_simplified_def configs_def
  with_mrz_def base_result_def store_issue_date_def set_issue_date_def dict_get_def
  json_opt_str_def best_candidate_def Let_def

section \<open>Two-digit years\<close>

lemma two_digit_year_digits:
  "is_digit a \<Longrightarrow> is_digit b \<Longrightarrow>
   two_digit_year t [a, b] =
     Inr ((if 10 * digit_val a + digit_val b \<le> t then ''20'' else ''19'') @ [a, b])"
  by (simp add: two_digit_year_def py_int_def)

lemma full_bilingual_40: "extract_issue_date_from_text_full ''03 SEP / SEPT 40'' = Inr (Some ''1940-09-03'')"
  by code_simp

lemma pure_bilingual_40: "extract_issue_date_from_text_pure ''03 SEP / SEPT 40'' = Inr (Some ''2040-09-03'')"
  by code_simp

lemma pure_plain_22: "extract_issue_date_from_text_pure ''01 JAN 22'' = Inr (Some ''JAN-09-03'')"
  by code_simp

lemma full_plain_22: "extract_issue_date_from_text_full ''01 JAN 22'' = Inr (Some ''2022-01-01'')"
  by code_simp

text \<open>
  C1. The claim: every two-digit year is windowed at 50/51 (at most 50 gives 20xx, from
  51 on 19xx), in every pattern tier and every extractor. The runs below show where the
  code departs from it. The full extractor windows the month-name tiers at 30/31: the
  bilingual date \<open>03 SEP / SEPT 40\<close> becomes 1940 there and 2040 in the pure extractor.
  The pure (and simplified) extractor sends the patterns at index 2 and 3 to the branch
  of the fragmented patterns, which reads the month token as the year: \<open>01 JAN 22\<close>
  yields \<open>JAN-09-03\<close> there, and \<open>2022-01-01\<close> in the full extractor.
\<close>

theorem two_digit_window_differs_across_variants:
  "extract_issue_date_from_text_full ''03 SEP / SEPT 40'' = Inr (Some ''1940-09-03'')
   \<and> extract_issue_date_from_text_pure ''03 SEP / SEPT 40'' = Inr (Some ''2040-09-03'')
   \<and> extract_issue_date_from_text_pure ''01 JAN 22'' = Inr (Some ''JAN-09-03'')
   \<and> extract_issue_date_from_text_full ''01 JAN 22'' = Inr (Some ''2022-01-01'')"
  using full_bilingual_40 pure_bilingual_40 pure_plain_22 full_plain_22 by simp

section \<open>What the patterns capture\<close>

text \<open>
  Facts about the matcher that hold for every text: a match consumes a prefix, groupless
  pieces of a sequence contribute no capture, and each group captures exactly what its
  body consumed. From them, the shape of every match of the catalog's patterns.
\<close>

lemma lower_not_digit: "l \<in> set ascii_lowercase \<Longrightarrow> l \<notin> set digits"
  by (auto simp: ascii_lowercase_def digits_def)

lemma upper_not_digit: "u \<in> set ascii_uppercase \<Longrightarrow> u \<notin> set digits"
  by (auto simp: ascii_uppercase_def digits_def)

lemma chr_lower_digit: "chr_lower c \<in> set digits \<Longrightarrow> c \<in> set digits"
proof (cases "map_of (zip ascii_uppercase ascii_lowercase) c")
  case None
  then show "chr_lower c \<in> set digits \<Longrightarrow> c \<in> set digits" by (simp add: chr_lower_def)
next
  case (Some l)
  then have "l \<in> set ascii_lowercase" by (meson map_of_SomeD set_zip_rightD)
  then show "chr_lower c \<in> set digits \<Longrightarrow> c \<in> set digits"
    using Some lower_not_digit by (simp add: chr_lower_def)
qed

lemma chr_upper_digit: "chr_upper c \<in> set digits \<Longrightarrow> c \<in> set digits"
proof (cases "map_of (zip ascii_lowercase ascii_uppercase) c")
  case None
  then show "chr_upper c \<in> set digits \<Longrightarrow> c \<in> set digits" by (simp add: chr_upper_def)
next
  case (Some u)
  then have "u \<in> set ascii_uppercase" by (meson map_of_SomeD set_zip_rightD)
  then show "chr_upper c \<in> set digits \<Longrightarrow> c \<in> set digits"
    using Some upper_not_digit by (simp add: chr_upper_def)
qed

lemma cset_has_digits: "cset_has ic digits c \<Longrightarrow> is_digit c"
  by (auto simp: cset_has_def is_digit_def split: if_splits dest: chr_lower_digit chr_upper_digit)

lemma rep_matches_prefix:
  "r \<in> set (rep_matches ic cs lo hi s) \<Longrightarrow>
   \<exists>pre. s = pre @ r \<and> lo \<le> length pre \<and> (\<forall>h. hi = Some h \<longrightarrow> length pre \<le> h)
         \<and> (\<forall>c\<in>set pre. cset_has ic cs c)"
proof (induction s arbitrary: lo hi)
  case Nil
  then show ?case by (auto split: if_splits)
next
  case (Cons c s)
  from Cons.prems consider
      (take) "hi \<noteq> Some 0" "cset_has ic cs c"
        "r \<in> set (rep_matches ic cs (lo - 1) (map_option (\<lambda>h. h - 1) hi) s)"
    | (stop) "lo = 0" "r = c # s"
    by (auto split: if_splits)
  then show ?case
  proof cases
    case take
    from Cons.IH [OF take(3)] obtain pre where pre:
      "s = pre @ r" "lo - 1 \<le> length pre"
      "\<forall>h. map_option (\<lambda>h. h - 1) hi = Some h \<longrightarrow> length pre \<le> h"
      "\<forall>c\<in>set pre. cset_has ic cs c"
      by blast
    have "c # s = (c # pre) @ r" using pre(1) by simp
    moreover have "lo \<le> length (c # pre)" using pre(2) by simp
    moreover have "\<forall>h. hi = Some h \<longrightarrow> length (c # pre) \<le> h"
      using pre(3) take(1) by auto
    moreover have "\<forall>x\<in>set (c # pre). cset_has ic cs x" using pre(4) take(2) by simp
    ultimately show ?thesis by blast
  next
    case stop
    then show ?thesis by auto
  qed
qed

lemma matches_Cat_elem:
  "(r, g) \<in> set (matches ic (Cat a b) s) \<Longrightarrow>
   \<exists>r1 g1 g2. (r1, g1) \<in> set (matches ic a s) \<and> (r, g2) \<in> set (matches ic b r1) \<and> g = g1 @ g2"
  by auto

lemma matches_groupless:
  "ngroups p = 0 \<Longrightarrow> (r, g) \<in> set (matches ic p s) \<Longrightarrow> g = []"
proof (induction p arbitrary: s r g)
  case Eps
  then show ?case by simp
next
  case (Rep cs lo hi)
  then show ?case by auto
next
  case (Cat a b)
  from matches_Cat_elem [OF Cat.prems(2)] obtain r1 g1 g2 where
    "(r1, g1) \<in> set (matches ic a s)" "(r, g2) \<in> set (matches ic b r1)" "g = g1 @ g2"
    by blast
  moreover have "ngroups a = 0" "ngroups b = 0" using Cat.prems(1) by simp_all
  ultimately show ?case using Cat.IH by blast
next
  case (Alt a b)
  have "ngroups a = 0" "ngroups b = 0" using Alt.prems(1) by simp_all
  moreover have "(r, g) \<in> set (matches ic a s) \<or> (r, g) \<in> set (matches ic b s)"
    using Alt.prems(2) by simp
  ultimately show ?case using Alt.IH by blast
next
  case (Group a)
  then show ?case by simp
qed

lemma matches_Cat_groupless:
  "ngroups a = 0 \<Longrightarrow> (r, g) \<in> set (matches ic (Cat a b) s) \<Longrightarrow>
   \<exists>s'. (r, g) \<in> set (matches ic b s')"
proof -
  assume a: "ngroups a = 0" and m: "(r, g) \<in> set (matches ic (Cat a b) s)"
  from matches_Cat_elem [OF m] obtain r1 g1 g2 where
    e: "(r1, g1) \<in> set (matches ic a s)" "(r, g2) \<in> set (matches ic b r1)" "g = g1 @ g2"
    by blast
  from matches_groupless [OF a e(1)] e(3) have "g = g2" by simp
  with e(2) show ?thesis by blast
qed

lemma seq_Cons: "ys \<noteq> [] \<Longrightarrow> seq (x # ys) = Cat x (seq ys)"
  by (cases ys) simp_all

lemma matches_seq_last:
  "\<forall>x\<in>set xs. ngroups x = 0 \<Longrightarrow> (r, g) \<in> set (matches ic (seq (xs @ [last_rx])) s) \<Longrightarrow>
   \<exists>s'. (r, g) \<in> set (matches ic last_rx s')"
proof (induction xs arbitrary: s)
  case Nil
  then show ?case by auto
next
  case (Cons x xs)
  have "seq ((x # xs) @ [last_rx]) = Cat x (seq (xs @ [last_rx]))"
    by (simp add: seq_Cons)
  with Cons.prems matches_Cat_groupless [of x r g ic "seq (xs @ [last_rx])" s]
  obtain s' where "(r, g) \<in> set (matches ic (seq (xs @ [last_rx])) s')" by auto
  with Cons.IH Cons.prems(1) show ?case by auto
qed

lemma two_digit_group:
  "(r, g) \<in> set (matches ic (Group (Rep digits 2 (Some 2))) s) \<Longrightarrow>
   \<exists>a b. g = [[a, b]] \<and> is_digit a \<and> is_digit b"
proof -
  assume "(r, g) \<in> set (matches ic (Group (Rep digits 2 (Some 2))) s)"
  then have r: "r \<in> set (rep_matches ic digits 2 (Some 2) s)"
    and g: "g = [take (length s - length r) s]"
    by auto
  from rep_matches_prefix [OF r] obtain pre where pre:
    "s = pre @ r" "2 \<le> length pre" "length pre \<le> 2" "\<forall>c\<in>set pre. cset_has ic digits c"
    by auto
  then have "length pre = Suc (Suc 0)" by simp
  then obtain a b where ab: "pre = [a, b]"
    by (auto simp: length_Suc_conv)
  with pre g have "g = [[a, b]]" by simp
  moreover have "is_digit a" "is_digit b" using pre(4) ab cset_has_digits by auto
  ultimately show ?thesis by blast
qed

lemma scan_heads:
  "(w, g) \<in> set (scan ic p s) \<Longrightarrow> \<exists>s' r. (r, g) \<in> set (matches ic p s')"
proof (induction ic p s rule: scan.induct)
  case (1 ic p)
  then show ?case by (auto split: list.splits) (metis list.set_intros(1))
next
  case (2 ic p c t)
  show ?case
  proof (cases "matches ic p (c # t)")
    case Nil
    with 2 show ?thesis by auto
  next
    case (Cons m ms)
    obtain r0 g0 where m: "m = (r0, g0)" by (cases m)
    from "2.prems" Cons m consider
        "g = g0"
      | "length r0 \<le> length t" "(w, g) \<in> set (scan ic p r0)"
      | "\<not> length r0 \<le> length t" "(w, g) \<in> set (scan ic p t)"
      by (auto split: if_splits)
    then show ?thesis
    proof cases
      case 1
      then show ?thesis using Cons m by (metis list.set_intros(1))
    next
      case 2
      then show ?thesis using "2.IH"(2) Cons m by blast
    next
      case 3
      then show ?thesis using "2.IH"(3) Cons m by blast
    qed
  qed
qed

lemma matches_suffix: "(r, g) \<in> set (matches ic p s) \<Longrightarrow> \<exists>pre. s = pre @ r"
proof (induction p arbitrary: s r g)
  case Eps
  then show ?case by simp
next
  case (Rep cs lo hi)
  then have "r \<in> set (rep_matches ic cs lo hi s)" by auto
  from rep_matches_prefix [OF this] show ?case by blast
next
  case (Cat a b)
  from matches_Cat_elem [OF Cat.prems] obtain r1 g1 g2 where
    e: "(r1, g1) \<in> set (matches ic a s)" "(r, g2) \<in> set (matches ic b r1)"
    by blast
  from Cat.IH(1) [OF e(1)] obtain p1 where "s = p1 @ r1" by blast
  moreover from Cat.IH(2) [OF e(2)] obtain p2 where "r1 = p2 @ r" by blast
  ultimately have "s = (p1 @ p2) @ r" by simp
  then show ?case by blast
next
  case (Alt a b)
  then have "(r, g) \<in> set (matches ic a s) \<or> (r, g) \<in> set (matches ic b s)" by simp
  with Alt.IH show ?case by blast
next
  case (Group a)
  then obtain g' where "(r, g') \<in> set (matches ic a s)" by auto
  with Group.IH show ?case by blast
qed

lemma group_only:
  "ngroups a = 0 \<Longrightarrow> (r, g) \<in> set (matches ic (Group a) s) \<Longrightarrow>
   \<exists>pre. s = pre @ r \<and> (r, []) \<in> set (matches ic a s) \<and> g = [pre]"
proof -
  assume ng: "ngroups a = 0" and m: "(r, g) \<in> set (matches ic (Group a) s)"
  then obtain g' where g': "(r, g') \<in> set (matches ic a s)"
    and g: "g = take (length s - length r) s # g'"
    by auto
  from matches_groupless [OF ng g'] have e: "g' = []" .
  from matches_suffix [OF g'] obtain pre where "s = pre @ r" by blast
  with g g' e show ?thesis by auto
qed

lemma seq_group_step:
  "rest \<noteq> [] \<Longrightarrow> ngroups a = 0 \<Longrightarrow>
   (r, g) \<in> set (matches ic (seq (Group a # rest)) s) \<Longrightarrow>
   \<exists>pre r1 g2. s = pre @ r1 \<and> (r1, []) \<in> set (matches ic a s) \<and> g = pre # g2
                \<and> (r, g2) \<in> set (matches ic (seq rest) r1)"
proof -
  assume ne: "rest \<noteq> []" and ng: "ngroups a = 0"
    and m: "(r, g) \<in> set (matches ic (seq (Group a # rest)) s)"
  from ne have "seq (Group a # rest) = Cat (Group a) (seq rest)" by (rule seq_Cons)
  with m have "(r, g) \<in> set (matches ic (Cat (Group a) (seq rest)) s)" by simp
  from matches_Cat_elem [OF this] obtain r1 g1 g2 where
    e: "(r1, g1) \<in> set (matches ic (Group a) s)" "(r, g2) \<in> set (matches ic (seq rest) r1)"
      "g = g1 @ g2"
    by blast
  from group_only [OF ng e(1)] obtain pre where
    "s = pre @ r1" "(r1, []) \<in> set (matches ic a s)" "g1 = [pre]"
    by blast
  with e show ?thesis by auto
qed

lemma seq_skips:
  "rest \<noteq> [] \<Longrightarrow> \<forall>x\<in>set xs. ngroups x = 0 \<Longrightarrow>
   (r, g) \<in> set (matches ic (seq (xs @ rest)) s) \<Longrightarrow>
   \<exists>r1. (r, g) \<in> set (matches ic (seq rest) r1)"
proof (induction xs arbitrary: s)
  case Nil
  then show ?case by auto
next
  case (Cons x xs)
  have "seq ((x # xs) @ rest) = Cat x (seq (xs @ rest))"
    using Cons.prems(1) by (simp add: seq_Cons)
  with Cons.prems matches_Cat_groupless [of x r g ic "seq (xs @ rest)" s]
  obtain s' where "(r, g) \<in> set (matches ic (seq (xs @ rest)) s')" by auto
  with Cons.IH Cons.prems(1,2) show ?case by auto
qed

lemma rep_consumed:
  "(r, g) \<in> set (matches ic (Rep cs lo hi) (pre @ r)) \<Longrightarrow>
   lo \<le> length pre \<and> (\<forall>h. hi = Some h \<longrightarrow> length pre \<le> h) \<and> (\<forall>c\<in>set pre. cset_has ic cs c)"
proof -
  assume "(r, g) \<in> set (matches ic (Rep cs lo hi) (pre @ r))"
  then have "r \<in> set (rep_matches ic cs lo hi (pre @ r))" by auto
  from rep_matches_prefix [OF this] obtain pre' where
    p: "pre @ r = pre' @ r" "lo \<le> length pre'" "\<forall>h. hi = Some h \<longrightarrow> length pre' \<le> h"
      "\<forall>c\<in>set pre'. cset_has ic cs c"
    by blast
  from p(1) have "pre = pre'" by simp
  with p show ?thesis by simp
qed

lemma lit_Cons2: "lit (x # y # w) = Cat (chr x) (lit (y # w))"
  by (simp add: lit_def)

lemma chr_matches:
  "(r, g) \<in> set (matches ic (chr x) s) \<Longrightarrow> \<exists>c. s = c # r \<and> cset_has ic [x] c"
proof -
  assume "(r, g) \<in> set (matches ic (chr x) s)"
  then have m: "(r, g) \<in> set (matches ic (Rep [x] 1 (Some 1)) s)" by (simp add: chr_def)
  from matches_suffix [OF m] obtain pre where s: "s = pre @ r" by blast
  from rep_consumed [OF m [unfolded s]] have
    "1 \<le> length pre" "length pre \<le> 1" "\<forall>c\<in>set pre. cset_has ic [x] c"
    by auto
  then obtain c where "pre = [c]" "cset_has ic [x] c"
    by (cases pre) auto
  with s show ?thesis by auto
qed

lemma lit_matches:
  "(r, g) \<in> set (matches ic (lit w) s) \<Longrightarrow>
   \<exists>pre. s = pre @ r \<and> list_all2 (\<lambda>c x. cset_has ic [x] c) pre w"
proof (induction w arbitrary: s g r rule: induct_list012)
  case 1
  then show ?case by (simp add: lit_def)
next
  case (2 x)
  then have "(r, g) \<in> set (matches ic (chr x) s)" by (simp add: lit_def)
  from chr_matches [OF this] show ?case by auto
next
  case (3 x y w)
  from "3.prems" have "(r, g) \<in> set (matches ic (Cat (chr x) (lit (y # w))) s)"
    by (simp only: lit_Cons2)
  from matches_Cat_elem [OF this] obtain r1 g1 g2 where
    e: "(r1, g1) \<in> set (matches ic (chr x) s)" "(r, g2) \<in> set (matches ic (lit (y # w)) r1)"
    by blast
  from chr_matches [OF e(1)] obtain c where c: "s = c # r1" "cset_has ic [x] c" by blast
  from "3.IH"(2) [OF e(2)] obtain p2 where
    p2: "r1 = p2 @ r" "list_all2 (\<lambda>c x. cset_has ic [x] c) p2 (y # w)"
    by blast
  have "s = (c # p2) @ r" using c(1) p2(1) by simp
  moreover have "list_all2 (\<lambda>c x. cset_has ic [x] c) (c # p2) (x # y # w)"
    using c(2) p2(2) by simp
  ultimately show ?case by blast
qed

lemma no_match_empty_class: "rep_matches ic [] (Suc n) hi s = []"
  by (cases s) (simp_all add: cset_has_def)

lemma alts_matches:
  "(r, g) \<in> set (matches ic (alts rs) s) \<Longrightarrow> \<exists>x\<in>set rs. (r, g) \<in> set (matches ic x s)"
proof (induction rs rule: induct_list012)
  case 1
  then show ?case by (simp add: no_match_empty_class)
next
  case (2 x)
  then show ?case by simp
next
  case (3 x y zs)
  then show ?case by auto
qed

lemma upper_not_lower: "x \<in> set ascii_uppercase \<Longrightarrow> x \<notin> set ascii_lowercase"
  by (auto simp: ascii_uppercase_def ascii_lowercase_def)

lemma chr_upper_of_upper: "x \<in> set ascii_uppercase \<Longrightarrow> chr_upper x = x"
proof -
  assume "x \<in> set ascii_uppercase"
  then have "x \<notin> set ascii_lowercase" by (rule upper_not_lower)
  then have "map_of (zip ascii_lowercase ascii_uppercase) x = None"
    by (metis map_of_SomeD not_Some_eq set_zip_leftD)
  then show ?thesis by (simp add: chr_upper_def)
qed

lemma chr_lower_upper: "chr_lower c = x \<Longrightarrow> x \<in> set ascii_uppercase \<Longrightarrow> c = x"
proof (cases "map_of (zip ascii_uppercase ascii_lowercase) c")
  case None
  then show "chr_lower c = x \<Longrightarrow> x \<in> set ascii_uppercase \<Longrightarrow> c = x"
    by (simp add: chr_lower_def)
next
  case (Some l)
  then have "l \<in> set ascii_lowercase" by (meson map_of_SomeD set_zip_rightD)
  then show "chr_lower c = x \<Longrightarrow> x \<in> set ascii_uppercase \<Longrightarrow> c = x"
    using Some upper_not_lower by (auto simp: chr_lower_def)
qed

lemma upper_fold: "x \<in> set ascii_uppercase \<Longrightarrow> cset_has ic [x] c \<Longrightarrow> chr_upper c = x"
  using chr_upper_of_upper chr_lower_upper
  by (auto simp: cset_has_def split: if_splits)

lemma str_upper_lit:
  "list_all2 (\<lambda>c x. cset_has ic [x] c) pre w \<Longrightarrow> set w \<subseteq> set ascii_uppercase \<Longrightarrow>
   str_upper pre = w"
  by (induction pre w rule: list_all2_induct) (auto simp: str_upper_def upper_fold)

lemma seq_single: "seq [x] = x"
  by simp

lemma three_groups:
  assumes g0: "\<forall>x\<in>set xs0. ngroups x = 0" and g1: "\<forall>x\<in>set xs1. ngroups x = 0"
    and g2: "\<forall>x\<in>set xs2. ngroups x = 0"
    and na: "ngroups a = 0" and nb: "ngroups b = 0" and nc: "ngroups c = 0"
    and m: "(r, g) \<in> set (matches ic (seq (xs0 @ Group a # xs1 @ Group b # xs2 @ [Group c])) s)"
  shows "\<exists>ga gb gc ra rb rc. g = [ga, gb, gc]
           \<and> (ra, []) \<in> set (matches ic a (ga @ ra))
           \<and> (rb, []) \<in> set (matches ic b (gb @ rb))
           \<and> (rc, []) \<in> set (matches ic c (gc @ rc))"
proof -
  from seq_skips [OF _ g0 m] obtain s1 where
    "(r, g) \<in> set (matches ic (seq (Group a # xs1 @ Group b # xs2 @ [Group c])) s1)"
    by blast
  from seq_group_step [OF _ na this] obtain ga ra t1 where
    a: "(ra, []) \<in> set (matches ic a (ga @ ra))" "g = ga # t1"
      "(r, t1) \<in> set (matches ic (seq (xs1 @ Group b # xs2 @ [Group c])) ra)"
    by blast
  from seq_skips [OF _ g1 a(3)] obtain s2 where
    "(r, t1) \<in> set (matches ic (seq (Group b # xs2 @ [Group c])) s2)"
    by blast
  from seq_group_step [OF _ nb this] obtain gb rb t2 where
    b: "(rb, []) \<in> set (matches ic b (gb @ rb))" "t1 = gb # t2"
      "(r, t2) \<in> set (matches ic (seq (xs2 @ [Group c])) rb)"
    by blast
  from seq_skips [OF _ g2 b(3)] obtain s3 where
    "(r, t2) \<in> set (matches ic (seq [Group c]) s3)"
    by blast
  then have "(r, t2) \<in> set (matches ic (Group c) s3)" by (simp only: seq_single)
  from group_only [OF nc this] obtain gc where
    c: "(r, []) \<in> set (matches ic c (gc @ r))" "t2 = [gc]"
    by blast
  from a b c show ?thesis by blast
qed

lemma findall_elem:
  "m \<in> set (re_findall p txt ic) \<Longrightarrow>
   \<exists>w g s' r. m = to_match (ngroups p) w g \<and> (r, g) \<in> set (matches ic p s')"
proof -
  assume "m \<in> set (re_findall p txt ic)"
  then obtain w g where wg: "(w, g) \<in> set (scan ic p txt)" and m: "m = to_match (ngroups p) w g"
    by (auto simp: re_findall_def)
  from scan_heads [OF wg] m show ?thesis by blast
qed

lemma two_digits_consumed:
  "(r, g) \<in> set (matches ic (Rep digits 2 (Some 2)) (y @ r)) \<Longrightarrow>
   \<exists>a b. y = [a, b] \<and> is_digit a \<and> is_digit b"
proof -
  assume "(r, g) \<in> set (matches ic (Rep digits 2 (Some 2)) (y @ r))"
  from rep_consumed [OF this] have
    l: "2 \<le> length y" "length y \<le> 2" and d: "\<forall>c\<in>set y. cset_has ic digits c"
    by auto
  from l have "length y = Suc (Suc 0)" by simp
  then obtain a b where "y = [a, b]" by (auto simp: length_Suc_conv)
  with d cset_has_digits show ?thesis by auto
qed

lemma month_consumed:
  "(r, g) \<in> set (matches ic (alts (map lit
       [''SEP'', ''JAN'', ''FEB'', ''MAR'', ''APR'', ''MAY'',
        ''JUN'', ''JUL'', ''AUG'', ''OCT'', ''NOV'', ''DEC''])) (mon @ r)) \<Longrightarrow>
   \<exists>mm. map_of month_map (str_upper mon) = Some mm"
proof -
  assume "(r, g) \<in> set (matches ic (alts (map lit
       [''SEP'', ''JAN'', ''FEB'', ''MAR'', ''APR'', ''MAY'',
        ''JUN'', ''JUL'', ''AUG'', ''OCT'', ''NOV'', ''DEC''])) (mon @ r))"
  from alts_matches [OF this] obtain w where
    w: "w \<in> set [''SEP'', ''JAN'', ''FEB'', ''MAR'', ''APR'', ''MAY'',
        ''JUN'', ''JUL'', ''AUG'', ''OCT'', ''NOV'', ''DEC'']"
    and m: "(r, g) \<in> set (matches ic (lit w) (mon @ r))"
    by auto
  from lit_matches [OF m] obtain pre where
    p: "mon @ r = pre @ r" "list_all2 (\<lambda>c x. cset_has ic [x] c) pre w"
    by blast
  from p(1) have "pre = mon" by simp
  moreover have "set w \<subseteq> set ascii_uppercase"
    using w by (auto simp: ascii_uppercase_def)
  ultimately have "str_upper mon = w" using p(2) str_upper_lit by blast
  with w show ?thesis by (auto simp: month_map_def)
qed

lemma month_name_branch_returns:
  "map_of month_map (str_upper mon) = Some mm \<Longrightarrow> is_digit a \<Longrightarrow> is_digit b \<Longrightarrow>
   month_name_branch thr (MTuple [d, mon, [a, b]]) =
     Inr (Some (iso_date ((if 10 * digit_val a + digit_val b \<le> thr then ''20'' else ''19'') @ [a, b])
                  mm (zfill 2 d)))"
  by (simp add: month_name_branch_def Let_def two_digit_year_digits)

lemma ngroups_bilingual:
  "ngroups pat_bilingual_tight = 3" "ngroups pat_bilingual_spaced = 3"
  by (simp_all add: pat_bilingual_tight_def pat_bilingual_spaced_def month_alternation_def
      upper_3_4_def plus_def star_def lit_def chr_def)

lemma bilingual_shape:
  assumes "p = pat_bilingual_tight \<or> p = pat_bilingual_spaced"
    and m: "(r, g) \<in> set (matches ic p s)"
  shows "\<exists>d mon a b mm. g = [d, mon, [a, b]] \<and> is_digit a \<and> is_digit b
           \<and> map_of month_map (str_upper mon) = Some mm"
proof -
  let ?months = "alts (map lit
       [''SEP'', ''JAN'', ''FEB'', ''MAR'', ''APR'', ''MAY'',
        ''JUN'', ''JUL'', ''AUG'', ''OCT'', ''NOV'', ''DEC''])"
  have "\<exists>xs1 xs2. p = seq ([] @ Group (Rep digits 1 (Some 2)) # xs1 @ Group ?months # xs2
                          @ [Group (Rep digits 2 (Some 2))])
          \<and> (\<forall>x\<in>set xs1. ngroups x = 0) \<and> (\<forall>x\<in>set xs2. ngroups x = 0)"
  proof (rule disjE [OF assms(1)])
    assume "p = pat_bilingual_tight"
    then have "p = seq ([] @ Group (Rep digits 1 (Some 2)) # [plus whitespace] @ Group ?months
                # [star whitespace, chr CHR ''/'', star whitespace, upper_3_4, plus whitespace]
                @ [Group (Rep digits 2 (Some 2))])"
      by (simp add: pat_bilingual_tight_def month_alternation_def)
    moreover have "\<forall>x\<in>set [plus whitespace]. ngroups x = 0"
      "\<forall>x\<in>set [star whitespace, chr CHR ''/'', star whitespace, upper_3_4, plus whitespace].
         ngroups x = 0"
      by (simp_all add: plus_def star_def chr_def upper_3_4_def)
    ultimately show ?thesis by blast
  next
    assume "p = pat_bilingual_spaced"
    then have "p = seq ([] @ Group (Rep digits 1 (Some 2)) # [plus whitespace] @ Group ?months
                # [plus whitespace, chr CHR ''/'', star whitespace, upper_3_4, plus whitespace]
                @ [Group (Rep digits 2 (Some 2))])"
      by (simp add: pat_bilingual_spaced_def month_alternation_def)
    moreover have "\<forall>x\<in>set [plus whitespace]. ngroups x = 0"
      "\<forall>x\<in>set [plus whitespace, chr CHR ''/'', star whitespace, upper_3_4, plus whitespace].
         ngroups x = 0"
      by (simp_all add: plus_def star_def chr_def upper_3_4_def)
    ultimately show ?thesis by blast
  qed
  then obtain xs1 xs2 where
    eq: "p = seq ([] @ Group (Rep digits 1 (Some 2)) # xs1 @ Group ?months # xs2
                          @ [Group (Rep digits 2 (Some 2))])"
    and n1: "\<forall>x\<in>set xs1. ngroups x = 0" and n2: "\<forall>x\<in>set xs2. ngroups x = 0"
    by blast
  have n0: "\<forall>x\<in>set ([]::regex list). ngroups x = 0" by simp
  have nm: "ngroups ?months = 0" by (simp add: lit_def chr_def)
  have nr: "ngroups (Rep digits 1 (Some 2)) = 0" "ngroups (Rep digits 2 (Some 2)) = 0" by simp_all
  from three_groups [OF n0 n1 n2 nr(1) nm nr(2) m [unfolded eq]]
  obtain d mon y rb rc where
    g: "g = [d, mon, y]" and mon: "(rb, []) \<in> set (matches ic ?months (mon @ rb))"
    and y: "(rc, []) \<in> set (matches ic (Rep digits 2 (Some 2)) (y @ rc))"
    by blast
  from two_digits_consumed [OF y] obtain a b where "y = [a, b]" "is_digit a" "is_digit b"
    by blast
  moreover from month_consumed [OF mon] obtain mm where
    "map_of month_map (str_upper mon) = Some mm" by blast
  ultimately show ?thesis using g by blast
qed

lemma bilingual_match_returns:
  assumes "p = pat_bilingual_tight \<or> p = pat_bilingual_spaced"
    and "m \<in> set (re_findall p txt ic)"
  shows "\<exists>d mon a b mm. m = MTuple [d, mon, [a, b]] \<and> is_digit a \<and> is_digit b
           \<and> map_of month_map (str_upper mon) = Some mm
           \<and> month_name_branch thr m =
               Inr (Some (iso_date ((if 10 * digit_val a + digit_val b \<le> thr
                                     then ''20'' else ''19'') @ [a, b]) mm (zfill 2 d)))"
proof -
  from findall_elem [OF assms(2)] obtain w g s' r where
    m: "m = to_match (ngroups p) w g" and mt: "(r, g) \<in> set (matches ic p s')"
    by blast
  from bilingual_shape [OF assms(1) mt] obtain d mon a b mm where
    s: "g = [d, mon, [a, b]]" "is_digit a" "is_digit b" "map_of month_map (str_upper mon) = Some mm"
    by blast
  have "ngroups p = 3" using assms(1) ngroups_bilingual by auto
  with m s(1) have "m = MTuple [d, mon, [a, b]]" by (simp add: to_match_def)
  with s month_name_branch_returns show ?thesis by blast
qed

lemma year_only_branch_digits:
  "is_digit a \<Longrightarrow> is_digit b \<Longrightarrow>
   year_only_branch (MStr [a, b]) =
     Inr (Some ((if 10 * digit_val a + digit_val b \<le> 50 then ''20'' else ''19'') @ [a, b] @ ''-09-03''))"
  by (simp add: year_only_branch_def two_digit_year_digits iso_date_def)

lemma is_digit_2: "is_digit CHR ''2''"
  by (simp add: is_digit_def digits_def)

lemma ngroups_year_only: "ngroups pat_year_only = 1"
  by (simp add: pat_year_only_def cls_def star_def lit_def chr_def)

lemma year_only_matches:
  "m \<in> set (re_findall pat_year_only txt ic) \<Longrightarrow> \<exists>a b. m = MStr [a, b] \<and> is_digit a \<and> is_digit b"
proof -
  assume "m \<in> set (re_findall pat_year_only txt ic)"
  then obtain w g where wg: "(w, g) \<in> set (scan ic pat_year_only txt)"
    and m: "m = to_match 1 w g"
    by (auto simp: re_findall_def ngroups_year_only)
  have eq: "pat_year_only = seq
     ([cls ''Gg'', star ''Ss3'', star ''Ss3'', lit ''er'', star ''ys'', star ascii_lowercase,
       lit ''er'', star ''ys'', star ascii_lowercase] @ [Group (Rep digits 2 (Some 2))])"
    by (simp add: pat_year_only_def)
  have groupless: "\<forall>x\<in>set [cls ''Gg'', star ''Ss3'', star ''Ss3'', lit ''er'', star ''ys'',
       star ascii_lowercase, lit ''er'', star ''ys'', star ascii_lowercase]. ngroups x = 0"
    by (simp add: cls_def star_def lit_def chr_def)
  from scan_heads [OF wg] obtain s' r where "(r, g) \<in> set (matches ic pat_year_only s')"
    by blast
  from matches_seq_last [OF groupless this [unfolded eq]]
  obtain s'' where "(r, g) \<in> set (matches ic (Group (Rep digits 2 (Some 2))) s'')"
    by blast
  from two_digit_group [OF this] m show ?thesis by (auto simp: to_match_def)
qed

lemma ngroups_clean:
  "ngroups pat_date_of_issue = 3" "ngroups pat_plain_date = 3"
  by (simp_all add: pat_date_of_issue_def pat_plain_date_def upper_3_4_def plus_def star_def
      lit_def chr_def)

lemma handle_match_pure_clean:
  "i = 2 \<or> i = 3 \<Longrightarrow> 3 \<le> length mon \<Longrightarrow>
   handle_match_pure i (MTuple [d, mon, y]) = Inr (Some (iso_date mon ''09'' ''03''))"
  by (auto simp: handle_match_pure_def two_digit_year_def Let_def)

lemma two_groups:
  assumes g0: "\<forall>x\<in>set xs0. ngroups x = 0" and g1: "\<forall>x\<in>set xs1. ngroups x = 0"
    and na: "ngroups a = 0" and nc: "ngroups c = 0"
    and m: "(r, g) \<in> set (matches ic (seq (xs0 @ Group a # xs1 @ [Group c])) s)"
  shows "\<exists>ga gc ra rc. g = [ga, gc]
           \<and> (ra, []) \<in> set (matches ic a (ga @ ra))
           \<and> (rc, []) \<in> set (matches ic c (gc @ rc))"
proof -
  from seq_skips [OF _ g0 m] obtain s1 where
    "(r, g) \<in> set (matches ic (seq (Group a # xs1 @ [Group c])) s1)"
    by blast
  from seq_group_step [OF _ na this] obtain ga ra t1 where
    a: "(ra, []) \<in> set (matches ic a (ga @ ra))" "g = ga # t1"
      "(r, t1) \<in> set (matches ic (seq (xs1 @ [Group c])) ra)"
    by blast
  from seq_skips [OF _ g1 a(3)] obtain s3 where
    "(r, t1) \<in> set (matches ic (seq [Group c]) s3)"
    by blast
  then have "(r, t1) \<in> set (matches ic (Group c) s3)" by (simp only: seq_single)
  from group_only [OF nc this] obtain gc where
    c: "(r, []) \<in> set (matches ic c (gc @ r))" "t1 = [gc]"
    by blast
  from a c show ?thesis by blast
qed

lemma ngroups_fragmented:
  "ngroups pat_frag_seet = 2" "ngroups pat_frag_sep = 2" "ngroups pat_frag_seer = 2"
  by (simp_all add: pat_frag_seet_def pat_frag_sep_def pat_frag_seer_def sep_letters_def
      cls_def plus_def star_def lit_def chr_def)

lemma fragmented_shape:
  assumes "p = pat_frag_seet \<or> p = pat_frag_sep \<or> p = pat_frag_seer"
    and m: "(r, g) \<in> set (matches ic p s)"
  shows "\<exists>d a b. g = [d, [a, b]] \<and> is_digit a \<and> is_digit b"
proof -
  have "\<exists>xs1. p = seq ([cls ''O0''] @ Group (cls digits) # xs1 @ [Group (Rep digits 2 (Some 2))])
          \<and> (\<forall>x\<in>set xs1. ngroups x = 0)"
  proof -
    consider "p = pat_frag_seet" | "p = pat_frag_sep" | "p = pat_frag_seer"
      using assms(1) by blast
    then show ?thesis
    proof cases
      case 1
      then have "p = seq ([cls ''O0''] @ Group (cls digits)
          # [star whitespace, cls ''Ss'', lit ''er'', star ''ys'', star ascii_lowercase,
             cls ''Ss'', lit ''ee'', star ''tT'', star whitespace]
          @ [Group (Rep digits 2 (Some 2))])"
        by (simp add: pat_frag_seet_def)
      moreover have "\<forall>x\<in>set [star whitespace, cls ''Ss'', lit ''er'', star ''ys'',
          star ascii_lowercase, cls ''Ss'', lit ''ee'', star ''tT'', star whitespace].
          ngroups x = 0"
        by (simp add: cls_def star_def lit_def chr_def)
      ultimately show ?thesis by blast
    next
      case 2
      then have "p = seq ([cls ''O0''] @ Group (cls digits)
          # [star whitespace, cls ''Ss'', cls ''Ee'', cls ''PpRr'',
             star whitespace, star [CHR ''/'', CHR 0x5C], star whitespace,
             cls ''Ss'', cls ''Ee'', cls ''PpRr'', star ''Tt'', star whitespace]
          @ [Group (Rep digits 2 (Some 2))])"
        by (simp add: pat_frag_sep_def sep_letters_def)
      moreover have "\<forall>x\<in>set [star whitespace, cls ''Ss'', cls ''Ee'', cls ''PpRr'',
             star whitespace, star [CHR ''/'', CHR 0x5C], star whitespace,
             cls ''Ss'', cls ''Ee'', cls ''PpRr'', star ''Tt'', star whitespace].
          ngroups x = 0"
        by (simp add: cls_def star_def)
      ultimately show ?thesis by blast
    next
      case 3
      then have "p = seq ([cls ''O0''] @ Group (cls digits)
          # [star whitespace, cls ''Ss'', lit ''er'', star ascii_lowercase,
             cls ''Ss'', lit ''eer'', star whitespace]
          @ [Group (Rep digits 2 (Some 2))])"
        by (simp add: pat_frag_seer_def)
      moreover have "\<forall>x\<in>set [star whitespace, cls ''Ss'', lit ''er'', star ascii_lowercase,
             cls ''Ss'', lit ''eer'', star whitespace]. ngroups x = 0"
        by (simp add: cls_def star_def lit_def chr_def)
      ultimately show ?thesis by blast
    qed
  qed
  then obtain xs1 where
    eq: "p = seq ([cls ''O0''] @ Group (cls digits) # xs1 @ [Group (Rep digits 2 (Some 2))])"
    and n1: "\<forall>x\<in>set xs1. ngroups x = 0"
    by blast
  have n0: "\<forall>x\<in>set [cls ''O0'']. ngroups x = 0" by (simp add: cls_def)
  have nr: "ngroups (cls digits) = 0" "ngroups (Rep digits 2 (Some 2)) = 0"
    by (simp_all add: cls_def)
  from two_groups [OF n0 n1 nr m [unfolded eq]]
  obtain d y rc where
    g: "g = [d, y]" and y: "(rc, []) \<in> set (matches ic (Rep digits 2 (Some 2)) (y @ rc))"
    by blast
  from two_digits_consumed [OF y] g show ?thesis by blast
qed

lemma handle_match_full_fragmented:
  "i = 3 \<or> i = 4 \<or> i = 5 \<Longrightarrow> is_digit a \<Longrightarrow> is_digit b \<Longrightarrow>
   handle_match_full i (MTuple [d, [a, b]]) =
     Inr (Some (iso_date ((if 10 * digit_val a + digit_val b \<le> 50 then ''20'' else ''19'') @ [a, b])
                  ''09'' (zfill 2 (''0'' @ d))))"
  by (auto simp: handle_match_full_def two_digit_year_digits Let_def)

lemma full_fragmented_match_returns:
  assumes "p = pat_year_only \<and> i = 2 \<or> p = pat_frag_seet \<and> i = 3
           \<or> p = pat_frag_sep \<and> i = 4 \<or> p = pat_frag_seer \<and> i = 5"
    and "m \<in> set (re_findall p txt ic)"
  shows "\<exists>date. handle_match_full i m = Inr (Some date)"
proof (cases "i = 2")
  case True
  with assms(1) have p: "p = pat_year_only" by auto
  from year_only_matches [OF assms(2) [unfolded p]] obtain a b where
    "m = MStr [a, b]" "is_digit a" "is_digit b" by blast
  with True year_only_branch_digits show ?thesis by (simp add: handle_match_full_def)
next
  case False
  with assms(1) have p: "p = pat_frag_seet \<or> p = pat_frag_sep \<or> p = pat_frag_seer"
    and i: "i = 3 \<or> i = 4 \<or> i = 5"
    by auto
  from findall_elem [OF assms(2)] obtain w g s' r where
    m: "m = to_match (ngroups p) w g" and mt: "(r, g) \<in> set (matches ic p s')"
    by blast
  from fragmented_shape [OF p mt] obtain d a b where
    s: "g = [d, [a, b]]" "is_digit a" "is_digit b"
    by blast
  have "ngroups p = 2" using p ngroups_fragmented by auto
  with m s(1) have "m = MTuple [d, [a, b]]" by (simp add: to_match_def)
  with handle_match_full_fragmented [OF i s(2,3)] show ?thesis by blast
qed

lemma clean_shape_digits:
  assumes "p = pat_date_of_issue \<or> p = pat_plain_date"
    and m: "(r, g) \<in> set (matches ic p s)"
  shows "\<exists>d mon y. g = [d, mon, y] \<and> 3 \<le> length mon \<and> 2 \<le> length y
           \<and> (\<forall>c\<in>set y. is_digit c)"
proof -
  have "\<exists>xs0. p = seq (xs0 @ Group (Rep digits 1 (Some 2)) # [plus whitespace]
                       @ Group upper_3_4 # [plus whitespace] @ [Group (Rep digits 2 (Some 4))])
          \<and> (\<forall>x\<in>set xs0. ngroups x = 0)"
  proof (rule disjE [OF assms(1)])
    assume "p = pat_date_of_issue"
    then have "p = seq ([lit ''date'', plus whitespace, lit ''of'', plus whitespace, lit ''issue'',
                     star ('':'' @ whitespace)]
                 @ Group (Rep digits 1 (Some 2)) # [plus whitespace]
                 @ Group upper_3_4 # [plus whitespace] @ [Group (Rep digits 2 (Some 4))])"
      by (simp add: pat_date_of_issue_def)
    moreover have "\<forall>x\<in>set [lit ''date'', plus whitespace, lit ''of'', plus whitespace,
        lit ''issue'', star ('':'' @ whitespace)]. ngroups x = 0"
      by (simp add: plus_def star_def chr_def lit_def)
    ultimately show ?thesis by blast
  next
    assume "p = pat_plain_date"
    then have "p = seq ([] @ Group (Rep digits 1 (Some 2)) # [plus whitespace]
                 @ Group upper_3_4 # [plus whitespace] @ [Group (Rep digits 2 (Some 4))])
          \<and> (\<forall>x\<in>set ([]::regex list). ngroups x = 0)"
      by (simp add: pat_plain_date_def)
    then show ?thesis by (rule exI [of _ "[]"])
  qed
  then obtain xs0 where
    eq: "p = seq (xs0 @ Group (Rep digits 1 (Some 2)) # [plus whitespace]
                       @ Group upper_3_4 # [plus whitespace] @ [Group (Rep digits 2 (Some 4))])"
    and n0: "\<forall>x\<in>set xs0. ngroups x = 0"
    by blast
  have n1: "\<forall>x\<in>set [plus whitespace]. ngroups x = 0" by (simp add: plus_def)
  have nu: "ngroups upper_3_4 = 0" by (simp add: upper_3_4_def)
  have nr: "ngroups (Rep digits 1 (Some 2)) = 0" "ngroups (Rep digits 2 (Some 4)) = 0" by simp_all
  from three_groups [OF n0 n1 n1 nr(1) nu nr(2) m [unfolded eq]]
  obtain d mon y rb rc where
    g: "g = [d, mon, y]" and mon: "(rb, []) \<in> set (matches ic upper_3_4 (mon @ rb))"
    and y: "(rc, []) \<in> set (matches ic (Rep digits 2 (Some 4)) (y @ rc))"
    by blast
  from mon have "(rb, []) \<in> set (matches ic (Rep ascii_uppercase 3 (Some 4)) (mon @ rb))"
    by (simp only: upper_3_4_def)
  from rep_consumed [OF this] have l: "3 \<le> length mon" by simp
  from rep_consumed [OF y] have "2 \<le> length y" "\<forall>c\<in>set y. cset_has ic digits c" by simp_all
  with cset_has_digits have "2 \<le> length y" "\<forall>c\<in>set y. is_digit c" by blast+
  with g l show ?thesis by blast
qed

lemma two_digit_year_returns:
  "\<forall>c\<in>set y. is_digit c \<Longrightarrow> \<exists>year. two_digit_year t y = Inr year"
proof (cases "length y = 2")
  case True
  assume d: "\<forall>c\<in>set y. is_digit c"
  from True have "length y = Suc (Suc 0)" by simp
  then obtain a b where "y = [a, b]" by (auto simp: length_Suc_conv)
  with d two_digit_year_digits [of a b t] show ?thesis by simp
next
  case False
  then show ?thesis by (simp add: two_digit_year_def)
qed

lemma clean_match_shape:
  assumes "p = pat_date_of_issue \<or> p = pat_plain_date"
    and "m \<in> set (re_findall p txt ic)"
  shows "\<exists>d mon y. m = MTuple [d, mon, y] \<and> 3 \<le> length mon \<and> 2 \<le> length y
           \<and> (\<forall>c\<in>set y. is_digit c)"
proof -
  from findall_elem [OF assms(2)] obtain w g s' r where
    m: "m = to_match (ngroups p) w g" and mt: "(r, g) \<in> set (matches ic p s')"
    by blast
  from clean_shape_digits [OF assms(1) mt] obtain d mon y where
    s: "g = [d, mon, y]" "3 \<le> length mon" "2 \<le> length y" "\<forall>c\<in>set y. is_digit c"
    by blast
  have "ngroups p = 3" using assms(1) ngroups_clean by auto
  with m s(1) have "m = MTuple [d, mon, y]" by (simp add: to_match_def)
  with s show ?thesis by blast
qed

section \<open>The cascade\<close>

lemma for_patterns_first:
  "i < length ps \<Longrightarrow>
   \<forall>j<i. for_matches (h (k + j)) (re_findall (ps ! j) text True) = Inr None \<Longrightarrow>
   for_matches (h (k + i)) (re_findall (ps ! i) text True) \<noteq> Inr None \<Longrightarrow>
   for_patterns h k ps text = for_matches (h (k + i)) (re_findall (ps ! i) text True)"
proof (induction ps arbitrary: i k)
  case Nil
  then show ?case by simp
next
  case (Cons p ps)
  show ?case
  proof (cases i)
    case 0
    with Cons.prems(3) show ?thesis
      by (simp split: sum.split option.split)
  next
    case (Suc i')
    from Cons.prems(2) Suc
    have head: "for_matches (h k) (re_findall p text True) = Inr None"
      by (metis add.right_neutral nth_Cons_0 zero_less_Suc)
    have rest: "\<forall>j<i'. for_matches (h (Suc k + j)) (re_findall (ps ! j) text True) = Inr None"
    proof (intro allI impI)
      fix j assume "j < i'"
      then have "Suc j < i" using Suc by simp
      with Cons.prems(2) show "for_matches (h (Suc k + j)) (re_findall (ps ! j) text True) = Inr None"
        by fastforce
    qed
    have "for_patterns h (Suc k) ps text =
            for_matches (h (Suc k + i')) (re_findall (ps ! i') text True)"
      using Cons.IH [of i' "Suc k"] Cons.prems(1,3) Suc rest by simp
    with head Suc show ?thesis by simp
  qed
qed

lemma for_patterns_none:
  "\<forall>j<length ps. for_matches (h (k + j)) (re_findall (ps ! j) text True) = Inr None \<Longrightarrow>
   for_patterns h k ps text = Inr None"
proof (induction ps arbitrary: k)
  case Nil
  then show ?case by simp
next
  case (Cons p ps)
  have head: "for_matches (h k) (re_findall p text True) = Inr None"
    using Cons.prems by (metis add.right_neutral length_Cons nth_Cons_0 zero_less_Suc)
  have "\<forall>j<length ps. for_matches (h (Suc k + j)) (re_findall (ps ! j) text True) = Inr None"
  proof (intro allI impI)
    fix j assume "j < length ps"
    then have "Suc j < length (p # ps)" by simp
    with Cons.prems show "for_matches (h (Suc k + j)) (re_findall (ps ! j) text True) = Inr None"
      by fastforce
  qed
  with Cons.IH [of "Suc k"] head show ?case by simp
qed

lemma cascade_first:
  "i < length ps \<Longrightarrow> \<forall>j<i. pattern_outcome h ps j text = Inr None \<Longrightarrow>
   pattern_outcome h ps i text \<noteq> Inr None \<Longrightarrow>
   for_patterns h 0 ps text = pattern_outcome h ps i text"
  using for_patterns_first [of i ps h 0 "text"] by (simp add: pattern_outcome_def)

lemma cascade_none:
  "\<forall>j<length ps. pattern_outcome h ps j text = Inr None \<Longrightarrow> for_patterns h 0 ps text = Inr None"
  using for_patterns_none [of ps h 0 "text"] by (simp add: pattern_outcome_def)

lemma less_4_cases: "j < (4::nat) \<Longrightarrow> j = 0 \<or> j = 1 \<or> j = 2 \<or> j = 3"
  by arith

lemma less_2_cases: "j < (2::nat) \<Longrightarrow> j = 0 \<or> j = 1"
  by arith

lemma less_6_cases: "j < (6::nat) \<Longrightarrow> j = 0 \<or> j = 1 \<or> j = 2 \<or> j = 3 \<or> j = 4 \<or> j = 5"
  by arith

lemma pure_clean_match_returns:
  assumes "p = pat_date_of_issue \<or> p = pat_plain_date"
    and "m \<in> set (re_findall p txt ic)" and "i = 2 \<or> i = 3"
  shows "\<exists>date. handle_match_pure i m = Inr (Some date)"
proof -
  from clean_match_shape [OF assms(1,2)] obtain d mon y where
    s: "m = MTuple [d, mon, y]" "3 \<le> length mon"
    by blast
  from handle_match_pure_clean [OF assms(3) s(2)] s(1) show ?thesis by blast
qed

lemma bilingual_first:
  assumes v: "(f, h, ps, thr) \<in>
       {(extract_issue_date_from_text_pure, handle_match_pure, patterns_pure, 50),
        (extract_issue_date_from_text_simplified, handle_match_pure, patterns_simplified, 50),
        (extract_issue_date_from_text_full, handle_match_full, patterns_full, 30)}"
    and hit: "re_findall pat_bilingual_tight txt True = m # ms
       \<or> re_findall pat_bilingual_tight txt True = []
          \<and> re_findall pat_bilingual_spaced txt True = m # ms"
  shows "f txt = month_name_branch thr m"
proof -
  have f: "f txt = for_patterns h 0 ps txt"
    using v
    by (auto simp: extract_issue_date_from_text_pure_def
        extract_issue_date_from_text_simplified_def extract_issue_date_from_text_full_def)
  have p: "ps ! 0 = pat_bilingual_tight" "ps ! 1 = pat_bilingual_spaced" "1 < length ps"
    "h 0 = month_name_branch thr" "h 1 = month_name_branch thr"
    using v
    by (auto simp: patterns_pure_def patterns_simplified_def patterns_full_def
        handle_match_pure_def handle_match_full_def fun_eq_iff)
  from hit show ?thesis
  proof
    assume a: "re_findall pat_bilingual_tight txt True = m # ms"
    then have "m \<in> set (re_findall pat_bilingual_tight txt True)" by simp
    from bilingual_match_returns [OF _ this, of thr] obtain date where
      d: "month_name_branch thr m = Inr (Some date)" by auto
    then have o: "pattern_outcome h ps 0 txt = Inr (Some date)"
      using a p by (simp add: pattern_outcome_def)
    then have ne: "pattern_outcome h ps 0 txt \<noteq> Inr None" by simp
    have l0: "0 < length ps" using p(3) by arith
    have e0: "\<forall>j<0. pattern_outcome h ps j txt = Inr None" by simp
    from cascade_first [of 0 ps h "txt", OF l0 e0 ne] o d f show ?thesis by simp
  next
    assume a: "re_findall pat_bilingual_tight txt True = []
          \<and> re_findall pat_bilingual_spaced txt True = m # ms"
    then have "m \<in> set (re_findall pat_bilingual_spaced txt True)" by simp
    from bilingual_match_returns [OF _ this, of thr] obtain date where
      d: "month_name_branch thr m = Inr (Some date)" by auto
    then have o: "pattern_outcome h ps 1 txt = Inr (Some date)"
      using a p by (simp add: pattern_outcome_def)
    then have ne: "pattern_outcome h ps 1 txt \<noteq> Inr None" by simp
    have e: "\<forall>j<1. pattern_outcome h ps j txt = Inr None"
      using a p by (simp add: pattern_outcome_def)
    from cascade_first [of 1 ps h "txt", OF p(3) e ne] o d f show ?thesis by simp
  qed
qed

lemma pure_clean_first:
  assumes v: "(f, ps) \<in>
       {(extract_issue_date_from_text_pure, patterns_pure),
        (extract_issue_date_from_text_simplified, patterns_simplified)}"
    and nb: "re_findall pat_bilingual_tight txt True = []"
      "re_findall pat_bilingual_spaced txt True = []"
    and hit: "re_findall pat_date_of_issue txt True = m # ms \<and> i = 2
       \<or> re_findall pat_date_of_issue txt True = []
          \<and> re_findall pat_plain_date txt True = m # ms \<and> i = 3"
  shows "f txt = handle_match_pure i m \<and> (\<exists>date. f txt = Inr (Some date))"
proof -
  have f: "f txt = for_patterns handle_match_pure 0 ps txt"
    using v
    by (auto simp: extract_issue_date_from_text_pure_def
        extract_issue_date_from_text_simplified_def)
  have p: "ps ! 0 = pat_bilingual_tight" "ps ! 1 = pat_bilingual_spaced"
    "ps ! 2 = pat_date_of_issue" "ps ! 3 = pat_plain_date" "3 < length ps"
    using v by (auto simp: patterns_pure_def patterns_simplified_def)
  have o01: "pattern_outcome handle_match_pure ps 0 txt = Inr None"
    "pattern_outcome handle_match_pure ps 1 txt = Inr None"
    using nb p by (simp_all add: pattern_outcome_def)
  from hit show ?thesis
  proof
    assume a: "re_findall pat_date_of_issue txt True = m # ms \<and> i = 2"
    then have "m \<in> set (re_findall pat_date_of_issue txt True)" by simp
    from pure_clean_match_returns [OF _ this, of 2] obtain date where
      d: "handle_match_pure 2 m = Inr (Some date)" by auto
    then have o: "pattern_outcome handle_match_pure ps 2 txt = Inr (Some date)"
      using a p by (simp add: pattern_outcome_def)
    then have ne: "pattern_outcome handle_match_pure ps 2 txt \<noteq> Inr None" by simp
    have e: "\<forall>j<2. pattern_outcome handle_match_pure ps j txt = Inr None"
      using o01 less_2_cases by fastforce
    have l: "2 < length ps" using p(5) by simp
    from cascade_first [of 2 ps handle_match_pure "txt", OF l e ne] o d f a
    show ?thesis by simp
  next
    assume a: "re_findall pat_date_of_issue txt True = []
          \<and> re_findall pat_plain_date txt True = m # ms \<and> i = 3"
    then have "m \<in> set (re_findall pat_plain_date txt True)" by simp
    from pure_clean_match_returns [OF _ this, of 3] obtain date where
      d: "handle_match_pure 3 m = Inr (Some date)" by auto
    then have o: "pattern_outcome handle_match_pure ps 3 txt = Inr (Some date)"
      using a p by (simp add: pattern_outcome_def)
    then have ne: "pattern_outcome handle_match_pure ps 3 txt \<noteq> Inr None" by simp
    have o2: "pattern_outcome handle_match_pure ps 2 txt = Inr None"
      using a p by (simp add: pattern_outcome_def)
    have "j < 3 \<Longrightarrow> j = 0 \<or> j = 1 \<or> j = 2" for j :: nat by arith
    then have e: "\<forall>j<3. pattern_outcome handle_match_pure ps j txt = Inr None"
      using o01 o2 by fastforce
    from cascade_first [of 3 ps handle_match_pure "txt", OF p(5) e ne] o d f a
    show ?thesis by simp
  qed
qed

lemma full_fragmented_decides:
  assumes nb: "re_findall pat_bilingual_tight s True = []"
      "re_findall pat_bilingual_spaced s True = []"
    and k: "k < 4"
    and e: "\<forall>j<k. re_findall ([pat_year_only, pat_frag_seet, pat_frag_sep, pat_frag_seer] ! j)
                     s True = []"
    and hit: "re_findall ([pat_year_only, pat_frag_seet, pat_frag_sep, pat_frag_seer] ! k)
                s True = m # ms"
  shows "extract_issue_date_from_text_full s = handle_match_full (2 + k) m
       \<and> (\<exists>date. extract_issue_date_from_text_full s = Inr (Some date))"
proof -
  let ?F = "[pat_year_only, pat_frag_seet, pat_frag_sep, pat_frag_seer]"
  have idx: "patterns_full ! (2 + j) = ?F ! j" if "j < 4" for j
  proof -
    from that consider "j = 0" | "j = 1" | "j = 2" | "j = 3" using less_4_cases by blast
    then show ?thesis by cases (simp_all add: patterns_full_def)
  qed
  have pk: "?F ! k = pat_year_only \<and> 2 + k = 2 \<or> ?F ! k = pat_frag_seet \<and> 2 + k = 3
           \<or> ?F ! k = pat_frag_sep \<and> 2 + k = 4 \<or> ?F ! k = pat_frag_seer \<and> 2 + k = 5"
  proof -
    from k consider "k = 0" | "k = 1" | "k = 2" | "k = 3" using less_4_cases by blast
    then show ?thesis by cases simp_all
  qed
  have "m \<in> set (re_findall (?F ! k) s True)" using hit by simp
  from full_fragmented_match_returns [OF pk this] obtain date where
    d: "handle_match_full (2 + k) m = Inr (Some date)" by blast
  have o: "pattern_outcome handle_match_full patterns_full (2 + k) s = Inr (Some date)"
    using d hit idx [OF k] by (simp only: pattern_outcome_def for_matches.simps) simp
  then have ne: "pattern_outcome handle_match_full patterns_full (2 + k) s \<noteq> Inr None" by simp
  have all: "\<forall>j<2 + k. pattern_outcome handle_match_full patterns_full j s = Inr None"
  proof (intro allI impI)
    fix j assume j: "j < 2 + k"
    then consider "j = 0" | "j = 1" | "2 \<le> j" by arith
    then show "pattern_outcome handle_match_full patterns_full j s = Inr None"
    proof cases
      case 1
      then show ?thesis using nb by (simp add: pattern_outcome_def patterns_full_def)
    next
      case 2
      then show ?thesis using nb by (simp add: pattern_outcome_def patterns_full_def)
    next
      case 3
      then obtain j' where j': "j = 2 + j'" "j' < k" using j by (metis add_less_cancel_left le_Suc_ex)
      then have "j' < 4" using k by simp
      from idx [OF this] e j' show ?thesis by (simp add: pattern_outcome_def)
    qed
  qed
  have l: "2 + k < length patterns_full" using k by (simp add: patterns_full_def)
  from cascade_first [OF l all ne] o d show ?thesis
    by (simp add: extract_issue_date_from_text_full_def)
qed

lemma full_clean_last:
  assumes nb: "re_findall pat_bilingual_tight s True = []"
      "re_findall pat_bilingual_spaced s True = []"
    and nf: "\<forall>p\<in>set [pat_year_only, pat_frag_seet, pat_frag_sep, pat_frag_seer].
               re_findall p s True = []"
    and hit: "re_findall pat_date_of_issue s True = m # ms
       \<or> re_findall pat_date_of_issue s True = [] \<and> re_findall pat_plain_date s True = m # ms"
    and m: "m = MTuple [d, mon, y]"
    and mm: "map_of month_map (str_upper mon) = Some mm"
  shows "\<exists>year. two_digit_year 30 y = Inr year
           \<and> extract_issue_date_from_text_full s = Inr (Some (iso_date year mm (zfill 2 d)))"
proof -
  have "\<exists>p. (p = pat_date_of_issue \<or> p = pat_plain_date) \<and> m \<in> set (re_findall p s True)"
    using hit by (metis list.set_intros(1))
  then obtain p where p: "p = pat_date_of_issue \<or> p = pat_plain_date"
    and mp: "m \<in> set (re_findall p s True)" by blast
  from clean_match_shape [OF p mp] m have "\<forall>c\<in>set y. is_digit c" by auto
  from two_digit_year_returns [OF this] obtain year where y: "two_digit_year 30 y = Inr year"
    by blast
  have b: "month_name_branch 30 m = Inr (Some (iso_date year mm (zfill 2 d)))"
    using m mm y by (simp add: month_name_branch_def)
  have o6: "\<forall>j<6. pattern_outcome handle_match_full patterns_full j s = Inr None"
  proof (intro allI impI)
    fix j :: nat assume "j < 6"
    then consider "j = 0" | "j = 1" | "j = 2" | "j = 3" | "j = 4" | "j = 5"
      using less_6_cases by blast
    then show "pattern_outcome handle_match_full patterns_full j s = Inr None"
      using nb nf by cases (simp_all add: pattern_outcome_def patterns_full_def)
  qed
  from hit show ?thesis
  proof
    assume a: "re_findall pat_date_of_issue s True = m # ms"
    have o: "pattern_outcome handle_match_full patterns_full 6 s
               = Inr (Some (iso_date year mm (zfill 2 d)))"
      using a b by (simp add: pattern_outcome_def patterns_full_def handle_match_full_def)
    then have ne: "pattern_outcome handle_match_full patterns_full 6 s \<noteq> Inr None" by simp
    have l: "6 < length patterns_full" by (simp add: patterns_full_def)
    from cascade_first [OF l o6 ne] o y show ?thesis
      by (simp add: extract_issue_date_from_text_full_def)
  next
    assume a: "re_findall pat_date_of_issue s True = [] \<and> re_findall pat_plain_date s True = m # ms"
    have o: "pattern_outcome handle_match_full patterns_full 7 s
               = Inr (Some (iso_date year mm (zfill 2 d)))"
      using a b by (simp add: pattern_outcome_def patterns_full_def handle_match_full_def)
    then have ne: "pattern_outcome handle_match_full patterns_full 7 s \<noteq> Inr None" by simp
    have o6': "pattern_outcome handle_match_full patterns_full 6 s = Inr None"
      using a by (simp add: pattern_outcome_def patterns_full_def)
    have o7: "\<forall>j<7. pattern_outcome handle_match_full patterns_full j s = Inr None"
    proof (intro allI impI)
      fix j :: nat assume "j < 7"
      then consider "j < 6" | "j = 6" by arith
      then show "pattern_outcome handle_match_full patterns_full j s = Inr None"
        using o6 o6' by cases simp_all
    qed
    have l: "7 < length patterns_full" by (simp add: patterns_full_def)
    from cascade_first [OF l o7 ne] o y show ?thesis
      by (simp add: extract_issue_date_from_text_full_def)
  qed
qed

lemma mixed_tight: "re_findall pat_bilingual_tight ''Date of issue 01 JAN 22 Gerer23'' True = []"
  by code_simp
lemma mixed_spaced: "re_findall pat_bilingual_spaced ''Date of issue 01 JAN 22 Gerer23'' True = []"
  by code_simp
lemma mixed_year_only: "re_findall pat_year_only ''Date of issue 01 JAN 22 Gerer23'' True = [MStr ''23'']"
  by code_simp
lemma mixed_labelled:
  "re_findall pat_date_of_issue ''Date of issue 01 JAN 22 Gerer23'' True = [MTuple [''01'', ''JAN'', ''22'']]"
  by code_simp
lemma labelled_normalised:
  "for_matches (handle_match_full 6) [MTuple [''01'', ''JAN'', ''22'']] = Inr (Some ''2022-01-01'')"
  by code_simp

lemma mixed_full_earlier:
  "\<forall>j<2. pattern_outcome handle_match_full patterns_full j ''Date of issue 01 JAN 22 Gerer23'' = Inr None"
proof (intro allI impI)
  fix j :: nat assume "j < 2"
  then consider "j = 0" | "j = 1" using less_2_cases by blast
  then show "pattern_outcome handle_match_full patterns_full j ''Date of issue 01 JAN 22 Gerer23'' = Inr None"
    by cases (simp_all add: pattern_outcome_def patterns_full_def mixed_tight mixed_spaced)
qed

lemma mixed_full_year_only:
  "pattern_outcome handle_match_full patterns_full 2 ''Date of issue 01 JAN 22 Gerer23''
     = Inr (Some ''2023-09-03'')"
  by (simp add: pattern_outcome_def patterns_full_def mixed_year_only handle_match_full_def
      year_only_branch_def two_digit_year_def py_int_def is_digit_def digits_def digit_val_def
      iso_date_def)

lemma mixed_full_labelled:
  "pattern_outcome handle_match_full patterns_full 6 ''Date of issue 01 JAN 22 Gerer23''
     = Inr (Some ''2022-01-01'')"
proof -
  have "patterns_full ! 6 = pat_date_of_issue" by (simp add: patterns_full_def)
  then show ?thesis
    by (simp only: pattern_outcome_def mixed_labelled labelled_normalised)
qed

lemma empty_text_pure: "list_all (\<lambda>p. re_findall p [] True = []) patterns_pure"
  by code_simp

lemma bilingual_fragment_tight:
  "re_findall pat_bilingual_tight ''03 SEP / SEPT 22 Gerer23'' True = [MTuple [''03'', ''SEP'', ''22'']]"
  by code_simp

lemma plain_22_tight: "re_findall pat_bilingual_tight ''01 JAN 22'' True = []"
  by code_simp
lemma plain_22_spaced: "re_findall pat_bilingual_spaced ''01 JAN 22'' True = []"
  by code_simp
lemma plain_22_fragmented:
  "\<forall>p\<in>set [pat_year_only, pat_frag_seet, pat_frag_sep, pat_frag_seer].
     re_findall p ''01 JAN 22'' True = []"
  by code_simp
lemma plain_22_labelled: "re_findall pat_date_of_issue ''01 JAN 22'' True = []"
  by code_simp
lemma plain_22_plain:
  "re_findall pat_plain_date ''01 JAN 22'' True = [MTuple [''01'', ''JAN'', ''22'']]"
  by code_simp
lemma jan_month: "map_of month_map (str_upper ''JAN'') = Some ''01''"
  by code_simp
lemma sep_month: "map_of month_map (str_upper ''SEP'') = Some ''09''"
  by code_simp

text \<open>
  Against C2 as stated: in the full extractor the year-only fragmented pattern stands
  at index 2 and the labelled clean pattern at index 6. On a text holding both a clean
  \<open>Date of issue 01 JAN 22\<close> (which alone would give 2022-01-01) and the fragment
  \<open>Gerer23\<close>, the cascade returns the fragment's 2023-09-03.
\<close>

theorem full_fragment_beats_clean_counterexample:
  "pattern_outcome handle_match_full patterns_full 6 ''Date of issue 01 JAN 22 Gerer23''
     = Inr (Some ''2022-01-01'')
   \<and> patterns_full ! 6 = pat_date_of_issue
   \<and> patterns_full ! 2 = pat_year_only
   \<and> re_findall pat_year_only ''Date of issue 01 JAN 22 Gerer23'' True = [MStr ''23'']
   \<and> extract_issue_date_from_text_full ''Date of issue 01 JAN 22 Gerer23''
       = Inr (Some ''2023-09-03'')"
proof -
  have "extract_issue_date_from_text_full ''Date of issue 01 JAN 22 Gerer23''
       = Inr (Some ''2023-09-03'')"
    unfolding extract_issue_date_from_text_full_def
    using cascade_first [of 2 patterns_full handle_match_full "''Date of issue 01 JAN 22 Gerer23''"]
      mixed_full_earlier mixed_full_year_only
    by (simp add: patterns_full_def)
  then show ?thesis
    using mixed_full_labelled mixed_year_only by (simp add: patterns_full_def)
qed

text \<open>
  C2 (amended). The cascade tries the patterns in the order of each extractor's
  \<open>patterns\<close> list, and which tier that puts first differs between the lists.

  \<^item> In all three extractors the two bilingual clean patterns come first: the first
    match of the tight one, or of the spaced one when the tight one has none, ends the
    cascade with the date normalised from it (day zero-filled, month by name, the
    two-digit year windowed at 50 in the pure and simplified extractor and at 30 in the
    full one), whatever fragmented pattern matches elsewhere in the text.
  \<^item> In the pure and the simplified extractor the labelled and the plain clean pattern
    (index 2 and 3) come before every fragmented pattern: without a bilingual match,
    the first match of the labelled pattern, or of the plain one when the labelled one
    has none, ends the cascade with what the loop body returns for it.
  \<^item> In the full extractor the four fragmented patterns (index 2 to 5) come before the
    labelled and the plain clean pattern (index 6 and 7): without a bilingual match,
    the first match of the first fragmented pattern that has one ends the cascade, and
    a labelled or plain match is used only when no fragmented pattern matches; then the
    date is normalised from it when its month token is a month name.
  \<^item> In every extractor the first pattern in list order whose matches make the loop
    body return or raise decides the result, and without one the result is \<open>None\<close>.
\<close>

theorem cascade_priority_by_catalog:
  "((f, thr) \<in> {(extract_issue_date_from_text_pure, 50),
                 (extract_issue_date_from_text_simplified, 50),
                 (extract_issue_date_from_text_full, 30)}
      \<and> (re_findall pat_bilingual_tight s True = m # ms
          \<or> re_findall pat_bilingual_tight s True = []
             \<and> re_findall pat_bilingual_spaced s True = m # ms)
    \<longrightarrow> (\<exists>d mon a b mm. m = MTuple [d, mon, [a, b]] \<and> is_digit a \<and> is_digit b
            \<and> map_of month_map (str_upper mon) = Some mm
            \<and> f s = Inr (Some (iso_date ((if 10 * digit_val a + digit_val b \<le> thr
                                            then ''20'' else ''19'') @ [a, b]) mm (zfill 2 d)))))
   \<and> (g \<in> {extract_issue_date_from_text_pure, extract_issue_date_from_text_simplified}
      \<and> re_findall pat_bilingual_tight s True = []
      \<and> re_findall pat_bilingual_spaced s True = []
      \<and> (re_findall pat_date_of_issue s True = m # ms \<and> i = 2
          \<or> re_findall pat_date_of_issue s True = []
             \<and> re_findall pat_plain_date s True = m # ms \<and> i = 3)
    \<longrightarrow> g s = handle_match_pure i m \<and> (\<exists>date. g s = Inr (Some date)))
   \<and> (re_findall pat_bilingual_tight s True = []
      \<and> re_findall pat_bilingual_spaced s True = []
      \<and> k < 4
      \<and> (\<forall>j<k. re_findall ([pat_year_only, pat_frag_seet, pat_frag_sep, pat_frag_seer] ! j)
                   s True = [])
      \<and> re_findall ([pat_year_only, pat_frag_seet, pat_frag_sep, pat_frag_seer] ! k) s True
          = m # ms
    \<longrightarrow> extract_issue_date_from_text_full s = handle_match_full (2 + k) m
        \<and> (\<exists>date. extract_issue_date_from_text_full s = Inr (Some date)))
   \<and> (re_findall pat_bilingual_tight s True = []
      \<and> re_findall pat_bilingual_spaced s True = []
      \<and> (\<forall>p\<in>set [pat_year_only, pat_frag_seet, pat_frag_sep, pat_frag_seer].
            re_findall p s True = [])
      \<and> (re_findall pat_date_of_issue s True = m # ms
          \<or> re_findall pat_date_of_issue s True = []
             \<and> re_findall pat_plain_date s True = m # ms)
      \<and> m = MTuple [d, mon, y] \<and> map_of month_map (str_upper mon) = Some mm
    \<longrightarrow> (\<exists>year. two_digit_year 30 y = Inr year
          \<and> extract_issue_date_from_text_full s = Inr (Some (iso_date year mm (zfill 2 d)))))
   \<and> ((h, ps, F) \<in>
         {(handle_match_pure, patterns_pure, extract_issue_date_from_text_pure),
          (handle_match_pure, patterns_simplified, extract_issue_date_from_text_simplified),
          (handle_match_full, patterns_full, extract_issue_date_from_text_full)}
    \<longrightarrow> (n < length ps \<and> (\<forall>j<n. pattern_outcome h ps j s = Inr None)
            \<and> pattern_outcome h ps n s \<noteq> Inr None
          \<longrightarrow> F s = pattern_outcome h ps n s)
       \<and> ((\<forall>j<length ps. pattern_outcome h ps j s = Inr None) \<longrightarrow> F s = Inr None))"
proof (intro conjI impI)
  assume a: "(f, thr) \<in> {(extract_issue_date_from_text_pure, 50),
                 (extract_issue_date_from_text_simplified, 50),
                 (extract_issue_date_from_text_full, 30)}
      \<and> (re_findall pat_bilingual_tight s True = m # ms
          \<or> re_findall pat_bilingual_tight s True = []
             \<and> re_findall pat_bilingual_spaced s True = m # ms)"
  then have "\<exists>hh pp. (f, hh, pp, thr) \<in>
       {(extract_issue_date_from_text_pure, handle_match_pure, patterns_pure, 50),
        (extract_issue_date_from_text_simplified, handle_match_pure, patterns_simplified, 50),
        (extract_issue_date_from_text_full, handle_match_full, patterns_full, 30)}"
    by auto
  then obtain hh pp where v: "(f, hh, pp, thr) \<in>
       {(extract_issue_date_from_text_pure, handle_match_pure, patterns_pure, 50),
        (extract_issue_date_from_text_simplified, handle_match_pure, patterns_simplified, 50),
        (extract_issue_date_from_text_full, handle_match_full, patterns_full, 30)}"
    by blast
  from a have hit: "re_findall pat_bilingual_tight s True = m # ms
          \<or> re_findall pat_bilingual_tight s True = []
             \<and> re_findall pat_bilingual_spaced s True = m # ms" by simp
  have fs: "f s = month_name_branch thr m" by (rule bilingual_first [OF v hit])
  have "\<exists>p. (p = pat_bilingual_tight \<or> p = pat_bilingual_spaced) \<and> m \<in> set (re_findall p s True)"
    using hit by (metis list.set_intros(1))
  then obtain p where p: "p = pat_bilingual_tight \<or> p = pat_bilingual_spaced"
    and mp: "m \<in> set (re_findall p s True)" by blast
  from bilingual_match_returns [OF p mp, of thr] fs
  show "\<exists>d mon a b mm. m = MTuple [d, mon, [a, b]] \<and> is_digit a \<and> is_digit b
            \<and> map_of month_map (str_upper mon) = Some mm
            \<and> f s = Inr (Some (iso_date ((if 10 * digit_val a + digit_val b \<le> thr
                                            then ''20'' else ''19'') @ [a, b]) mm (zfill 2 d)))"
    by simp
next
  assume a: "g \<in> {extract_issue_date_from_text_pure, extract_issue_date_from_text_simplified}
      \<and> re_findall pat_bilingual_tight s True = []
      \<and> re_findall pat_bilingual_spaced s True = []
      \<and> (re_findall pat_date_of_issue s True = m # ms \<and> i = 2
          \<or> re_findall pat_date_of_issue s True = []
             \<and> re_findall pat_plain_date s True = m # ms \<and> i = 3)"
  then have "\<exists>pp. (g, pp) \<in>
       {(extract_issue_date_from_text_pure, patterns_pure),
        (extract_issue_date_from_text_simplified, patterns_simplified)}"
    by auto
  then obtain pp where v: "(g, pp) \<in>
       {(extract_issue_date_from_text_pure, patterns_pure),
        (extract_issue_date_from_text_simplified, patterns_simplified)}"
    by blast
  from a have r: "g s = handle_match_pure i m \<and> (\<exists>date. g s = Inr (Some date))"
    using pure_clean_first [OF v, of s m ms i] by blast
  from r show "g s = handle_match_pure i m" by blast
  from r show "\<exists>date. g s = Inr (Some date)" by blast
next
  assume a: "re_findall pat_bilingual_tight s True = []
      \<and> re_findall pat_bilingual_spaced s True = []
      \<and> k < 4
      \<and> (\<forall>j<k. re_findall ([pat_year_only, pat_frag_seet, pat_frag_sep, pat_frag_seer] ! j)
                   s True = [])
      \<and> re_findall ([pat_year_only, pat_frag_seet, pat_frag_sep, pat_frag_seer] ! k) s True
          = m # ms"
  then have r: "extract_issue_date_from_text_full s = handle_match_full (2 + k) m
        \<and> (\<exists>date. extract_issue_date_from_text_full s = Inr (Some date))"
    using full_fragmented_decides [of s k m ms] by blast
  from r show "extract_issue_date_from_text_full s = handle_match_full (2 + k) m" by blast
  from r show "\<exists>date. extract_issue_date_from_text_full s = Inr (Some date)" by blast
next
  assume a: "re_findall pat_bilingual_tight s True = []
      \<and> re_findall pat_bilingual_spaced s True = []
      \<and> (\<forall>p\<in>set [pat_year_only, pat_frag_seet, pat_frag_sep, pat_frag_seer].
            re_findall p s True = [])
      \<and> (re_findall pat_date_of_issue s True = m # ms
          \<or> re_findall pat_date_of_issue s True = []
             \<and> re_findall pat_plain_date s True = m # ms)
      \<and> m = MTuple [d, mon, y] \<and> map_of month_map (str_upper mon) = Some mm"
  then show "\<exists>year. two_digit_year 30 y = Inr year
          \<and> extract_issue_date_from_text_full s = Inr (Some (iso_date year mm (zfill 2 d)))"
    using full_clean_last [of s m ms d mon y mm] by blast
next
  assume v: "(h, ps, F) \<in>
         {(handle_match_pure, patterns_pure, extract_issue_date_from_text_pure),
          (handle_match_pure, patterns_simplified, extract_issue_date_from_text_simplified),
          (handle_match_full, patterns_full, extract_issue_date_from_text_full)}"
  have F: "F s = for_patterns h 0 ps s"
    using v
    by (auto simp: extract_issue_date_from_text_pure_def
        extract_issue_date_from_text_simplified_def extract_issue_date_from_text_full_def)
  {
    assume "n < length ps \<and> (\<forall>j<n. pattern_outcome h ps j s = Inr None)
            \<and> pattern_outcome h ps n s \<noteq> Inr None"
    then show "F s = pattern_outcome h ps n s"
      unfolding F using cascade_first [of n ps h s] by blast
  }
  {
    assume "\<forall>j<length ps. pattern_outcome h ps j s = Inr None"
    then show "F s = Inr None"
      unfolding F using cascade_none [of ps h s] by blast
  }
qed

theorem cascade_priority_by_catalog_witness:
  "extract_issue_date_from_text_simplified ''03 SEP / SEPT 22 Gerer23'' = Inr (Some ''2022-09-03'')
   \<and> extract_issue_date_from_text_pure ''Date of issue 01 JAN 22 Gerer23''
       = handle_match_pure 2 (MTuple [''01'', ''JAN'', ''22''])
   \<and> extract_issue_date_from_text_full ''Date of issue 01 JAN 22 Gerer23''
       = handle_match_full 2 (MStr ''23'')
   \<and> extract_issue_date_from_text_full ''01 JAN 22'' = Inr (Some ''2022-01-01'')
   \<and> extract_issue_date_from_text_pure [] = Inr None"
proof -
  have "\<exists>d mon a b mm. MTuple [''03'', ''SEP'', ''22''] = MTuple [d, mon, [a, b]]
            \<and> is_digit a \<and> is_digit b
            \<and> map_of month_map (str_upper mon) = Some mm
            \<and> extract_issue_date_from_text_simplified ''03 SEP / SEPT 22 Gerer23''
                = Inr (Some (iso_date ((if 10 * digit_val a + digit_val b \<le> 50
                                        then ''20'' else ''19'') @ [a, b]) mm (zfill 2 d)))"
    using cascade_priority_by_catalog
        [where f = extract_issue_date_from_text_simplified and thr = 50
           and s = "''03 SEP / SEPT 22 Gerer23''" and m = "MTuple [''03'', ''SEP'', ''22'']"
           and ms = "[]"]
      bilingual_fragment_tight
    by simp
  then have a: "extract_issue_date_from_text_simplified ''03 SEP / SEPT 22 Gerer23''
      = Inr (Some ''2022-09-03'')"
    by (auto simp: sep_month digit_val_def iso_date_def zfill_def)
  have b: "extract_issue_date_from_text_pure ''Date of issue 01 JAN 22 Gerer23''
       = handle_match_pure 2 (MTuple [''01'', ''JAN'', ''22''])"
    using cascade_priority_by_catalog
        [where g = extract_issue_date_from_text_pure
           and s = "''Date of issue 01 JAN 22 Gerer23''" and m = "MTuple [''01'', ''JAN'', ''22'']"
           and ms = "[]" and i = 2]
      mixed_tight mixed_spaced mixed_labelled
    by simp
  have c: "extract_issue_date_from_text_full ''Date of issue 01 JAN 22 Gerer23''
       = handle_match_full 2 (MStr ''23'')"
    using cascade_priority_by_catalog
        [where s = "''Date of issue 01 JAN 22 Gerer23''" and m = "MStr ''23''"
           and ms = "[]" and k = 0]
      mixed_tight mixed_spaced mixed_year_only
    by simp
  have "\<exists>year. two_digit_year 30 ''22'' = Inr year
          \<and> extract_issue_date_from_text_full ''01 JAN 22''
              = Inr (Some (iso_date year ''01'' (zfill 2 ''01'')))"
    using cascade_priority_by_catalog
        [where s = "''01 JAN 22''" and m = "MTuple [''01'', ''JAN'', ''22'']"
           and ms = "[]" and d = "''01''" and mon = "''JAN''" and y = "''22''" and mm = "''01''"]
      plain_22_tight plain_22_spaced plain_22_fragmented plain_22_labelled plain_22_plain
      jan_month
    by blast
  then have d: "extract_issue_date_from_text_full ''01 JAN 22'' = Inr (Some ''2022-01-01'')"
    by (auto simp: two_digit_year_digits is_digit_2 digit_val_def iso_date_def zfill_def)
  have none: "\<forall>j<length patterns_pure. pattern_outcome handle_match_pure patterns_pure j [] = Inr None"
    using empty_text_pure by (simp add: list_all_length pattern_outcome_def)
  have e: "extract_issue_date_from_text_pure [] = Inr None"
    using cascade_priority_by_catalog
        [where h = handle_match_pure and ps = patterns_pure
           and F = extract_issue_date_from_text_pure and s = "[]"]
      none
    by simp
  from a b c d e show ?thesis by simp
qed

section \<open>The year-only tier\<close>

lemma gsser_tight: "re_findall pat_bilingual_tight ''Gsseryserr22'' True = []"
  by code_simp
lemma gsser_spaced: "re_findall pat_bilingual_spaced ''Gsseryserr22'' True = []"
  by code_simp
lemma gsser_labelled: "re_findall pat_date_of_issue ''Gsseryserr22'' True = []"
  by code_simp
lemma gsser_plain: "re_findall pat_plain_date ''Gsseryserr22'' True = []"
  by code_simp
lemma gsser_year_only: "re_findall pat_year_only ''Gsseryserr22'' True = [MStr ''22'']"
  by code_simp

lemma gsser_pure_earlier:
  "\<forall>j<4. pattern_outcome handle_match_pure patterns_pure j ''Gsseryserr22'' = Inr None"
proof (intro allI impI)
  fix j :: nat assume "j < 4"
  then consider "j = 0" | "j = 1" | "j = 2" | "j = 3" using less_4_cases by blast
  then show "pattern_outcome handle_match_pure patterns_pure j ''Gsseryserr22'' = Inr None"
    by cases
      (simp_all add: pattern_outcome_def patterns_pure_def gsser_tight gsser_spaced
        gsser_labelled gsser_plain)
qed

lemma gsser_full_earlier:
  "\<forall>j<2. pattern_outcome handle_match_full patterns_full j ''Gsseryserr22'' = Inr None"
proof (intro allI impI)
  fix j :: nat assume "j < 2"
  then consider "j = 0" | "j = 1" using less_2_cases by blast
  then show "pattern_outcome handle_match_full patterns_full j ''Gsseryserr22'' = Inr None"
    by cases (simp_all add: pattern_outcome_def patterns_full_def gsser_tight gsser_spaced)
qed

lemma gsser_pure_text: "extract_issue_date_from_text_pure ''Gsseryserr22'' = Inr (Some ''2022-09-03'')"
proof -
  have "pattern_outcome handle_match_pure patterns_pure 4 ''Gsseryserr22'' = Inr (Some ''2022-09-03'')"
    by (simp add: pattern_outcome_def patterns_pure_def handle_match_pure_def gsser_year_only
        year_only_branch_digits is_digit_2 digit_val_def)
  then show ?thesis
    unfolding extract_issue_date_from_text_pure_def
    using cascade_first [of 4 patterns_pure handle_match_pure "''Gsseryserr22''"] gsser_pure_earlier
    by (simp add: patterns_pure_def)
qed

lemma gsser_full_text: "extract_issue_date_from_text_full ''Gsseryserr22'' = Inr (Some ''2022-09-03'')"
proof -
  have "pattern_outcome handle_match_full patterns_full 2 ''Gsseryserr22'' = Inr (Some ''2022-09-03'')"
    by (simp add: pattern_outcome_def patterns_full_def handle_match_full_def gsser_year_only
        year_only_branch_digits is_digit_2 digit_val_def)
  then show ?thesis
    unfolding extract_issue_date_from_text_full_def
    using cascade_first [of 2 patterns_full handle_match_full "''Gsseryserr22''"] gsser_full_earlier
    by (simp add: patterns_full_def)
qed

lemma both_year_only:
  "re_findall pat_year_only ''03 SEP / SEPT 21 Gsseryserr22'' True = [MStr ''22'']"
  by code_simp
lemma both_pure:
  "extract_issue_date_from_text_pure ''03 SEP / SEPT 21 Gsseryserr22'' = Inr (Some ''2021-09-03'')"
  by code_simp
lemma both_simplified:
  "extract_issue_date_from_text_simplified ''03 SEP / SEPT 21 Gsseryserr22''
     = Inr (Some ''2021-09-03'')"
  by code_simp
lemma both_full:
  "extract_issue_date_from_text_full ''03 SEP / SEPT 21 Gsseryserr22'' = Inr (Some ''2021-09-03'')"
  by code_simp

text \<open>
  Against C6 as stated: a text can hold a match of the year-only pattern and still get
  its date from elsewhere. In \<open>03 SEP / SEPT 21 Gsseryserr22\<close> the year-only pattern
  matches the token \<open>22\<close>, but the bilingual pattern at index 0 matches first in
  every extractor and the result is 2021-09-03, not 2022-09-03.
\<close>

theorem earlier_tier_preempts_year_only_counterexample:
  "re_findall pat_year_only ''03 SEP / SEPT 21 Gsseryserr22'' True = [MStr ''22'']
   \<and> extract_issue_date_from_text_pure ''03 SEP / SEPT 21 Gsseryserr22''
       = Inr (Some ''2021-09-03'')
   \<and> extract_issue_date_from_text_simplified ''03 SEP / SEPT 21 Gsseryserr22''
       = Inr (Some ''2021-09-03'')
   \<and> extract_issue_date_from_text_full ''03 SEP / SEPT 21 Gsseryserr22''
       = Inr (Some ''2021-09-03'')"
  using both_year_only both_pure both_simplified both_full by simp

text \<open>
  C6 (amended). Every match of the year-only pattern is a two-digit token. For every
  text in which that pattern has a match and no earlier pattern of the list produced a
  result (the year-only pattern stands at index 4 in the pure and the simplified
  extractor, at index 2 in the full one), the extracted date is the windowed year of
  the first match followed by \<open>-09-03\<close>: month 09 and day 03 are constants of the
  branch, only the two-digit year comes from the text. For the token \<open>22\<close> the date
  is exactly 2022-09-03.
\<close>

theorem year_only_pattern_assumes_03_september:
  assumes variant: "(h, ps, f, i) \<in>
     {(handle_match_pure, patterns_pure, extract_issue_date_from_text_pure, 4),
      (handle_match_pure, patterns_simplified, extract_issue_date_from_text_simplified, 4),
      (handle_match_full, patterns_full, extract_issue_date_from_text_full, 2)}"
    and earlier: "\<forall>j<i. pattern_outcome h ps j text = Inr None"
    and found: "re_findall pat_year_only text True \<noteq> []"
  shows "ps ! i = pat_year_only
       \<and> (\<exists>a b. is_digit a \<and> is_digit b
              \<and> hd (re_findall pat_year_only text True) = MStr [a, b]
              \<and> f text = Inr (Some ((if 10 * digit_val a + digit_val b \<le> 50
                                       then ''20'' else ''19'') @ [a, b] @ ''-09-03'')))
       \<and> (hd (re_findall pat_year_only text True) = MStr ''22''
            \<longrightarrow> f text = Inr (Some ''2022-09-03''))"
proof -
  from found obtain m rest where ms: "re_findall pat_year_only text True = m # rest"
    by (cases "re_findall pat_year_only text True") auto
  then have "m \<in> set (re_findall pat_year_only text True)" by simp
  from year_only_matches [OF this] obtain a b where
    ab: "m = MStr [a, b]" "is_digit a" "is_digit b"
    by blast
  have f: "f text = for_patterns h 0 ps text"
    using variant
    by (auto simp: extract_issue_date_from_text_pure_def
        extract_issue_date_from_text_simplified_def extract_issue_date_from_text_full_def)
  have pat: "ps ! i = pat_year_only" and len: "i < length ps" and hi: "h i = year_only_branch"
    using variant
    by (auto simp: patterns_pure_def patterns_simplified_def patterns_full_def
        handle_match_pure_def handle_match_full_def fun_eq_iff)
  have out: "pattern_outcome h ps i text =
      Inr (Some ((if 10 * digit_val a + digit_val b \<le> 50 then ''20'' else ''19'') @ [a, b] @ ''-09-03''))"
    by (simp add: pattern_outcome_def pat hi ms ab year_only_branch_digits)
  then have "pattern_outcome h ps i text \<noteq> Inr None" by simp
  from cascade_first [OF len earlier this] out f
  have res: "f text =
      Inr (Some ((if 10 * digit_val a + digit_val b \<le> 50 then ''20'' else ''19'') @ [a, b] @ ''-09-03''))"
    by simp
  have hd: "hd (re_findall pat_year_only text True) = MStr [a, b]"
    using ms ab(1) by simp
  have "hd (re_findall pat_year_only text True) = MStr ''22''
          \<longrightarrow> f text = Inr (Some ''2022-09-03'')"
    using res hd by (auto simp: digit_val_def)
  with pat res hd ab(2,3) show ?thesis by blast
qed

theorem year_only_pattern_assumes_03_september_witness:
  "extract_issue_date_from_text_pure ''Gsseryserr22'' = Inr (Some ''2022-09-03'')
   \<and> extract_issue_date_from_text_full ''Gsseryserr22'' = Inr (Some ''2022-09-03'')"
proof -
  have found: "re_findall pat_year_only ''Gsseryserr22'' True \<noteq> []"
    and first: "hd (re_findall pat_year_only ''Gsseryserr22'' True) = MStr ''22''"
    by (simp_all add: gsser_year_only)
  have pure_variant: "(handle_match_pure, patterns_pure, extract_issue_date_from_text_pure, 4::nat) \<in>
     {(handle_match_pure, patterns_pure, extract_issue_date_from_text_pure, 4),
      (handle_match_pure, patterns_simplified, extract_issue_date_from_text_simplified, 4),
      (handle_match_full, patterns_full, extract_issue_date_from_text_full, 2)}"
    by simp
  have full_variant: "(handle_match_full, patterns_full, extract_issue_date_from_text_full, 2::nat) \<in>
     {(handle_match_pure, patterns_pure, extract_issue_date_from_text_pure, 4),
      (handle_match_pure, patterns_simplified, extract_issue_date_from_text_simplified, 4),
      (handle_match_full, patterns_full, extract_issue_date_from_text_full, 2)}"
    by simp
  from year_only_pattern_assumes_03_september [OF pure_variant gsser_pure_earlier found] first
  have "extract_issue_date_from_text_pure ''Gsseryserr22'' = Inr (Some ''2022-09-03'')"
    by blast
  moreover from year_only_pattern_assumes_03_september [OF full_variant gsser_full_earlier found] first
  have "extract_issue_date_from_text_full ''Gsseryserr22'' = Inr (Some ''2022-09-03'')"
    by blast
  ultimately show ?thesis by simp
qed

section \<open>Concrete texts for the runs\<close>

lemma extract_pure_empty: "extract_issue_date_from_text_pure [] = Inr None"
  by code_simp

lemma extract_simplified_empty: "extract_issue_date_from_text_simplified [] = Inr None"
  by code_simp

lemma extract_full_empty: "extract_issue_date_from_text_full [] = Inr None"
  by code_simp

lemma extract_simplified_blank_lines:
  "extract_issue_date_from_text_simplified [CHR 0x0A, CHR 0x0A] = Inr None"
  by code_simp

lemma psm_distinct: "psm8_config \<noteq> psm6_config" "psm7_config \<noteq> psm6_config"
  by (simp_all add: psm6_config_def psm7_config_def psm8_config_def)


section \<open>The arbiter and its candidates\<close>

text \<open>
  C4. The arbiter selects the first candidate labelled \<open>upper_middle\<close> when there is
  one and the first candidate of the list otherwise (none from an empty list). On the
  candidates 2021-01-01 (left_side), 2022-09-03 (upper_middle), 2020-05-05 (right_side)
  the arbitrated date is 2022-09-03. The result of the pure extractor holds under
  \<open>issue_date\<close> exactly the arbitrated date of the sampled candidates (and no such key
  when the first MRZ read raised): one value, a function of the candidate list.
\<close>

theorem arbiter_prefers_upper_middle:
  "best_candidate cands =
     (case find (\<lambda>c. ri_region c = ''upper_middle'') cands of
        Some c \<Rightarrow> Some c
      | None \<Rightarrow> (case cands of [] \<Rightarrow> None | c0 # rest \<Rightarrow> Some c0))
   \<and> arbitrated_issue_date
        [\<lparr>ri_region = ''left_side'', ri_text = t1, ri_date = Some ''2021-01-01''\<rparr>,
         \<lparr>ri_region = ''upper_middle'', ri_text = t2, ri_date = Some ''2022-09-03''\<rparr>,
         \<lparr>ri_region = ''right_side'', ri_text = t3, ri_date = Some ''2020-05-05''\<rparr>]
       = Some ''2022-09-03''
   \<and> dict_get (fst (extract_pure_passport_data E w p)) ''issue_date'' =
       (case mrz_stage_with_fallback E w p of
          (Inl e, w1) \<Rightarrow> None
        | (Inr m, w1) \<Rightarrow>
            Some (json_opt_str (arbitrated_issue_date
                    (fst (extract_issue_date_from_image_regions E w1 p)))))"
proof -
  have "best_candidate cands =
     (case find (\<lambda>c. ri_region c = ''upper_middle'') cands of
        Some c \<Rightarrow> Some c
      | None \<Rightarrow> (case cands of [] \<Rightarrow> None | c0 # rest \<Rightarrow> Some c0))"
    by (simp add: best_candidate_def first_upper_middle_find split: list.split option.split)
  moreover have "arbitrated_issue_date
        [\<lparr>ri_region = ''left_side'', ri_text = t1, ri_date = Some ''2021-01-01''\<rparr>,
         \<lparr>ri_region = ''upper_middle'', ri_text = t2, ri_date = Some ''2022-09-03''\<rparr>,
         \<lparr>ri_region = ''right_side'', ri_text = t3, ri_date = Some ''2020-05-05''\<rparr>]
       = Some ''2022-09-03''"
    by (simp add: best_candidate_def arbitrated_issue_date_def)
  ultimately show ?thesis
    using pure_issue_date [of E w p] by simp
qed




section \<open>The MRZ stage and the success flag\<close>

text \<open>
  C3. The claim: after a null full-image read the orchestrator retries once on the
  bottom quarter and deletes the crop file on every path, also when the retried read
  raises. The runs below are the pure and the simplified extractor on a page whose
  full-image read finds nothing and whose retried read raises: both reads happen, the
  crop is saved as \<open>scan_temp_mrz.png\<close>, and the file is still there at the end, no
  removal having run. When the retried read returns, the file is removed.
\<close>

theorem crop_survives_raising_retry:
  "(let w' = snd (extract_pure_passport_data (env_of retry_raises ocr_blank)
                   (world_with ''scan.png'' (ImageFile page)) ''scan.png'')
    in files w' ''scan_temp_mrz.png'' = Some (ImageFile (Crop page (0, 75, 100, 100)))
       \<and> take 4 (trace w') =
           [MrzRead ''scan.png'', Opened ''scan.png'',
            Saved ''scan_temp_mrz.png'' (Crop page (0, 75, 100, 100)),
            MrzRead ''scan_temp_mrz.png'']
       \<and> Removed ''scan_temp_mrz.png'' \<notin> set (trace w'))
   \<and> (let w' = snd (extract_simplified_passport_data (env_of retry_raises ocr_blank)
                   (world_with ''scan.png'' (ImageFile page)) ''scan.png'')
    in files w' ''scan_temp_mrz.png'' = Some (ImageFile (Crop page (0, 75, 100, 100)))
       \<and> Removed ''scan_temp_mrz.png'' \<notin> set (trace w'))
   \<and> (let w' = snd (extract_pure_passport_data (env_of no_mrz ocr_blank)
                   (world_with ''scan.png'' (ImageFile page)) ''scan.png'')
    in files w' ''scan_temp_mrz.png'' = None
       \<and> Removed ''scan_temp_mrz.png'' \<in> set (trace w'))"
  by (simp add: run_defs ocr_blank_def extract_pure_empty extract_simplified_blank_lines)

lemma starts_with_length: "starts_with old s \<Longrightarrow> length old \<le> length s"
  by (induction old s rule: starts_with.induct) auto

lemma replace_from_length:
  "old \<noteq> [] \<Longrightarrow> length old \<le> length new \<Longrightarrow>
   length s - k \<le> length (replace_from k old new s)"
proof (induction k old new s rule: replace_from.induct)
  case (1 k old new)
  then show ?case by simp
next
  case (2 k old new c s)
  then show ?case by simp
next
  case (3 old new c s)
  show ?case
  proof (cases "starts_with old (c # s)")
    case True
    then have "length old \<le> Suc (length s)" using starts_with_length by fastforce
    moreover have "length s - (length old - 1) \<le> length (replace_from (length old - 1) old new s)"
      using 3 True by simp
    moreover have "0 < length old" using "3.prems"(1) by simp
    ultimately show ?thesis using True "3.prems"(2) by simp
  next
    case False
    with 3 show ?thesis by simp
  qed
qed

lemma replace_from_longer:
  "contains old s \<Longrightarrow> old \<noteq> [] \<Longrightarrow> length old < length new \<Longrightarrow>
   length s < length (replace_from 0 old new s)"
proof (induction s)
  case Nil
  then show ?case by simp
next
  case (Cons c s)
  show ?case
  proof (cases "starts_with old (c # s)")
    case True
    then have "length old \<le> Suc (length s)" using starts_with_length by fastforce
    moreover have "length s - (length old - 1) \<le> length (replace_from (length old - 1) old new s)"
      using replace_from_length [of old new s "length old - 1"] Cons.prems(2,3) by simp
    moreover have "0 < length old" using Cons.prems(2) by simp
    ultimately show ?thesis using True Cons.prems(3) by simp
  next
    case False
    with Cons show ?thesis by simp
  qed
qed

lemma replace_absent: "\<not> contains old s \<Longrightarrow> replace_from 0 old new s = s"
  by (induction s) auto

lemma temp_mrz_path_same: "(temp_mrz_path p = p) = (\<not> contains ''.png'' p)"
proof
  assume same: "temp_mrz_path p = p"
  show "\<not> contains ''.png'' p"
  proof
    assume "contains ''.png'' p"
    then have "length p < length (temp_mrz_path p)"
      using replace_from_longer [of "''.png''" p "''_temp_mrz.png''"]
      by (simp add: temp_mrz_path_def py_replace_def)
    with same show False by simp
  qed
next
  assume "\<not> contains ''.png'' p"
  then show "temp_mrz_path p = p"
    by (simp add: temp_mrz_path_def py_replace_def replace_absent)
qed

text \<open>
  Against C9 as stated: \<open>a.png.jpg\<close> does not end in \<open>.png\<close>, yet the replacement
  rewrites the \<open>.png\<close> inside it, the crop goes to another file and the input stays as
  it was.
\<close>

theorem png_inside_path_counterexample:
  "\<not> ends_with ''.png'' ''a.png.jpg''
   \<and> temp_mrz_path ''a.png.jpg'' = ''a_temp_mrz.png.jpg''
   \<and> files (snd (mrz_stage_with_fallback (env_of no_mrz ocr_blank)
                   (world_with ''a.png.jpg'' (ImageFile page)) ''a.png.jpg'')) ''a.png.jpg''
       = Some (ImageFile page)"
  by (simp add: run_defs ends_with_def)

text \<open>
  C9 (amended). The temporary path is the input path itself exactly for the input
  paths that do not contain \<open>.png\<close> anywhere. For such a path, when the full-image
  read finds no MRZ, the input opens as an image, and the save, the retried read and
  the removal do not raise, the fallback saves the bottom-quarter crop over the input
  file, reads the MRZ from it and removes it: the input file is gone afterwards.
\<close>

theorem fallback_overwrites_input_without_png:
  "(temp_mrz_path p = p) = (\<not> contains ''.png'' p)
   \<and> (\<not> contains ''.png'' p
      \<and> read_mrz E (files w) p = Inr None
      \<and> files w p = Some (ImageFile img)
      \<and> save_error E (mrz_band img) p = None
      \<and> read_mrz E ((files w)(p \<mapsto> ImageFile (mrz_band img))) p = Inr m
      \<and> remove_error E p = None
      \<longrightarrow> files (snd (mrz_stage_with_fallback E w p)) p = None
          \<and> trace (snd (mrz_stage_with_fallback E w p)) =
              trace w @ [MrzRead p, Opened p, Saved p (mrz_band img), MrzRead p, Removed p])"
proof -
  have "files (snd (mrz_stage_with_fallback E w p)) p = None
          \<and> trace (snd (mrz_stage_with_fallback E w p)) =
              trace w @ [MrzRead p, Opened p, Saved p (mrz_band img), MrzRead p, Removed p]"
    if "\<not> contains ''.png'' p" "read_mrz E (files w) p = Inr None"
      "files w p = Some (ImageFile img)" "save_error E (mrz_band img) p = None"
      "read_mrz E ((files w)(p \<mapsto> ImageFile (mrz_band img))) p = Inr m"
      "remove_error E p = None"
  proof -
    have tp: "temp_mrz_path p = p" using that(1) temp_mrz_path_same by simp
    show ?thesis
      using that(2-6)
      by (simp add: tp mrz_stage_with_fallback_def mrz_cropped_fallback_def call_read_mrz_def
          image_open_def image_save_def os_remove_def os_path_exists_def log_def)
  qed
  then show ?thesis using temp_mrz_path_same by blast
qed

theorem fallback_overwrites_input_without_png_witness:
  "temp_mrz_path ''scan.jpg'' = ''scan.jpg''
   \<and> files (snd (mrz_stage_with_fallback (env_of no_mrz ocr_blank)
                   (world_with ''scan.jpg'' (ImageFile page)) ''scan.jpg'')) ''scan.jpg'' = None"
proof -
  have a: "\<not> contains ''.png'' ''scan.jpg''" by simp
  have b: "read_mrz (env_of no_mrz ocr_blank) fs ''scan.jpg'' = Inr None" for fs
    by (simp add: env_of_def no_mrz_def)
  have c: "files (world_with ''scan.jpg'' (ImageFile page)) ''scan.jpg'' = Some (ImageFile page)"
    by (simp add: world_with_def)
  have d: "save_error (env_of no_mrz ocr_blank) (mrz_band page) ''scan.jpg'' = None"
    "remove_error (env_of no_mrz ocr_blank) ''scan.jpg'' = None"
    by (simp_all add: env_of_def)
  from fallback_overwrites_input_without_png
    [of "''scan.jpg''" "env_of no_mrz ocr_blank" "world_with ''scan.jpg'' (ImageFile page)"
      page None] a b c d
  show ?thesis by blast
qed

lemma c10_full_run:
  "dict_get (fst (extract_full_passport_data (env_of no_mrz ocr_year_only_psm6)
       (world_with ''scan.png'' (ImageFile page)) ''scan.png'')) ''issue_date''
     = Some (JStr ''2022-09-03'')"
  by (simp add: run_defs ocr_year_only_psm6_def psm_distinct gsser_full_text)

lemma c10_pure_run:
  "dict_get (fst (extract_pure_passport_data (env_of no_mrz ocr_year_only)
       (world_with ''scan.png'' (ImageFile page)) ''scan.png'')) ''issue_date''
     = Some (JStr ''2022-09-03'')"
  by (simp add: run_defs ocr_year_only_def gsser_pure_text)

lemma no_mrz_read: "read_mrz (env_of no_mrz ocr) fs p = Inr None"
  by (simp add: env_of_def no_mrz_def)

lemma mrz_stage_no_mrz:
  "fst (mrz_stage_with_fallback (env_of no_mrz ocr) w p) = Inr None"
  by (simp add: mrz_stage_with_fallback_def call_read_mrz_def mrz_cropped_fallback_def
      no_mrz_read split: prod.split sum.split option.split)

lemma mrz_stage_outcome:
  "fst (mrz_stage_with_fallback E w p) =
     (case read_mrz E (files w) p of
        Inl e \<Rightarrow> Inl e
      | Inr (Some r) \<Rightarrow> Inr (Some r)
      | Inr None \<Rightarrow>
          Inr (case files w p of
                 Some (ImageFile img) \<Rightarrow>
                   (case save_error E (mrz_band img) (temp_mrz_path p) of
                      Some failure \<Rightarrow> None
                    | None \<Rightarrow>
                        (case read_mrz E ((files w)(temp_mrz_path p \<mapsto> ImageFile (mrz_band img)))
                                (temp_mrz_path p) of
                           Inl e \<Rightarrow> None
                         | Inr m \<Rightarrow> m))
               | _ \<Rightarrow> None))"
  by (simp add: mrz_stage_with_fallback_def mrz_cropped_fallback_def call_read_mrz_def
      image_open_def image_save_def os_path_exists_def log_def
      split: sum.split option.split stored.split save_failure.split)

lemma stage_record_iff:
  "(\<exists>m. fst (mrz_stage_with_fallback E w p) = Inr (Some m)) =
   (\<exists>m. (case read_mrz E (files w) p of
            Inl e \<Rightarrow> None
          | Inr (Some r) \<Rightarrow> Some r
          | Inr None \<Rightarrow>
              (case files w p of
                 Some (ImageFile img) \<Rightarrow>
                   (case save_error E (mrz_band img) (temp_mrz_path p) of
                      Some failure \<Rightarrow> None
                    | None \<Rightarrow>
                        (case read_mrz E ((files w)(temp_mrz_path p \<mapsto> ImageFile (mrz_band img)))
                                (temp_mrz_path p) of
                           Inl e \<Rightarrow> None
                         | Inr m \<Rightarrow> m))
               | _ \<Rightarrow> None)) = Some m)"
  by (simp add: mrz_stage_outcome split: sum.split option.split stored.split)

lemma stage_confidence:
  "(case fst (mrz_stage_with_fallback E w p) of
      Inr (Some m) \<Rightarrow> if valid m then 95 / 100 else 75 / 100
    | _ \<Rightarrow> (0::rat)) =
   (case (case read_mrz E (files w) p of
            Inl e \<Rightarrow> None
          | Inr (Some r) \<Rightarrow> Some r
          | Inr None \<Rightarrow>
              (case files w p of
                 Some (ImageFile img) \<Rightarrow>
                   (case save_error E (mrz_band img) (temp_mrz_path p) of
                      Some failure \<Rightarrow> None
                    | None \<Rightarrow>
                        (case read_mrz E ((files w)(temp_mrz_path p \<mapsto> ImageFile (mrz_band img)))
                                (temp_mrz_path p) of
                           Inl e \<Rightarrow> None
                         | Inr m \<Rightarrow> m))
               | _ \<Rightarrow> None)) of
      Some m \<Rightarrow> if valid m then 95 / 100 else 75 / 100
    | None \<Rightarrow> 0)"
  by (simp add: mrz_stage_outcome split: sum.split option.split stored.split)

lemma pure_success_reads:
  "dict_get (fst (extract_pure_passport_data E w p)) ''success'' =
     Some (JBool (\<exists>m. (case read_mrz E (files w) p of
             Inl e \<Rightarrow> None
           | Inr (Some r) \<Rightarrow> Some r
           | Inr None \<Rightarrow>
               (case files w p of
                  Some (ImageFile img) \<Rightarrow>
                    (case save_error E (mrz_band img) (temp_mrz_path p) of
                       Some failure \<Rightarrow> None
                     | None \<Rightarrow>
                         (case read_mrz E ((files w)(temp_mrz_path p \<mapsto> ImageFile (mrz_band img)))
                                 (temp_mrz_path p) of
                            Inl e \<Rightarrow> None
                          | Inr m \<Rightarrow> m))
                | _ \<Rightarrow> None)) = Some m))"
  by (simp only: pure_success stage_record_iff)

lemma pure_confidence_reads:
  "dict_get (fst (extract_pure_passport_data E w p)) ''confidence'' =
     Some (JNum (case (case read_mrz E (files w) p of
             Inl e \<Rightarrow> None
           | Inr (Some r) \<Rightarrow> Some r
           | Inr None \<Rightarrow>
               (case files w p of
                  Some (ImageFile img) \<Rightarrow>
                    (case save_error E (mrz_band img) (temp_mrz_path p) of
                       Some failure \<Rightarrow> None
                     | None \<Rightarrow>
                         (case read_mrz E ((files w)(temp_mrz_path p \<mapsto> ImageFile (mrz_band img)))
                                 (temp_mrz_path p) of
                            Inl e \<Rightarrow> None
                          | Inr m \<Rightarrow> m))
                | _ \<Rightarrow> None)) of
                   Some m \<Rightarrow> if valid m then 95 / 100 else 75 / 100
                 | None \<Rightarrow> 0))"
  by (simp only: pure_confidence stage_confidence)

lemma simplified_success_reads:
  "dict_get (fst (extract_simplified_passport_data E w p)) ''success'' =
     Some (JBool (\<exists>m. (case read_mrz E (files w) p of
             Inl e \<Rightarrow> None
           | Inr (Some r) \<Rightarrow> Some r
           | Inr None \<Rightarrow>
               (case files w p of
                  Some (ImageFile img) \<Rightarrow>
                    (case save_error E (mrz_band img) (temp_mrz_path p) of
                       Some failure \<Rightarrow> None
                     | None \<Rightarrow>
                         (case read_mrz E ((files w)(temp_mrz_path p \<mapsto> ImageFile (mrz_band img)))
                                 (temp_mrz_path p) of
                            Inl e \<Rightarrow> None
                          | Inr m \<Rightarrow> m))
                | _ \<Rightarrow> None)) = Some m))"
  by (simp only: simplified_success stage_record_iff)

lemma simplified_confidence_reads:
  "dict_get (fst (extract_simplified_passport_data E w p)) ''confidence'' =
     Some (JNum (case (case read_mrz E (files w) p of
             Inl e \<Rightarrow> None
           | Inr (Some r) \<Rightarrow> Some r
           | Inr None \<Rightarrow>
               (case files w p of
                  Some (ImageFile img) \<Rightarrow>
                    (case save_error E (mrz_band img) (temp_mrz_path p) of
                       Some failure \<Rightarrow> None
                     | None \<Rightarrow>
                         (case read_mrz E ((files w)(temp_mrz_path p \<mapsto> ImageFile (mrz_band img)))
                                 (temp_mrz_path p) of
                            Inl e \<Rightarrow> None
                          | Inr m \<Rightarrow> m))
                | _ \<Rightarrow> None)) of
                   Some m \<Rightarrow> if valid m then 95 / 100 else 75 / 100
                 | None \<Rightarrow> 0))"
  by (simp only: simplified_confidence stage_confidence)

lemma c10_full_flags:
  "dict_get (fst (extract_full_passport_data (env_of no_mrz ocr_year_only_psm6)
       (world_with ''scan.png'' (ImageFile page)) ''scan.png'')) ''success'' = Some (JBool False)"
  "dict_get (fst (extract_full_passport_data (env_of no_mrz ocr_year_only_psm6)
       (world_with ''scan.png'' (ImageFile page)) ''scan.png'')) ''confidence'' = Some (JNum 0)"
  by (simp_all add: full_success full_confidence no_mrz_read)

lemma c10_pure_flags:
  "dict_get (fst (extract_pure_passport_data (env_of no_mrz ocr_year_only)
       (world_with ''scan.png'' (ImageFile page)) ''scan.png'')) ''success'' = Some (JBool False)"
  "dict_get (fst (extract_pure_passport_data (env_of no_mrz ocr_year_only)
       (world_with ''scan.png'' (ImageFile page)) ''scan.png'')) ''confidence'' = Some (JNum 0)"
  by (simp_all add: pure_success pure_confidence mrz_stage_no_mrz)

lemma band_temp_path: "temp_mrz_path ''scan.png'' = ''scan_temp_mrz.png''"
  by (simp add: temp_mrz_path_def py_replace_def)

lemma c10_band_pure:
  "dict_get (fst (extract_pure_passport_data (env_of mrz_on_band ocr_blank)
       (world_with ''scan.png'' (ImageFile page)) ''scan.png'')) ''success'' = Some (JBool True)"
  "dict_get (fst (extract_pure_passport_data (env_of mrz_on_band ocr_blank)
       (world_with ''scan.png'' (ImageFile page)) ''scan.png'')) ''confidence''
     = Some (JNum (95 / 100))"
  by (simp_all add: pure_success_reads pure_confidence_reads band_temp_path env_of_def
      mrz_on_band_def world_with_def)

lemma c10_band_full:
  "dict_get (fst (extract_full_passport_data (env_of mrz_on_band ocr_blank)
       (world_with ''scan.png'' (ImageFile page)) ''scan.png'')) ''success'' = Some (JBool False)"
  "dict_get (fst (extract_full_passport_data (env_of mrz_on_band ocr_blank)
       (world_with ''scan.png'' (ImageFile page)) ''scan.png'')) ''confidence'' = Some (JNum 0)"
  by (simp_all add: full_success full_confidence env_of_def mrz_on_band_def)

text \<open>
  C10. In each extractor \<open>success\<close> is true exactly when the MRZ capability returned a
  record, and \<open>confidence\<close> is 0.95 or 0.75 then (by the record's validity) and 0.0
  otherwise. For the full extractor the record is that of \<open>read_mrz\<close> on the image.
  For the pure and the simplified extractor it is that of \<open>read_mrz\<close> on the image
  or, when that call returned \<open>None\<close>, of \<open>read_mrz\<close> on the bottom-quarter crop
  saved at the temporary path, provided the image opened, the crop was saved and the
  second call did not raise. A date recovered from the OCR text changes neither field:
  on a page without MRZ whose text reads \<open>Gsseryserr22\<close> the result has \<open>issue_date\<close>
  2022-09-03 with \<open>success\<close> false and \<open>confidence\<close> 0.0. On a page whose MRZ is read
  only from the crop, the pure extractor reports success with confidence 0.95 and the
  full extractor, which has no retry, reports failure.
\<close>

theorem success_iff_mrz_record:
  "dict_get (fst (extract_full_passport_data E w p)) ''success'' =
     Some (JBool (\<exists>m. read_mrz E (files w) p = Inr (Some m)))
   \<and> dict_get (fst (extract_full_passport_data E w p)) ''confidence'' =
     Some (JNum (case read_mrz E (files w) p of
                   Inr (Some m) \<Rightarrow> if valid m then 95 / 100 else 75 / 100
                 | _ \<Rightarrow> 0))
   \<and> (let found =
          (case read_mrz E (files w) p of
             Inl e \<Rightarrow> None
           | Inr (Some r) \<Rightarrow> Some r
           | Inr None \<Rightarrow>
               (case files w p of
                  Some (ImageFile img) \<Rightarrow>
                    (case save_error E (mrz_band img) (temp_mrz_path p) of
                       Some failure \<Rightarrow> None
                     | None \<Rightarrow>
                         (case read_mrz E ((files w)(temp_mrz_path p \<mapsto> ImageFile (mrz_band img)))
                                 (temp_mrz_path p) of
                            Inl e \<Rightarrow> None
                          | Inr m \<Rightarrow> m))
                | _ \<Rightarrow> None))
       in dict_get (fst (extract_pure_passport_data E w p)) ''success''
            = Some (JBool (\<exists>m. found = Some m))
          \<and> dict_get (fst (extract_pure_passport_data E w p)) ''confidence''
            = Some (JNum (case found of
                            Some m \<Rightarrow> if valid m then 95 / 100 else 75 / 100
                          | None \<Rightarrow> 0))
          \<and> dict_get (fst (extract_simplified_passport_data E w p)) ''success''
            = Some (JBool (\<exists>m. found = Some m))
          \<and> dict_get (fst (extract_simplified_passport_data E w p)) ''confidence''
            = Some (JNum (case found of
                            Some m \<Rightarrow> if valid m then 95 / 100 else 75 / 100
                          | None \<Rightarrow> 0)))
   \<and> (let r = fst (extract_full_passport_data (env_of no_mrz ocr_year_only_psm6)
                   (world_with ''scan.png'' (ImageFile page)) ''scan.png'')
      in dict_get r ''issue_date'' = Some (JStr ''2022-09-03'')
         \<and> dict_get r ''success'' = Some (JBool False)
         \<and> dict_get r ''confidence'' = Some (JNum 0))
   \<and> (let r = fst (extract_pure_passport_data (env_of no_mrz ocr_year_only)
                   (world_with ''scan.png'' (ImageFile page)) ''scan.png'')
      in dict_get r ''issue_date'' = Some (JStr ''2022-09-03'')
         \<and> dict_get r ''success'' = Some (JBool False)
         \<and> dict_get r ''confidence'' = Some (JNum 0))
   \<and> (let E = env_of mrz_on_band ocr_blank; w = world_with ''scan.png'' (ImageFile page)
      in dict_get (fst (extract_pure_passport_data E w ''scan.png'')) ''success''
           = Some (JBool True)
         \<and> dict_get (fst (extract_pure_passport_data E w ''scan.png'')) ''confidence''
           = Some (JNum (95 / 100))
         \<and> dict_get (fst (extract_full_passport_data E w ''scan.png'')) ''success''
           = Some (JBool False)
         \<and> dict_get (fst (extract_full_passport_data E w ''scan.png'')) ''confidence''
           = Some (JNum 0))"
  unfolding Let_def
  by (intro conjI)
     (rule full_success full_confidence pure_success_reads pure_confidence_reads
        simplified_success_reads simplified_confidence_reads c10_full_run c10_pure_run
        c10_full_flags c10_pure_flags c10_band_pure c10_band_full)+

section \<open>OCR failures\<close>

lemma configs_loop_trace:
  "trace (snd (configs_loop E img cfgs w)) = trace w @ map (OcrCall img) cfgs"
  by (induction cfgs arbitrary: w)
     (auto simp: call_image_to_string_def log_def split_beta split: sum.split)

lemma configs_loop_texts:
  "fst (configs_loop E img cfgs w) =
     List.map_filter (\<lambda>c. case image_to_string E img c of Inl e \<Rightarrow> None | Inr t \<Rightarrow> Some t) cfgs"
  by (induction cfgs arbitrary: w)
     (auto simp: call_image_to_string_def split_beta split: sum.split)

lemma regions_loop_trace:
  "trace (snd (regions_loop E img rs w)) =
     trace w @ map (\<lambda>(region_name, box). OcrCall (Crop img box) psm6_config) rs"
  by (induction rs arbitrary: w)
     (auto simp: call_image_to_string_def log_def split_beta split: sum.split)

lemma pure_never_ocr_error:
  "dict_get (fst (extract_pure_passport_data E w p)) ''ocr_error'' = None"
  by (auto simp: extract_pure_passport_data_def Let_def dict_get_dict_set
      dict_get_set_issue_date_other with_mrz_def dict_get_mrz_update_ocr_error
      base_result_def dict_get_Cons dict_get_Nil
      split: sum.split prod.split option.split)

text \<open>
  Against C7 as stated: the pure extractor on a file that cannot be opened as an image
  returns an empty candidate list and no \<open>ocr_error\<close>; the full extractor, when every
  OCR call raises, tries the three configurations and returns an empty text and no
  \<open>ocr_error\<close>.
\<close>

theorem ocr_stage_failure_unrecorded_counterexample:
  "(let r = fst (extract_pure_passport_data (env_of no_mrz ocr_blank)
                   (world_with ''scan.png'' OtherFile) ''scan.png'')
    in dict_get r ''ocr_error'' = None
       \<and> dict_get r ''issue_date_candidates'' = Some (JList []))
   \<and> (let rw = extract_full_passport_data (env_of no_mrz ocr_unavailable)
                   (world_with ''scan.png'' (ImageFile page)) ''scan.png''
      in dict_get (fst rw) ''ocr_error'' = None
         \<and> dict_get (fst rw) ''full_text_ocr'' = Some (JStr [])
         \<and> trace (snd rw) =
             [MrzRead ''scan.png'', Opened ''scan.png'', OcrCall page psm6_config,
              OcrCall page psm8_config, OcrCall page psm7_config])"
  by (simp add: run_defs ocr_blank_def ocr_unavailable_def extract_full_empty)

text \<open>
  C7 (amended). An OCR call that raises is skipped and the loop goes on: every
  configuration (full, simplified) and every region (pure) is sampled, and the texts
  kept are those of the calls that returned. In the full and the simplified extractor
  an exception of opening the image is recorded under \<open>ocr_error\<close> and leaves every
  other key of the result as the MRZ stage set it; the OCR stage never changes a key
  other than \<open>issue_date\<close>, \<open>extracted_data\<close>, \<open>ocr_error\<close> and \<open>full_text_ocr\<close>.
  OCR calls that raise, even all of them, record nothing. The pure extractor never
  sets \<open>ocr_error\<close>.
\<close>

theorem ocr_failures_are_local:
  "trace (snd (configs_loop E img cfgs w)) = trace w @ map (OcrCall img) cfgs
   \<and> fst (configs_loop E img cfgs w) =
       List.map_filter (\<lambda>c. case image_to_string E img c of Inl e \<Rightarrow> None | Inr t \<Rightarrow> Some t) cfgs
   \<and> trace (snd (regions_loop E img rs w)) =
       trace w @ map (\<lambda>(region_name, box). OcrCall (Crop img box) psm6_config) rs
   \<and> (\<forall>e. fst (image_open w p) = Inl e \<longrightarrow>
          fst (ocr_stage_full E w p r) = dict_set r ''ocr_error'' (JStr (exc_str e))
          \<and> fst (ocr_stage_simplified E w p r) = dict_set r ''ocr_error'' (JStr (exc_str e)))
   \<and> (\<forall>k. k \<noteq> ''issue_date'' \<and> k \<noteq> ''extracted_data'' \<and> k \<noteq> ''ocr_error''
             \<and> k \<noteq> ''full_text_ocr'' \<longrightarrow>
          dict_get (fst (ocr_stage_full E w p r)) k = dict_get r k
          \<and> dict_get (fst (ocr_stage_simplified E w p r)) k = dict_get r k)
   \<and> dict_get (fst (extract_pure_passport_data E w p)) ''ocr_error'' = None"
proof -
  have "\<forall>e. fst (image_open w p) = Inl e \<longrightarrow>
          fst (ocr_stage_full E w p r) = dict_set r ''ocr_error'' (JStr (exc_str e))
          \<and> fst (ocr_stage_simplified E w p r) = dict_set r ''ocr_error'' (JStr (exc_str e))"
    by (auto simp: ocr_stage_full_def ocr_stage_simplified_def split: prod.split sum.split)
  moreover have "\<forall>k. k \<noteq> ''issue_date'' \<and> k \<noteq> ''extracted_data'' \<and> k \<noteq> ''ocr_error''
             \<and> k \<noteq> ''full_text_ocr'' \<longrightarrow>
          dict_get (fst (ocr_stage_full E w p r)) k = dict_get r k
          \<and> dict_get (fst (ocr_stage_simplified E w p r)) k = dict_get r k"
    by (simp add: ocr_stage_full_keeps ocr_stage_simplified_keeps)
  ultimately show ?thesis
    by (simp add: configs_loop_trace configs_loop_texts regions_loop_trace pure_never_ocr_error)
qed

theorem ocr_failures_are_local_witness:
  "dict_get (fst (ocr_stage_full (env_of no_mrz ocr_blank) (world_with ''scan.png'' OtherFile)
       ''scan.png'' base_result)) ''ocr_error''
     = Some (JStr (''cannot identify image file '' @ py_repr ''scan.png''))
   \<and> dict_get (fst (ocr_stage_full (env_of no_mrz ocr_blank) (world_with ''scan.png'' OtherFile)
       ''scan.png'' base_result)) ''success''
     = Some (JBool False)"
proof -
  have op: "fst (image_open (world_with ''scan.png'' OtherFile) ''scan.png'')
      = Inl (PyException (''cannot identify image file '' @ py_repr ''scan.png''))"
    by (simp add: image_open_def world_with_def)
  show ?thesis
    using ocr_failures_are_local
      [of "env_of no_mrz ocr_blank" "page" "[]" "world_with ''scan.png'' OtherFile"
        "[]" "''scan.png''" base_result] op
    by (simp add: dict_get_dict_set dict_get_base [of "[]", simplified])
qed

section \<open>Exit codes\<close>

lemma stdout_log: "stdout (log ev w) = stdout w"
  by (simp add: log_def)

lemma stdout_call_read_mrz: "stdout (snd (call_read_mrz E w p)) = stdout w"
  by (simp add: call_read_mrz_def log_def)

lemma stdout_call_image_to_string: "stdout (snd (call_image_to_string E w img c)) = stdout w"
  by (simp add: call_image_to_string_def log_def)

lemma stdout_image_open: "stdout (snd (image_open w p)) = stdout w"
  by (simp add: image_open_def log_def split: option.split stored.split)

lemma stdout_image_save: "stdout (snd (image_save E w img p)) = stdout w"
  by (simp add: image_save_def log_def split: option.split save_failure.split)

lemma stdout_os_remove: "stdout (snd (os_remove E w p)) = stdout w"
  by (simp add: os_remove_def log_def split: option.split)

lemma stdout_mrz_cropped_fallback: "stdout (snd (mrz_cropped_fallback E w p)) = stdout w"
proof -
  have "stdout (snd (mrz_cropped_fallback E w p)) = stdout (snd (image_open w p))"
    using stdout_image_save [of E "snd (image_open w p)"] stdout_os_remove [of E]
      stdout_call_read_mrz [of E]
    by (auto simp: mrz_cropped_fallback_def split: prod.split sum.split)
       (metis snd_conv)+
  then show ?thesis by (simp add: stdout_image_open)
qed

lemma stdout_mrz_stage: "stdout (snd (mrz_stage_with_fallback E w p)) = stdout w"
  using stdout_mrz_cropped_fallback [of E "snd (call_read_mrz E w p)" p]
    stdout_call_read_mrz [of E w p]
  by (auto simp: mrz_stage_with_fallback_def split: prod.split sum.split option.split)

lemma stdout_configs_loop: "stdout (snd (configs_loop E img cfgs w)) = stdout w"
  by (induction cfgs arbitrary: w)
     (auto simp: call_image_to_string_def log_def split_beta split: sum.split)

lemma stdout_regions_loop: "stdout (snd (regions_loop E img rs w)) = stdout w"
  by (induction rs arbitrary: w)
     (auto simp: call_image_to_string_def log_def split_beta split: sum.split)

lemma stdout_regions:
  "stdout (snd (extract_issue_date_from_image_regions E w p)) = stdout w"
  using stdout_image_open [of w p]
  by (auto simp: extract_issue_date_from_image_regions_def stdout_regions_loop
      split: prod.split sum.split)

lemma stdout_ocr_stage_full: "stdout (snd (ocr_stage_full E w p r)) = stdout w"
  using stdout_image_open [of w p]
  by (auto simp: ocr_stage_full_def Let_def split: prod.split sum.split)
     (metis snd_conv stdout_configs_loop)+

lemma stdout_ocr_stage_simplified: "stdout (snd (ocr_stage_simplified E w p r)) = stdout w"
  using stdout_image_open [of w p]
  by (auto simp: ocr_stage_simplified_def Let_def split: prod.split sum.split)
     (metis snd_conv stdout_configs_loop)+

lemma stdout_extract_pure: "stdout (snd (extract_pure_passport_data E w p)) = stdout w"
  using stdout_mrz_stage [of E w p]
  by (auto simp: extract_pure_passport_data_def Let_def split: prod.split sum.split)
     (metis snd_conv stdout_regions)+

lemma stdout_extract_full: "stdout (snd (extract_full_passport_data E w p)) = stdout w"
  using stdout_call_read_mrz [of E w p]
  by (auto simp: extract_full_passport_data_def stdout_ocr_stage_full split: prod.split sum.split)

lemma stdout_extract_simplified:
  "stdout (snd (extract_simplified_passport_data E w p)) = stdout w"
  using stdout_mrz_stage [of E w p]
  by (auto simp: extract_simplified_passport_data_def stdout_ocr_stage_simplified
      split: prod.split sum.split)

lemma stage_never_record:
  "\<forall>fs q. \<nexists>m. read_mrz E fs q = Inr (Some m) \<Longrightarrow>
   \<nexists>m. fst (mrz_stage_with_fallback E w p) = Inr (Some m)"
proof -
  assume never: "\<forall>fs q. \<nexists>m. read_mrz E fs q = Inr (Some m)"
  have r: "read_mrz E fs q = Inr x \<Longrightarrow> x = None" for fs q x
    using never by (cases x) auto
  show ?thesis
    by (auto simp: mrz_stage_outcome dest: r split: sum.splits option.splits stored.splits)
qed

lemma stdout_print_json: "stdout (print_json j w) = stdout w @ [j]"
  by (simp add: print_json_def)

lemma trace_print_json: "trace (print_json j w) = trace w"
  by (simp add: print_json_def)

lemma files_print_json: "files (print_json j w) = files w"
  by (simp add: print_json_def)

lemma main_missing:
  "\<not> os_path_exists w p \<Longrightarrow>
   main_with script extract E w [prog, p] =
     (1, print_json (JObj [(''success'', JBool False),
                           (''error'', JStr (''Image file not found: '' @ p))]) w)"
  by (simp add: main_with_def)

lemma main_existing:
  "os_path_exists w p \<Longrightarrow>
   main_with script extract E w [prog, p] =
     (0, print_json (JObj (fst (extract E w p))) (snd (extract E w p)))"
  by (simp add: main_with_def split_beta)

lemma pure_first_read_raises:
  "read_mrz E (files w) p = Inl e \<Longrightarrow>
   fst (extract_pure_passport_data E w p) =
     [(''success'', JBool False),
      (''error'', JStr (''Pure PassportEye extraction failed: '' @ exc_str e)),
      (''confidence'', JNum 0),
      (''extraction_method'', JStr ''pure_passporteye'')]"
  by (simp add: extract_pure_passport_data_def mrz_stage_with_fallback_def call_read_mrz_def)

lemma full_first_read_raises:
  "read_mrz E (files w) p = Inl e \<Longrightarrow>
   fst (extract_full_passport_data E w p) =
     [(''success'', JBool False),
      (''error'', JStr (''Full passport extraction failed: '' @ exc_str e)),
      (''confidence'', JNum 0)]"
  by (simp add: extract_full_passport_data_def call_read_mrz_def)

lemma simplified_first_read_raises:
  "read_mrz E (files w) p = Inl e \<Longrightarrow>
   fst (extract_simplified_passport_data E w p) =
     [(''success'', JBool False),
      (''error'', JStr (''Simplified extraction failed: '' @ exc_str e)),
      (''confidence'', JNum 0),
      (''extraction_method'', JStr ''simplified_hybrid'')]"
  by (simp add: extract_simplified_passport_data_def mrz_stage_with_fallback_def call_read_mrz_def)

text \<open>
  C8. Called with one path argument that names no file, each script appends to standard
  output the one record \<open>{"success": false, "error": "Image file not found: ..."}\<close>
  and exits with code 1, and neither the trace of capability calls nor the files have
  changed: nothing was invoked. Called on an existing file, it exits with code 0 and
  appends to standard output exactly one record, the extractor's result, whatever the
  capabilities do. When \<open>read_mrz\<close> raises on the image that record is the extractor's
  failure record, \<open>success\<close> false with the exception's text in \<open>error\<close>; when
  \<open>read_mrz\<close> never returns a record the printed record has \<open>success\<close> false.
\<close>

theorem missing_file_is_usage_error:
  "(\<not> os_path_exists w p \<longrightarrow>
      fst (main_pure E w [prog, p]) = 1
      \<and> stdout (snd (main_pure E w [prog, p])) =
          stdout w @ [JObj [(''success'', JBool False),
                            (''error'', JStr (''Image file not found: '' @ p))]]
      \<and> trace (snd (main_pure E w [prog, p])) = trace w
      \<and> files (snd (main_pure E w [prog, p])) = files w
      \<and> fst (main_full E w [prog, p]) = 1
      \<and> stdout (snd (main_full E w [prog, p])) =
          stdout w @ [JObj [(''success'', JBool False),
                            (''error'', JStr (''Image file not found: '' @ p))]]
      \<and> trace (snd (main_full E w [prog, p])) = trace w
      \<and> files (snd (main_full E w [prog, p])) = files w
      \<and> fst (main_simplified E w [prog, p]) = 1
      \<and> stdout (snd (main_simplified E w [prog, p])) =
          stdout w @ [JObj [(''success'', JBool False),
                            (''error'', JStr (''Image file not found: '' @ p))]]
      \<and> trace (snd (main_simplified E w [prog, p])) = trace w
      \<and> files (snd (main_simplified E w [prog, p])) = files w)
   \<and> (os_path_exists w p \<longrightarrow>
      fst (main_pure E w [prog, p]) = 0
      \<and> stdout (snd (main_pure E w [prog, p])) =
          stdout w @ [JObj (fst (extract_pure_passport_data E w p))]
      \<and> fst (main_full E w [prog, p]) = 0
      \<and> stdout (snd (main_full E w [prog, p])) =
          stdout w @ [JObj (fst (extract_full_passport_data E w p))]
      \<and> fst (main_simplified E w [prog, p]) = 0
      \<and> stdout (snd (main_simplified E w [prog, p])) =
          stdout w @ [JObj (fst (extract_simplified_passport_data E w p))]
      \<and> (read_mrz E (files w) p = Inl e \<longrightarrow>
           stdout (snd (main_pure E w [prog, p])) =
             stdout w @ [JObj [(''success'', JBool False),
               (''error'', JStr (''Pure PassportEye extraction failed: '' @ exc_str e)),
               (''confidence'', JNum 0),
               (''extraction_method'', JStr ''pure_passporteye'')]]
           \<and> stdout (snd (main_full E w [prog, p])) =
             stdout w @ [JObj [(''success'', JBool False),
               (''error'', JStr (''Full passport extraction failed: '' @ exc_str e)),
               (''confidence'', JNum 0)]]
           \<and> stdout (snd (main_simplified E w [prog, p])) =
             stdout w @ [JObj [(''success'', JBool False),
               (''error'', JStr (''Simplified extraction failed: '' @ exc_str e)),
               (''confidence'', JNum 0),
               (''extraction_method'', JStr ''simplified_hybrid'')]])
      \<and> ((\<forall>fs q. \<nexists>m. read_mrz E fs q = Inr (Some m)) \<longrightarrow>
           (\<exists>r. stdout (snd (main_pure E w [prog, p])) = stdout w @ [JObj r]
                \<and> dict_get r ''success'' = Some (JBool False))
           \<and> (\<exists>r. stdout (snd (main_full E w [prog, p])) = stdout w @ [JObj r]
                \<and> dict_get r ''success'' = Some (JBool False))
           \<and> (\<exists>r. stdout (snd (main_simplified E w [prog, p])) = stdout w @ [JObj r]
                \<and> dict_get r ''success'' = Some (JBool False))))"
proof (intro conjI impI)
  assume missing: "\<not> os_path_exists w p"
  note m = main_missing [OF missing]
  show "fst (main_pure E w [prog, p]) = 1" "fst (main_full E w [prog, p]) = 1"
    "fst (main_simplified E w [prog, p]) = 1"
    by (simp_all add: main_pure_def main_full_def main_simplified_def m)
  show "stdout (snd (main_pure E w [prog, p])) =
          stdout w @ [JObj [(''success'', JBool False),
                            (''error'', JStr (''Image file not found: '' @ p))]]"
    "stdout (snd (main_full E w [prog, p])) =
          stdout w @ [JObj [(''success'', JBool False),
                            (''error'', JStr (''Image file not found: '' @ p))]]"
    "stdout (snd (main_simplified E w [prog, p])) =
          stdout w @ [JObj [(''success'', JBool False),
                            (''error'', JStr (''Image file not found: '' @ p))]]"
    by (simp_all add: main_pure_def main_full_def main_simplified_def m stdout_print_json)
  show "trace (snd (main_pure E w [prog, p])) = trace w"
    "trace (snd (main_full E w [prog, p])) = trace w"
    "trace (snd (main_simplified E w [prog, p])) = trace w"
    by (simp_all add: main_pure_def main_full_def main_simplified_def m trace_print_json)
  show "files (snd (main_pure E w [prog, p])) = files w"
    "files (snd (main_full E w [prog, p])) = files w"
    "files (snd (main_simplified E w [prog, p])) = files w"
    by (simp_all add: main_pure_def main_full_def main_simplified_def m files_print_json)
next
  assume present: "os_path_exists w p"
  note m = main_existing [OF present]
  show "fst (main_pure E w [prog, p]) = 0" "fst (main_full E w [prog, p]) = 0"
    "fst (main_simplified E w [prog, p]) = 0"
    by (simp_all add: main_pure_def main_full_def main_simplified_def m)
  show pure: "stdout (snd (main_pure E w [prog, p])) =
          stdout w @ [JObj (fst (extract_pure_passport_data E w p))]"
    by (simp add: main_pure_def m stdout_print_json stdout_extract_pure)
  show full: "stdout (snd (main_full E w [prog, p])) =
          stdout w @ [JObj (fst (extract_full_passport_data E w p))]"
    by (simp add: main_full_def m stdout_print_json stdout_extract_full)
  show simplified: "stdout (snd (main_simplified E w [prog, p])) =
          stdout w @ [JObj (fst (extract_simplified_passport_data E w p))]"
    by (simp add: main_simplified_def m stdout_print_json stdout_extract_simplified)
  {
    assume raises: "read_mrz E (files w) p = Inl e"
    show "stdout (snd (main_pure E w [prog, p])) =
             stdout w @ [JObj [(''success'', JBool False),
               (''error'', JStr (''Pure PassportEye extraction failed: '' @ exc_str e)),
               (''confidence'', JNum 0),
               (''extraction_method'', JStr ''pure_passporteye'')]]"
      by (simp only: pure pure_first_read_raises [OF raises])
    show "stdout (snd (main_full E w [prog, p])) =
             stdout w @ [JObj [(''success'', JBool False),
               (''error'', JStr (''Full passport extraction failed: '' @ exc_str e)),
               (''confidence'', JNum 0)]]"
      by (simp only: full full_first_read_raises [OF raises])
    show "stdout (snd (main_simplified E w [prog, p])) =
             stdout w @ [JObj [(''success'', JBool False),
               (''error'', JStr (''Simplified extraction failed: '' @ exc_str e)),
               (''confidence'', JNum 0),
               (''extraction_method'', JStr ''simplified_hybrid'')]]"
      by (simp only: simplified simplified_first_read_raises [OF raises])
  }
  {
    assume never: "\<forall>fs q. \<nexists>m. read_mrz E fs q = Inr (Some m)"
    have stage: "\<nexists>m. fst (mrz_stage_with_fallback E w p) = Inr (Some m)"
      by (rule stage_never_record [OF never])
    have "dict_get (fst (extract_pure_passport_data E w p)) ''success'' = Some (JBool False)"
      using stage by (simp add: pure_success)
    with pure show "\<exists>r. stdout (snd (main_pure E w [prog, p])) = stdout w @ [JObj r]
                \<and> dict_get r ''success'' = Some (JBool False)"
      by blast
    have "dict_get (fst (extract_full_passport_data E w p)) ''success'' = Some (JBool False)"
      using never by (simp add: full_success)
    with full show "\<exists>r. stdout (snd (main_full E w [prog, p])) = stdout w @ [JObj r]
                \<and> dict_get r ''success'' = Some (JBool False)"
      by blast
    have "dict_get (fst (extract_simplified_passport_data E w p)) ''success'' = Some (JBool False)"
      using stage by (simp add: simplified_success)
    with simplified show "\<exists>r. stdout (snd (main_simplified E w [prog, p])) = stdout w @ [JObj r]
                \<and> dict_get r ''success'' = Some (JBool False)"
      by blast
  }
qed

theorem missing_file_is_usage_error_witness:
  "fst (main_pure (env_of no_mrz ocr_blank) (world_with ''scan.png'' (ImageFile page))
         [''passporteye_pure_extractor.py'', ''missing.png'']) = 1
   \<and> stdout (snd (main_pure (env_of no_mrz ocr_blank) (world_with ''scan.png'' (ImageFile page))
         [''passporteye_pure_extractor.py'', ''missing.png''])) =
       [JObj [(''success'', JBool False),
              (''error'', JStr ''Image file not found: missing.png'')]]
   \<and> trace (snd (main_pure (env_of no_mrz ocr_blank) (world_with ''scan.png'' (ImageFile page))
         [''passporteye_pure_extractor.py'', ''missing.png''])) = []
   \<and> fst (main_full (env_of retry_raises ocr_blank) (world_with ''page.png'' (ImageFile page))
         [''passporteye_full_extractor.py'', ''page.png'']) = 0
   \<and> stdout (snd (main_full (env_of retry_raises ocr_blank) (world_with ''page.png'' (ImageFile page))
         [''passporteye_full_extractor.py'', ''page.png''])) =
       [JObj [(''success'', JBool False),
              (''error'', JStr ''Full passport extraction failed: mrz detection failed''),
              (''confidence'', JNum 0)]]
   \<and> fst (main_simplified (env_of no_mrz ocr_blank) (world_with ''scan.png'' (ImageFile page))
         [''passporteye_simplified_extractor.py'', ''scan.png'']) = 0
   \<and> (\<exists>r. stdout (snd (main_simplified (env_of no_mrz ocr_blank)
              (world_with ''scan.png'' (ImageFile page))
              [''passporteye_simplified_extractor.py'', ''scan.png''])) = [JObj r]
          \<and> dict_get r ''success'' = Some (JBool False))"
proof -
  have missing: "\<not> os_path_exists (world_with ''scan.png'' (ImageFile page)) ''missing.png''"
    by (simp add: os_path_exists_def world_with_def)
  have present: "os_path_exists (world_with ''scan.png'' (ImageFile page)) ''scan.png''"
    "os_path_exists (world_with ''page.png'' (ImageFile page)) ''page.png''"
    by (simp_all add: os_path_exists_def world_with_def)
  have raises: "read_mrz (env_of retry_raises ocr_blank)
      (files (world_with ''page.png'' (ImageFile page))) ''page.png''
        = Inl (PyException ''mrz detection failed'')"
    by (simp add: env_of_def retry_raises_def)
  have never: "\<forall>fs q. \<nexists>m. read_mrz (env_of no_mrz ocr_blank) fs q = Inr (Some m)"
    by (simp add: no_mrz_read)
  have w0: "stdout (world_with ''scan.png'' (ImageFile page)) = []"
    "trace (world_with ''scan.png'' (ImageFile page)) = []"
    "stdout (world_with ''page.png'' (ImageFile page)) = []"
    by (simp_all add: world_with_def)
  let ?w = "world_with ''scan.png'' (ImageFile page)"
  let ?v = "world_with ''page.png'' (ImageFile page)"
  from missing_file_is_usage_error
      [of ?w "''missing.png''" "env_of no_mrz ocr_blank" "''passporteye_pure_extractor.py''"]
    missing
  have "fst (main_pure (env_of no_mrz ocr_blank) ?w
         [''passporteye_pure_extractor.py'', ''missing.png'']) = 1
     \<and> stdout (snd (main_pure (env_of no_mrz ocr_blank) ?w
         [''passporteye_pure_extractor.py'', ''missing.png''])) =
       stdout ?w @ [JObj [(''success'', JBool False),
              (''error'', JStr (''Image file not found: '' @ ''missing.png''))]]
     \<and> trace (snd (main_pure (env_of no_mrz ocr_blank) ?w
         [''passporteye_pure_extractor.py'', ''missing.png''])) = trace ?w"
    by blast
  then have a: "fst (main_pure (env_of no_mrz ocr_blank) ?w
         [''passporteye_pure_extractor.py'', ''missing.png'']) = 1
     \<and> stdout (snd (main_pure (env_of no_mrz ocr_blank) ?w
         [''passporteye_pure_extractor.py'', ''missing.png''])) =
       [JObj [(''success'', JBool False),
              (''error'', JStr ''Image file not found: missing.png'')]]
     \<and> trace (snd (main_pure (env_of no_mrz ocr_blank) ?w
         [''passporteye_pure_extractor.py'', ''missing.png''])) = []"
    by (simp add: w0)
  from missing_file_is_usage_error
      [of ?v "''page.png''" "env_of retry_raises ocr_blank" "''passporteye_full_extractor.py''"
        "PyException ''mrz detection failed''"]
    present(2) raises
  have "fst (main_full (env_of retry_raises ocr_blank) ?v
         [''passporteye_full_extractor.py'', ''page.png'']) = 0
     \<and> stdout (snd (main_full (env_of retry_raises ocr_blank) ?v
         [''passporteye_full_extractor.py'', ''page.png''])) =
       stdout ?v @ [JObj [(''success'', JBool False),
              (''error'', JStr (''Full passport extraction failed: ''
                                 @ exc_str (PyException ''mrz detection failed''))),
              (''confidence'', JNum 0)]]"
    by blast
  then have b: "fst (main_full (env_of retry_raises ocr_blank) ?v
         [''passporteye_full_extractor.py'', ''page.png'']) = 0
     \<and> stdout (snd (main_full (env_of retry_raises ocr_blank) ?v
         [''passporteye_full_extractor.py'', ''page.png''])) =
       [JObj [(''success'', JBool False),
              (''error'', JStr ''Full passport extraction failed: mrz detection failed''),
              (''confidence'', JNum 0)]]"
    by (simp add: w0)
  from missing_file_is_usage_error
      [of ?w "''scan.png''" "env_of no_mrz ocr_blank" "''passporteye_simplified_extractor.py''"]
    present(1) never
  have "fst (main_simplified (env_of no_mrz ocr_blank) ?w
         [''passporteye_simplified_extractor.py'', ''scan.png'']) = 0
     \<and> (\<exists>r. stdout (snd (main_simplified (env_of no_mrz ocr_blank) ?w
              [''passporteye_simplified_extractor.py'', ''scan.png''])) = stdout ?w @ [JObj r]
          \<and> dict_get r ''success'' = Some (JBool False))"
    by blast
  then have c: "fst (main_simplified (env_of no_mrz ocr_blank) ?w
         [''passporteye_simplified_extractor.py'', ''scan.png'']) = 0
     \<and> (\<exists>r. stdout (snd (main_simplified (env_of no_mrz ocr_blank) ?w
              [''passporteye_simplified_extractor.py'', ''scan.png''])) = [JObj r]
          \<and> dict_get r ''success'' = Some (JBool False))"
    by (simp add: w0)
  from a b c show ?thesis by blast
qed

end
